theory Spec2Isabelle
  imports Complex_Main
begin

section \<open>Time-domain modified nodal analysis: the engine of MNA3.c\<close>

text \<open>
  The C program keeps the system, the solution vectors and the netlist in global arrays
  of \<open>double\<close>. The arrays are modelled as total functions on \<open>nat\<close>, which is the
  program as long as no index passes the declared bound: with \<open>Yn[MAX_NOS][MAX_NOS]\<close>,
  indexed up to \<open>nv + 1\<close>, that is \<open>nv + 1 < MAX_NOS\<close> (the layout of \<open>Yn\<close> in memory is
  written out with the shared stamps). \<open>double\<close> is modelled as \<open>real\<close>: every statement
  below is about exact real arithmetic, not about IEEE rounding, and a quotient is the
  one of the program only when its divisor is not zero.
\<close>

type_synonym sistema = "nat \<Rightarrow> nat \<Rightarrow> real"
type_synonym vetor = "nat \<Rightarrow> real"

text \<open>
  The fatal exits of the numerical engine, with what their messages print. The last value
  is no exit of the program: it marks a run whose step of integration is an infinity of
  the doubles, which the real numbers of this model do not hold.
\<close>

datatype erro =
    SistemaSingular real real
  | NaoConvergiu real nat
  | ParametrosInvalidos
  | PassoInfinito

definition TOLG :: real where "TOLG = 1 / 10 ^ 12"
definition TOLE :: real where "TOLE = 1 / 10 ^ 7"
definition MAX_IT :: nat where "MAX_IT = 100"
definition VT :: real where "VT = 25 / 1000"
definition IS :: real where "IS = 37751345 / 10 ^ 21"
definition K0 :: real where "K0 = 1 / 10000"
definition LAMBDA :: real where "LAMBDA = 5 / 100"
definition VT0 :: real where "VT0 = 1"
definition ALFA :: real where "ALFA = 99 / 100"
definition ALFAR :: real where "ALFAR = 1 / 2"
definition inicial :: real where "inicial = 1 / 1000"

text \<open>\<open>Yn[r][c] = v\<close> and \<open>Yn[r][c] += v\<close>.\<close>

definition atribui :: "sistema \<Rightarrow> nat \<Rightarrow> nat \<Rightarrow> real \<Rightarrow> sistema" where
  "atribui Y r c v = Y(r := (Y r)(c := v))"

definition soma :: "sistema \<Rightarrow> nat \<Rightarrow> nat \<Rightarrow> real \<Rightarrow> sistema" where
  "soma Y r c v = atribui Y r c (Y r c + v)"

subsection \<open>resolversistema: Gauss-Jordan with pivoting\<close>

text \<open>
  The search of the pivot of column \<open>i\<close>: \<open>tt = 0; a = i; for (l = i; l <= nv; l++)
  if (fabs(Yn[l][i]) > fabs(tt)) { a = l; tt = Yn[l][i]; }\<close>. The pair is \<open>(a, tt)\<close>.
\<close>

definition busca :: "sistema \<Rightarrow> nat \<Rightarrow> nat \<Rightarrow> nat \<times> real \<Rightarrow> nat \<times> real" where
  "busca Y i l att = (if \<bar>Y l i\<bar> > \<bar>snd att\<bar> then (l, Y l i) else att)"

definition pivot :: "sistema \<Rightarrow> nat \<Rightarrow> nat \<Rightarrow> nat \<times> real" where
  "pivot Y nv i = fold (busca Y i) [i..<Suc nv] (i, 0)"

text \<open>The exchange of rows \<open>i\<close> and \<open>a\<close>, column by column from 1 to \<open>nv + 1\<close>.\<close>

definition troca1 :: "nat \<Rightarrow> nat \<Rightarrow> nat \<Rightarrow> sistema \<Rightarrow> sistema" where
  "troca1 i a l Y = (let p = Y i l; Y1 = atribui Y i l (Y a l) in atribui Y1 a l p)"

definition troca :: "nat \<Rightarrow> nat \<Rightarrow> nat \<Rightarrow> sistema \<Rightarrow> sistema" where
  "troca nv i a Y = (if i \<noteq> a then fold (troca1 i a) [1..<nv + 2] Y else Y)"

text \<open>
  The body of the loop on \<open>j\<close>: the pivot row is divided in column \<open>j\<close>, then every other
  row \<open>l\<close> of 1..nv loses \<open>Yn[l][i] * p\<close> in column \<open>j\<close>. The loop runs \<open>j\<close> from
  \<open>nv + 1\<close> down to 1.
\<close>

definition elimina1 :: "nat \<Rightarrow> nat \<Rightarrow> real \<Rightarrow> nat \<Rightarrow> sistema \<Rightarrow> sistema" where
  "elimina1 i j p l Y = (if l \<noteq> i then atribui Y l j (Y l j - Y l i * p) else Y)"

definition coluna :: "nat \<Rightarrow> nat \<Rightarrow> real \<Rightarrow> nat \<Rightarrow> sistema \<Rightarrow> sistema" where
  "coluna nv i tt j Y =
     (let Y1 = atribui Y i j (Y i j / tt); p = Y1 i j
      in fold (elimina1 i j p) [1..<Suc nv] Y1)"

definition normaliza :: "nat \<Rightarrow> nat \<Rightarrow> real \<Rightarrow> sistema \<Rightarrow> sistema" where
  "normaliza nv i tt Y = fold (coluna nv i tt) (rev [1..<nv + 2]) Y"

text \<open>One turn of the loop on the pivot column \<open>i\<close>; \<open>t\<close> is the global time, for the message.\<close>

definition passo_pivot :: "nat \<Rightarrow> real \<Rightarrow> nat \<Rightarrow> sistema \<Rightarrow> erro + sistema" where
  "passo_pivot nv t i Y =
     (let att = pivot Y nv i; a = fst att; tt = snd att; Y1 = troca nv i a Y
      in if \<bar>tt\<bar> < TOLG then Inl (SistemaSingular tt t)
         else Inr (normaliza nv i tt Y1))"

fun passos_pivot :: "nat \<Rightarrow> real \<Rightarrow> nat list \<Rightarrow> sistema \<Rightarrow> erro + sistema" where
  "passos_pivot nv t [] Y = Inr Y"
| "passos_pivot nv t (i # is) Y =
     (case passo_pivot nv t i Y of
        Inl e \<Rightarrow> Inl e
      | Inr Y' \<Rightarrow> passos_pivot nv t is Y')"

definition resolversistema :: "nat \<Rightarrow> real \<Rightarrow> sistema \<Rightarrow> erro + sistema" where
  "resolversistema nv t Y = passos_pivot nv t [1..<Suc nv] Y"

subsection \<open>The netlist and the global state\<close>

text \<open>
  \<open>struct elemento\<close>. The fields \<open>a, b, c, d, x, y\<close> are written \<open>el_a\<close> ... \<open>el_y\<close>.
  The kind of an element is the first character of its name. The field \<open>y\<close> also holds
  the character of the source kind (\<open>'D'\<close>, \<open>'S'\<close>, \<open>'P'\<close>) or of the transistor
  polarity (\<open>'N'\<close>, \<open>'P'\<close>), as its code.
\<close>

record elemento =
  nome :: string
  p1 :: real
  p2 :: real
  p3 :: real
  el_a :: nat
  el_b :: nat
  el_c :: nat
  el_d :: nat
  el_x :: nat
  el_y :: nat

definition tipo_de :: "elemento \<Rightarrow> char" where
  "tipo_de e = (case nome e of [] \<Rightarrow> CHR 0x00 | ch # _ \<Rightarrow> ch)"

definition codigo :: "char \<Rightarrow> nat" where
  "codigo ch = of_char ch"

text \<open>
  The globals of the program that the numerical engine reads or writes. The one-letter
  globals \<open>n, t, g, v\<close> and \<open>id\<close> are written \<open>var_n\<close> ... \<open>var_id\<close>. The scratch globals
  that every use assigns before it reads (\<open>tmp, ex, vgs, vds, Km, gds, drain, source,
  gate, erro\<close>) are local to the function that uses them. \<open>rand()\<close> is a stream
  \<open>rand_seq\<close> read at \<open>rand_pos\<close>; \<open>arquivo\<close> holds the rows written to the table.
\<close>

record estado =
  netlist :: "nat \<Rightarrow> elemento"
  ne :: nat
  nv :: nat
  nao_linear :: bool
  metodo :: nat
  Yn :: sistema
  en :: vetor
  et :: vetor
  var_n :: nat
  var_t :: real
  var_g :: real
  var_v :: real
  var_id :: real
  dt :: real
  dt1 :: real
  dta :: real
  tempo :: real
  npontos :: int
  npassos :: int
  ntotal :: int
  iteracoes :: nat
  reinicios :: nat
  randomizacoes :: nat
  primeira :: bool
  erro_max :: real
  max_iter :: nat
  max_reinicios :: nat
  t_max_iter :: real
  t_ult_rand :: real
  rand_seq :: "nat \<Rightarrow> nat"
  rand_pos :: nat
  RAND_MAX :: nat
  arquivo :: "(real \<times> real list) list"

subsection \<open>The stamps shared by the elements\<close>

definition transcondutancia :: "nat \<Rightarrow> nat \<Rightarrow> nat \<Rightarrow> nat \<Rightarrow> real \<Rightarrow> sistema \<Rightarrow> sistema" where
  "transcondutancia noa nob noc nod gg Y =
     (let Y1 = soma Y noa noc gg;
          Y2 = soma Y1 nob nod gg;
          Y3 = soma Y2 noa nod (- gg)
      in soma Y3 nob noc (- gg))"

definition condutancia :: "nat \<Rightarrow> nat \<Rightarrow> real \<Rightarrow> sistema \<Rightarrow> sistema" where
  "condutancia noa nob gg Y = transcondutancia noa nob noa nob gg Y"

text \<open>\<open>fonte\<close> writes in column \<open>nv + 1\<close>, the right-hand side.\<close>

definition fonte :: "nat \<Rightarrow> nat \<Rightarrow> nat \<Rightarrow> real \<Rightarrow> sistema \<Rightarrow> sistema" where
  "fonte nvv noa nob ii Y =
     (let Y1 = soma Y noa (nvv + 1) (- ii) in soma Y1 nob (nvv + 1) ii)"

text \<open>
  \<open>double Yn[MAX_NOS][MAX_NOS]\<close>, with \<open>MAX_NOS = 50\<close>, row after row in memory: \<open>celula\<close> is
  the place of \<open>Yn[r][c]\<close>, counted in doubles from the start of the array. The two
  shared stamps as they act on the memory. A column index that reaches \<open>MAX_NOS\<close> is the
  column 0 of the next row; the functions of \<open>sistema\<close> are the program as long as every
  column index, the \<open>nv + 1\<close> of the right-hand side included, stays below \<open>MAX_NOS\<close>.
\<close>

definition MAX_NOS :: nat where "MAX_NOS = 50"

definition celula :: "nat \<Rightarrow> nat \<Rightarrow> nat" where
  "celula r c = r * MAX_NOS + c"

definition le_Yn :: "(nat \<Rightarrow> real) \<Rightarrow> sistema" where
  "le_Yn m = (\<lambda>r c. m (celula r c))"

definition soma_mem :: "(nat \<Rightarrow> real) \<Rightarrow> nat \<Rightarrow> nat \<Rightarrow> real \<Rightarrow> nat \<Rightarrow> real" where
  "soma_mem m r c v = m(celula r c := m (celula r c) + v)"

definition transcondutancia_mem ::
  "nat \<Rightarrow> nat \<Rightarrow> nat \<Rightarrow> nat \<Rightarrow> real \<Rightarrow> (nat \<Rightarrow> real) \<Rightarrow> nat \<Rightarrow> real" where
  "transcondutancia_mem noa nob noc nod gg m =
     (let m1 = soma_mem m noa noc gg;
          m2 = soma_mem m1 nob nod gg;
          m3 = soma_mem m2 noa nod (- gg)
      in soma_mem m3 nob noc (- gg))"

definition fonte_mem :: "nat \<Rightarrow> nat \<Rightarrow> nat \<Rightarrow> real \<Rightarrow> (nat \<Rightarrow> real) \<Rightarrow> nat \<Rightarrow> real" where
  "fonte_mem nvv noa nob ii m =
     (let m1 = soma_mem m noa (nvv + 1) (- ii) in soma_mem m1 nob (nvv + 1) ii)"

text \<open>A run of assignments \<open>Yn[r][c] = v\<close>, in the order written.\<close>

fun atribuicoes :: "(nat \<times> nat \<times> real) list \<Rightarrow> sistema \<Rightarrow> sistema" where
  "atribuicoes [] Y = Y"
| "atribuicoes ((r, c, v) # rest) Y = atribuicoes rest (atribui Y r c v)"

definition diodo :: "nat \<Rightarrow> nat \<Rightarrow> estado \<Rightarrow> estado" where
  "diodo noa nob s =
     (let vv = (if var_n s = 0 \<and> iteracoes s = 0 then 6 / 10
                else (let v0 = en s noa - en s nob in if v0 > 9 / 10 then 9 / 10 else v0));
          ex = exp (vv / VT);
          gg = (IS / VT) * ex;
          Y1 = condutancia noa nob gg (Yn s);
          idd = IS * (ex - 1) - gg * vv;
          Y2 = fonte (nv s) noa nob idd Y1
      in s\<lparr>Yn := Y2, var_v := vv, var_g := gg, var_id := idd\<rparr>)"

text \<open>
  The value of an independent source at the global time: the \<open>switch\<close> on the source
  kind assigns \<open>g\<close>, and leaves it as it was for any other kind. \<open>M_PI\<close> is modelled as
  the real number \<open>pi\<close>.
\<close>

definition M_PI :: real where "M_PI = pi"

definition valor_fonte :: "elemento \<Rightarrow> real \<Rightarrow> real \<Rightarrow> real" where
  "valor_fonte e tt g0 =
     (if el_y e = codigo CHR ''D'' then p1 e
      else if el_y e = codigo CHR ''S'' then p1 e + p2 e * sin (2 * M_PI * p3 e * tt)
      else if el_y e = codigo CHR ''P'' then (if tt < p3 e then p1 e else p2 e)
      else g0)"

subsection \<open>The stamps of the elements\<close>

text \<open>Each function is one branch of the chain on \<open>tipo\<close> in the loop "Monta estampas".\<close>

definition estampa_R :: "elemento \<Rightarrow> estado \<Rightarrow> estado" where
  "estampa_R e s = s\<lparr>Yn := condutancia (el_a e) (el_b e) (1 / p1 e) (Yn s)\<rparr>"

text \<open>
  The capacitor. With \<open>metodo < 3\<close> the backward Euler model; otherwise the trapezoidal
  model, whose source voltage \<open>p3\<close> is renewed while \<open>primeira\<close> holds.
\<close>

definition estampa_C :: "nat \<Rightarrow> elemento \<Rightarrow> estado \<Rightarrow> estado" where
  "estampa_C i e s =
     (if metodo s < 3 then
        (let g1 = p1 e / dt s;
             Y1 = condutancia (el_a e) (el_b e) g1 (Yn s);
             tmp = (if var_n s = 0 then p2 e else et s (el_a e) - et s (el_b e));
             g2 = g1 * tmp
         in s\<lparr>Yn := fonte (nv s) (el_b e) (el_a e) g2 Y1, var_g := g2\<rparr>)
      else
        (let g1 = 2 * p1 e / dt s;
             Y1 = condutancia (el_a e) (el_b e) g1 (Yn s);
             e1 = (if primeira s then
                     (if var_n s = 0 then e\<lparr>p3 := p2 e\<rparr>
                      else (let tmp = 2 * p1 e / dta s * (et s (el_a e) - et s (el_b e) - p3 e)
                            in e\<lparr>p3 := et s (el_a e) - et s (el_b e) + tmp / g1\<rparr>))
                   else e)
         in s\<lparr>Yn := fonte (nv s) (el_b e) (el_a e) (g1 * p3 e1) Y1, var_g := g1,
               netlist := (netlist s)(i := e1)\<rparr>))"

definition estampa_L :: "elemento \<Rightarrow> estado \<Rightarrow> estado" where
  "estampa_L e s =
     (let a = el_a e; b = el_b e; x = el_x e;
          tmp = (if var_n s = 0 then p2 e else et s x)
      in if metodo s = 1 then
           (let g1 = p1 e / dt s; g2 = g1 * tmp
            in s\<lparr>Yn := atribuicoes
                   [(a, x, 1), (b, x, - 1), (x, a, - 1), (x, b, 1), (x, x, g1),
                    (x, nv s + 1, g2)] (Yn s),
                  var_g := g2\<rparr>)
         else if metodo s = 2 then
           (let g1 = p1 e / dt s; g2 = g1 * tmp;
                Y1 = atribuicoes [(a, x, 1), (b, x, - 1), (x, x, g1), (x, nv s + 1, g2)] (Yn s)
            in s\<lparr>Yn := (if var_n s > 0 then soma Y1 x (nv s + 1) (et s a - et s b) else Y1),
                  var_g := g2\<rparr>)
         else
           (let g1 = p1 e * 2 / dt s; g2 = g1 * tmp;
                Y1 = atribuicoes
                   [(a, x, 1), (b, x, - 1), (x, a, - 1), (x, b, 1), (x, x, g1),
                    (x, nv s + 1, g2)] (Yn s)
            in s\<lparr>Yn := (if var_n s > 0 then soma Y1 x (nv s + 1) (et s a - et s b) else Y1),
                  var_g := g2\<rparr>))"

text \<open>The "nodal" inductor X.\<close>

definition estampa_X :: "nat \<Rightarrow> elemento \<Rightarrow> estado \<Rightarrow> estado" where
  "estampa_X i e s =
     (let a = el_a e; b = el_b e in
      if metodo s = 1 then
        (let g1 = dt s / p1 e;
             Y1 = condutancia a b g1 (Yn s);
             e1 = (if primeira s then
                     (if var_n s = 0 then e\<lparr>p3 := p2 e\<rparr>
                      else e\<lparr>p3 := p3 e + dta s * (et s a - et s b) / p1 e\<rparr>)
                   else e)
         in s\<lparr>Yn := fonte (nv s) a b (p3 e1) Y1, var_g := g1, netlist := (netlist s)(i := e1)\<rparr>)
      else if metodo s = 2 then
        (let g1 = dt s / p1 e;
             e1 = (if primeira s then
                     (if var_n s = 0 then e\<lparr>p3 := p2 e\<rparr>
                      else e\<lparr>p3 := p3 e + dt s * (et s a - et s b) / p1 e\<rparr>)
                   else e)
         in s\<lparr>Yn := fonte (nv s) a b (p3 e1) (Yn s), var_g := g1,
               netlist := (netlist s)(i := e1)\<rparr>)
      else
        (let g1 = dt s / p1 e / 2;
             Y1 = condutancia a b g1 (Yn s);
             e1 = (if primeira s then
                     (if var_n s = 0 then e\<lparr>p3 := p2 e\<rparr>
                      else e\<lparr>p3 := p3 e + (dta s + dt s) * (et s a - et s b) / p1 e / 2\<rparr>)
                   else e)
         in s\<lparr>Yn := fonte (nv s) a b (p3 e1) Y1, var_g := g1,
               netlist := (netlist s)(i := e1)\<rparr>))"

text \<open>The mutual inductance: \<open>a\<close> and \<open>b\<close> are the netlist lines of the two inductors.\<close>

definition estampa_K :: "elemento \<Rightarrow> estado \<Rightarrow> estado" where
  "estampa_K e s =
     (let g0 = p2 e / dt s;
          g1 = (if metodo s = 3 then g0 * 2 else g0);
          Y1 = soma (Yn s) (el_x e) (el_y e) g1;
          Y2 = soma Y1 (el_y e) (el_x e) g1;
          tmp1 = (if var_n s = 0 then p2 (netlist s (el_b e))
                  else et s (el_x (netlist s (el_b e))));
          Y3 = soma Y2 (el_x e) (nv s + 1) (g1 * tmp1);
          tmp2 = (if var_n s = 0 then p2 (netlist s (el_a e))
                  else et s (el_x (netlist s (el_a e))));
          Y4 = soma Y3 (el_y e) (nv s + 1) (g1 * tmp2)
      in s\<lparr>Yn := Y4, var_g := g1\<rparr>)"

definition estampa_G :: "elemento \<Rightarrow> estado \<Rightarrow> estado" where
  "estampa_G e s =
     s\<lparr>Yn := transcondutancia (el_a e) (el_b e) (el_c e) (el_d e) (p1 e) (Yn s)\<rparr>"

definition estampa_I :: "elemento \<Rightarrow> estado \<Rightarrow> estado" where
  "estampa_I e s =
     (let g1 = valor_fonte e (var_t s) (var_g s)
      in s\<lparr>Yn := fonte (nv s) (el_a e) (el_b e) g1 (Yn s), var_g := g1\<rparr>)"

definition estampa_V :: "elemento \<Rightarrow> estado \<Rightarrow> estado" where
  "estampa_V e s =
     (let a = el_a e; b = el_b e; x = el_x e;
          Y1 = atribuicoes [(a, x, 1), (b, x, - 1), (x, a, 1), (x, b, - 1)] (Yn s);
          g1 = valor_fonte e (var_t s) (var_g s)
      in s\<lparr>Yn := atribui Y1 x (nv s + 1) g1, var_g := g1\<rparr>)"

definition estampa_E :: "elemento \<Rightarrow> estado \<Rightarrow> estado" where
  "estampa_E e s =
     (let a = el_a e; b = el_b e; x = el_x e; g1 = p1 e
      in s\<lparr>Yn := atribuicoes
             [(a, x, 1), (b, x, - 1), (x, a, 1), (x, b, - 1), (x, el_c e, - g1),
              (x, el_d e, g1)] (Yn s),
            var_g := g1\<rparr>)"

definition estampa_F :: "elemento \<Rightarrow> estado \<Rightarrow> estado" where
  "estampa_F e s =
     (let x = el_x e; g1 = p1 e
      in s\<lparr>Yn := atribuicoes
             [(el_a e, x, g1), (el_b e, x, - g1), (el_c e, x, 1), (el_d e, x, - 1),
              (x, el_c e, 1), (x, el_d e, - 1)] (Yn s),
            var_g := g1\<rparr>)"

definition estampa_H :: "elemento \<Rightarrow> estado \<Rightarrow> estado" where
  "estampa_H e s =
     (let x = el_x e; y = el_y e; g1 = p1 e
      in s\<lparr>Yn := atribuicoes
             [(el_a e, x, 1), (el_b e, x, - 1), (el_c e, y, 1), (el_d e, y, - 1),
              (x, el_a e, 1), (x, el_b e, - 1), (y, el_c e, 1), (y, el_d e, - 1),
              (x, y, - g1)] (Yn s),
            var_g := g1\<rparr>)"

definition estampa_O :: "elemento \<Rightarrow> estado \<Rightarrow> estado" where
  "estampa_O e s =
     (let x = el_x e
      in s\<lparr>Yn := atribuicoes
             [(el_a e, x, 1), (el_b e, x, - 1), (x, el_c e, 1), (x, el_d e, - 1)] (Yn s)\<rparr>)"

text \<open>The bipolar transistor: \<open>coletor = a\<close>, \<open>base = b\<close>, \<open>emissor = c\<close>.\<close>

definition estampa_Q :: "elemento \<Rightarrow> estado \<Rightarrow> estado" where
  "estampa_Q e s =
     (let coletor = el_a e; base = el_b e; emissor = el_c e in
      if el_y e = codigo CHR ''N'' then
        (let s1 = diodo base emissor s;
             s2 = s1\<lparr>Yn := fonte (nv s1) coletor base (ALFA * var_id s1) (Yn s1)\<rparr>;
             s3 = s2\<lparr>Yn := transcondutancia coletor base base emissor (ALFA * var_g s2) (Yn s2)\<rparr>;
             s4 = diodo base coletor s3;
             s5 = s4\<lparr>Yn := fonte (nv s4) emissor base (ALFAR * var_id s4) (Yn s4)\<rparr>
         in s5\<lparr>Yn := transcondutancia emissor base base coletor (ALFAR * var_g s5) (Yn s5)\<rparr>)
      else
        (let s1 = diodo emissor base s;
             s2 = s1\<lparr>Yn := fonte (nv s1) base coletor (ALFA * var_id s1) (Yn s1)\<rparr>;
             s3 = s2\<lparr>Yn := transcondutancia coletor base base emissor (ALFA * var_g s2) (Yn s2)\<rparr>;
             s4 = diodo coletor base s3;
             s5 = s4\<lparr>Yn := fonte (nv s4) base emissor (ALFAR * var_id s4) (Yn s4)\<rparr>
         in s5\<lparr>Yn := transcondutancia emissor base base coletor (ALFAR * var_g s5) (Yn s5)\<rparr>))"

text \<open>
  The MOS transistor. The three currents and conductances of the conducting device, from
  \<open>vgs\<close>, \<open>vds\<close> and \<open>Km\<close>: the triple is \<open>(g, gds, id)\<close> before the linearisation.
\<close>

definition mos_modelo :: "real \<Rightarrow> real \<Rightarrow> real \<Rightarrow> real \<times> real \<times> real" where
  "mos_modelo Km vgs vds =
     (if vds > vgs - VT0 then
        (2 * Km * (vgs - VT0) * (1 + LAMBDA * vds),
         Km * (vgs - VT0) * (vgs - VT0) * LAMBDA,
         Km * (vgs - VT0) * (vgs - VT0) * (1 + LAMBDA * vds))
      else
        (Km * 2 * vds * (1 + LAMBDA * vds),
         Km * (2 * (vgs - VT0) - 2 * vds + 4 * LAMBDA * (vgs - VT0) * vds
               - 3 * LAMBDA * vds * vds),
         Km * (2 * (vgs - VT0) * vds - vds * vds) * (1 + LAMBDA * vds)))"

definition estampa_M :: "elemento \<Rightarrow> estado \<Rightarrow> estado" where
  "estampa_M e s =
     (let gate = el_b e; primeiro = (var_n s = 0 \<and> iteracoes s = 0) in
      if el_y e = codigo CHR ''N'' then
        (let drain = (if en s (el_a e) > en s (el_c e) then el_a e else el_c e);
             source = (if en s (el_a e) > en s (el_c e) then el_c e else el_a e);
             vgs = (if primeiro then 2 else en s gate - en s source)
         in if vgs > VT0 then
              (let vds = en s drain - en s source;
                   Km = K0 * p2 e / p1 e;
                   m = mos_modelo Km vgs vds;
                   g1 = fst m; gds = fst (snd m);
                   id1 = snd (snd m) - g1 * vgs - gds * vds;
                   Y1 = transcondutancia drain source gate source g1 (Yn s);
                   Y2 = condutancia drain source gds Y1
               in s\<lparr>Yn := fonte (nv s) drain source id1 Y2, var_g := g1, var_id := id1\<rparr>)
            else s)
      else
        (let drain = (if en s (el_a e) < en s (el_c e) then el_a e else el_c e);
             source = (if en s (el_a e) < en s (el_c e) then el_c e else el_a e);
             vgs = (if primeiro then 2 else - (en s gate - en s source))
         in if vgs > VT0 \<or> primeiro then
              (let vds = - (en s drain - en s source);
                   Km = K0 * p2 e / p1 e;
                   m = mos_modelo Km vgs vds;
                   g1 = fst m; gds = fst (snd m);
                   id1 = - (snd (snd m) - g1 * vgs - gds * vds);
                   Y1 = transcondutancia drain source gate source g1 (Yn s);
                   Y2 = condutancia drain source gds Y1
               in s\<lparr>Yn := fonte (nv s) drain source id1 Y2, var_g := g1, var_id := id1\<rparr>)
            else s))"

text \<open>The chain on the kind of element \<open>i\<close>; any other kind stamps nothing.\<close>

definition estampa :: "nat \<Rightarrow> estado \<Rightarrow> estado" where
  "estampa i s =
     (let e = netlist s i; tipo = tipo_de e in
      if tipo = CHR ''R'' then estampa_R e s
      else if tipo = CHR ''C'' then estampa_C i e s
      else if tipo = CHR ''L'' then estampa_L e s
      else if tipo = CHR ''X'' then estampa_X i e s
      else if tipo = CHR ''K'' then estampa_K e s
      else if tipo = CHR ''G'' then estampa_G e s
      else if tipo = CHR ''I'' then estampa_I e s
      else if tipo = CHR ''V'' then estampa_V e s
      else if tipo = CHR ''E'' then estampa_E e s
      else if tipo = CHR ''F'' then estampa_F e s
      else if tipo = CHR ''H'' then estampa_H e s
      else if tipo = CHR ''O'' then estampa_O e s
      else if tipo = CHR ''D'' then diodo (el_a e) (el_b e) s
      else if tipo = CHR ''Q'' then estampa_Q e s
      else if tipo = CHR ''M'' then estampa_M e s
      else s)"

subsection \<open>One Newton iteration\<close>

text \<open>"Zera sistema": rows and columns 0 to \<open>nv + 1\<close> are cleared.\<close>

definition zera :: "nat \<Rightarrow> sistema \<Rightarrow> sistema" where
  "zera nvv Y = (\<lambda>r c. if r \<le> nvv + 1 \<and> c \<le> nvv + 1 then 0 else Y r c)"

definition monta_estampas :: "estado \<Rightarrow> estado" where
  "monta_estampas s = fold estampa [1..<Suc (ne s)] s"

text \<open>
  The convergence test: \<open>erro = fabs(en[i] - Yn[i][nv+1]); if (erro > erro_max)
  erro_max = erro; en[i] = Yn[i][nv+1]\<close>, for \<open>i\<close> from 1 to \<open>nv\<close>.
\<close>

definition atualiza1 :: "nat \<Rightarrow> estado \<Rightarrow> estado" where
  "atualiza1 i s =
     (let erro = \<bar>en s i - Yn s i (nv s + 1)\<bar>
      in s\<lparr>erro_max := (if erro > erro_max s then erro else erro_max s),
            en := (en s)(i := Yn s i (nv s + 1))\<rparr>)"

definition atualiza :: "estado \<Rightarrow> estado" where
  "atualiza s = fold atualiza1 [1..<Suc (nv s)] s"

text \<open>\<open>en[i] = (double)rand() / RAND_MAX * 10 - 5\<close>, for \<open>i\<close> from 1 to \<open>nv\<close>.\<close>

definition sorteia1 :: "nat \<Rightarrow> estado \<Rightarrow> estado" where
  "sorteia1 i s =
     s\<lparr>en := (en s)(i := real (rand_seq s (rand_pos s)) / real (RAND_MAX s) * 10 - 5),
       rand_pos := rand_pos s + 1\<rparr>"

definition reinicia :: "estado \<Rightarrow> estado" where
  "reinicia s =
     (let s1 = s\<lparr>reinicios := reinicios s + 1\<rparr>;
          s2 = fold sorteia1 [1..<Suc (nv s1)] s1
      in s2\<lparr>randomizacoes := randomizacoes s2 + 1, t_ult_rand := var_t s2, iteracoes := 0\<rparr>)"

text \<open>
  "Testa convergencia": what an iteration does once the system is solved. The restart
  draws every unknown again and clears the count of iterations.
\<close>

definition testa_convergencia :: "estado \<Rightarrow> erro + estado" where
  "testa_convergencia s =
     (let s2 = s\<lparr>erro_max := 0, iteracoes := iteracoes s + 1\<rparr>
      in if iteracoes s2 > MAX_IT then Inl (NaoConvergiu (var_t s2) (reinicios s2))
         else (let s3 = atualiza s2;
                   s4 = (if iteracoes s3 > 20 \<and> reinicios s3 \<le> 10 then reinicia s3
                         else s3)
               in Inr (s4\<lparr>primeira := False\<rparr>)))"

text \<open>The body of the \<open>do ... while\<close>: clear, stamp, solve, test.\<close>

definition iteracao :: "estado \<Rightarrow> erro + estado" where
  "iteracao s =
     (let s1 = monta_estampas (s\<lparr>Yn := zera (nv s) (Yn s)\<rparr>)
      in case resolversistema (nv s1) (var_t s1) (Yn s1) of
           Inl e \<Rightarrow> Inl e
         | Inr Y \<Rightarrow> testa_convergencia (s1\<lparr>Yn := Y\<rparr>))"

subsection \<open>The Newton loop and the loop on time\<close>

text \<open>
  \<open>do { ... } while (nao_linear && erro_max > TOLE)\<close>. The loop ends: an iteration that
  returns has either counted one more iteration below \<open>MAX_IT\<close>, or consumed one of the
  restarts.
\<close>

function newton :: "estado \<Rightarrow> erro + estado" where
  "newton s =
     (case iteracao s of
        Inl e \<Rightarrow> Inl e
      | Inr s' \<Rightarrow> if nao_linear s' \<and> erro_max s' > TOLE then newton s' else Inr s')"
  by pat_completeness auto

text \<open>\<open>for (i = 1; i <= nv; i++) et[i] = en[i]\<close>.\<close>

definition copia1 :: "nat \<Rightarrow> estado \<Rightarrow> estado" where
  "copia1 i s = s\<lparr>et := (et s)(i := en s i)\<rparr>"

text \<open>
  What a time step does after the Newton loop: the statistics, the accepted solution,
  the row of the table, and the step sizes and time of the next step.
\<close>

definition aceita :: "estado \<Rightarrow> estado" where
  "aceita s =
     (let s1 = (if iteracoes s > max_iter s
                then s\<lparr>max_iter := iteracoes s, t_max_iter := var_t s\<rparr> else s);
          s2 = (if reinicios s1 > max_reinicios s1
                then s1\<lparr>max_reinicios := reinicios s1\<rparr> else s1);
          s3 = fold copia1 [1..<Suc (nv s2)] s2;
          s4 = (if int (var_n s3) mod npassos s3 = 0
                then s3\<lparr>arquivo := arquivo s3 @ [(var_t s3, map (et s3) [1..<Suc (nv s3)])]\<rparr>
                else s3);
          s5 = s4\<lparr>dta := dt s4\<rparr>;
          s6 = s5\<lparr>dt := dt1 s5\<rparr>
      in s6\<lparr>var_t := var_t s6 + dt s6\<rparr>)"

text \<open>The body of \<open>for (n = 0; n <= ntotal; n++)\<close>, with the increment of \<open>n\<close>.\<close>

definition passo_tempo :: "estado \<Rightarrow> erro + estado" where
  "passo_tempo s =
     (case newton (s\<lparr>iteracoes := 0, reinicios := 0, primeira := True\<rparr>) of
        Inl e \<Rightarrow> Inl e
      | Inr s1 \<Rightarrow> Inr ((aceita s1)\<lparr>var_n := var_n s1 + 1\<rparr>))"

text \<open>\<open>laco k\<close> runs the next \<open>k\<close> time steps; the program runs \<open>ntotal + 1\<close> of them.\<close>

fun laco :: "nat \<Rightarrow> estado \<Rightarrow> erro + estado" where
  "laco 0 s = Inr s"
| "laco (Suc k) s =
     (case passo_tempo s of
        Inl e \<Rightarrow> Inl e
      | Inr s' \<Rightarrow> laco k s')"

text \<open>
  \<open>npontos\<close>, \<open>npassos\<close>, \<open>ntotal\<close> and \<open>n\<close> are \<open>long int\<close>, taken with 64 bits in two's
  complement: \<open>em_long\<close> is the value that a product leaves in a \<open>long\<close>, what exceeds the
  range wrapping around.
\<close>

definition LONG_BITS :: nat where "LONG_BITS = 64"

definition em_long :: "int \<Rightarrow> int" where
  "em_long z = (z + 2 ^ (LONG_BITS - 1)) mod 2 ^ LONG_BITS - 2 ^ (LONG_BITS - 1)"

text \<open>
  From the test of the parameters to the end of the loop on time. When the product
  wraps to 0 the program divides by zero: \<open>dt1\<close> is then an infinity, and the run goes on
  with values that are no real numbers; \<open>simula\<close> follows it no further.
\<close>

definition prepara :: "estado \<Rightarrow> estado" where
  "prepara s =
     (let nt = em_long (npassos s * npontos s);
          d1 = tempo s / real_of_int nt
      in s\<lparr>ntotal := nt, dt1 := d1,
            en := (\<lambda>i. if i \<le> nv s then 0 else en s i),
            var_t := 0, dt := d1 * inicial,
            max_iter := 0, max_reinicios := 0, randomizacoes := 0,
            var_n := 0\<rparr>)"

definition simula :: "estado \<Rightarrow> erro + estado" where
  "simula s =
     (if tempo s \<le> 0 \<or> npontos s \<le> 0 \<or> npassos s \<le> 0 \<or> npontos s > 100000
      then Inl ParametrosInvalidos
      else (let s1 = prepara s
            in if ntotal s1 = 0 then Inl PassoInfinito
               else laco (nat (ntotal s1 + 1)) s1))"

text \<open>
  The state when the netlist has been read: the globals of a C program start at zero,
  \<open>metodo\<close> at 3. While it reads the netlist the program sets \<open>nao_linear\<close> when it meets
  a diode, a MOS or a bipolar transistor. The netlist, \<open>ne\<close> and \<open>nv\<close> (the currents
  included) come from the reader, which is not modelled.
\<close>

definition elemento_zero :: elemento where
  "elemento_zero =
     \<lparr>nome = [], p1 = 0, p2 = 0, p3 = 0, el_a = 0, el_b = 0, el_c = 0, el_d = 0,
      el_x = 0, el_y = 0\<rparr>"

definition tem_nao_linear :: "(nat \<Rightarrow> elemento) \<Rightarrow> nat \<Rightarrow> bool" where
  "tem_nao_linear nl nel =
     list_ex (\<lambda>i. tipo_de (nl i) = CHR ''D'' \<or> tipo_de (nl i) = CHR ''M''
                  \<or> tipo_de (nl i) = CHR ''Q'') [1..<Suc nel]"

definition carrega ::
  "(nat \<Rightarrow> elemento) \<Rightarrow> nat \<Rightarrow> nat \<Rightarrow> real \<Rightarrow> int \<Rightarrow> int \<Rightarrow> (nat \<Rightarrow> nat) \<Rightarrow> nat \<Rightarrow> estado" where
  "carrega nl nel nvv tmp_total pontos passos rnd rmax =
     \<lparr>netlist = nl, ne = nel, nv = nvv, nao_linear = tem_nao_linear nl nel, metodo = 3,
      Yn = (\<lambda>r c. 0), en = (\<lambda>i. 0), et = (\<lambda>i. 0),
      var_n = 0, var_t = 0, var_g = 0, var_v = 0, var_id = 0,
      dt = 0, dt1 = 0, dta = 0,
      tempo = tmp_total, npontos = pontos, npassos = passos, ntotal = 0,
      iteracoes = 0, reinicios = 0, randomizacoes = 0, primeira = False,
      erro_max = 0, max_iter = 0, max_reinicios = 0, t_max_iter = 0, t_ult_rand = 0,
      rand_seq = rnd, rand_pos = 0, RAND_MAX = rmax, arquivo = []\<rparr>"

definition principal ::
  "(nat \<Rightarrow> elemento) \<Rightarrow> nat \<Rightarrow> nat \<Rightarrow> real \<Rightarrow> int \<Rightarrow> int \<Rightarrow> (nat \<Rightarrow> nat) \<Rightarrow> nat
     \<Rightarrow> erro + estado" where
  "principal nl nel nvv tmp_total pontos passos rnd rmax =
     simula (carrega nl nel nvv tmp_total pontos passos rnd rmax)"

section \<open>The second engine: Mna.cpp and MnaFunctions.cpp\<close>

text \<open>
  The repository holds a second simulator, with its own solver, sources and stamps. Only
  the functions that the properties below are about are modelled.
\<close>

record Element =
  ElementName :: string
  SourceType :: string
  Node_1 :: nat
  Node_2 :: nat
  Control_Node_1 :: nat
  Control_Node_2 :: nat
  Current_Main_Branch :: nat
  Current_Control_Branch :: nat
  ElementValue :: real
  ParametersValue :: "nat \<Rightarrow> real"

datatype mna_erro = SistemaSingularMna | SistemaImpossivel

definition STEPFACTOR :: real where "STEPFACTOR = 10 ^ 9"
definition PI :: real where "PI = 314159265 / 10 ^ 8"
definition NIVEL_CONTINUO :: nat where "NIVEL_CONTINUO = 0"
definition AMPLITUDE :: nat where "AMPLITUDE = 1"
definition FREQUENCIA :: nat where "FREQUENCIA = 2"
definition ATRASO :: nat where "ATRASO = 3"
definition ATENUACAO :: nat where "ATENUACAO = 4"
definition ANGULO :: nat where "ANGULO = 5"
definition NUMERO_DE_CICLOS_SIN :: nat where "NUMERO_DE_CICLOS_SIN = 6"

subsection \<open>GaussJordan\<close>

text \<open>
  The augmented matrix \<open>AB\<close>, zero at first, takes rows and columns 1 to \<open>nv\<close> of \<open>A\<close>
  and \<open>B\<close> as column \<open>nv + 1\<close>.
\<close>

definition monta_AB :: "nat \<Rightarrow> sistema \<Rightarrow> vetor \<Rightarrow> sistema" where
  "monta_AB nvv A B =
     (\<lambda>r c. if 1 \<le> r \<and> r \<le> nvv then
               (if c = nvv + 1 then B r else if 1 \<le> c \<and> c \<le> nvv then A r c else 0)
             else 0)"

text \<open>
  The search of the pivot, the exchange of rows and the body of the loop on \<open>j\<close> are
  those of \<open>resolversistema\<close>, statement for statement. The loop on \<open>j\<close> stops above
  \<open>i\<close>, the threshold is \<open>1e-9\<close>, and the message is the bare "Sistema singular".
\<close>

definition passo_GaussJordan :: "nat \<Rightarrow> nat \<Rightarrow> sistema \<Rightarrow> mna_erro + sistema" where
  "passo_GaussJordan nvv i AB =
     (let att = pivot AB nvv i; a = fst att; tt = snd att; AB1 = troca nvv i a AB
      in if \<bar>tt\<bar> < 1 / 10 ^ 9 then Inl SistemaSingularMna
         else Inr (fold (coluna nvv i tt) (rev [Suc i..<nvv + 2]) AB1))"

fun passos_GaussJordan :: "nat \<Rightarrow> nat list \<Rightarrow> sistema \<Rightarrow> mna_erro + sistema" where
  "passos_GaussJordan nvv [] AB = Inr AB"
| "passos_GaussJordan nvv (i # is) AB =
     (case passo_GaussJordan nvv i AB of
        Inl e \<Rightarrow> Inl e
      | Inr AB' \<Rightarrow> passos_GaussJordan nvv is AB')"

text \<open>The result is the vector \<open>x\<close>, written from 0 to \<open>nv\<close>.\<close>

definition GaussJordan :: "sistema \<Rightarrow> vetor \<Rightarrow> vetor \<Rightarrow> nat \<Rightarrow> mna_erro + vetor" where
  "GaussJordan A B x nvv =
     (case passos_GaussJordan nvv [1..<Suc nvv] (monta_AB nvv A B) of
        Inl e \<Rightarrow> Inl e
      | Inr AB \<Rightarrow> Inr (\<lambda>i. if i \<le> nvv then AB i (nvv + 1) else x i))"

subsection \<open>The step of integration in main\<close>

text \<open>
  The two tests at the head of \<open>while (t <= PSPICE.Tempo_Final)\<close>, on the pair
  \<open>(MaxInternalStep, deltaT)\<close>, and the times at which the loop passes there:
  \<open>t\<close> starts at 0 and gains \<open>Step\<close> at the end of each turn. Before the loop
  \<open>MaxInternalStep\<close> is 1 and \<open>deltaT\<close> is \<open>Step / Internal_Step\<close>.
\<close>

definition escolhe_passo :: "real \<Rightarrow> real \<Rightarrow> real \<Rightarrow> real \<times> real \<Rightarrow> real \<times> real" where
  "escolhe_passo t Step Internal_Step md =
     (let md1 = (if t = 0 then (1, (Step / Internal_Step) / STEPFACTOR) else md)
      in if t > 0 then (Internal_Step, Step / Internal_Step) else md1)"

fun tempo_mna :: "real \<Rightarrow> nat \<Rightarrow> real" where
  "tempo_mna Step 0 = 0"
| "tempo_mna Step (Suc k) = tempo_mna Step k + Step"

fun passo_mna :: "real \<Rightarrow> real \<Rightarrow> nat \<Rightarrow> real \<times> real" where
  "passo_mna Step Internal_Step 0 =
     escolhe_passo 0 Step Internal_Step (1, Step / Internal_Step)"
| "passo_mna Step Internal_Step (Suc k) =
     escolhe_passo (tempo_mna Step (Suc k)) Step Internal_Step
       (passo_mna Step Internal_Step k)"

subsection \<open>IndependentSourceControlByTime, the branch of the SIN source\<close>

text \<open>
  The end of the last cycle, \<open>Delay + (1 / f) * cycles\<close>, is no real number when \<open>f\<close> is
  zero: the quotient of the doubles is then an infinity (the zero is taken as \<open>+0.0\<close>,
  what the reader makes of \<open>0\<close>), its product by \<open>cycles\<close> is an infinity of the sign of
  \<open>cycles\<close>, or no number when \<open>cycles\<close> is zero, and adding \<open>Delay\<close> changes none of
  them. A comparison with what is no number is false.
\<close>

datatype duplo = Finito real | MaisInf | MenosInf | NaoNumero

definition inverso :: "real \<Rightarrow> duplo" where
  "inverso f = (if f = 0 then MaisInf else Finito (1 / f))"

definition vezes :: "duplo \<Rightarrow> real \<Rightarrow> duplo" where
  "vezes d c =
     (case d of
        Finito x \<Rightarrow> Finito (x * c)
      | MaisInf \<Rightarrow> (if c > 0 then MaisInf else if c < 0 then MenosInf else NaoNumero)
      | MenosInf \<Rightarrow> (if c > 0 then MenosInf else if c < 0 then MaisInf else NaoNumero)
      | NaoNumero \<Rightarrow> NaoNumero)"

definition mais :: "real \<Rightarrow> duplo \<Rightarrow> duplo" where
  "mais a d = (case d of Finito x \<Rightarrow> Finito (a + x) | _ \<Rightarrow> d)"

definition maior :: "real \<Rightarrow> duplo \<Rightarrow> bool" where
  "maior t d =
     (case d of Finito x \<Rightarrow> t > x | MaisInf \<Rightarrow> False | MenosInf \<Rightarrow> True
      | NaoNumero \<Rightarrow> False)"

definition fonte_SIN_mna :: "Element \<Rightarrow> real \<Rightarrow> real" where
  "fonte_SIN_mna el t =
     (let Amp = ParametersValue el AMPLITUDE;
          NivelDC = ParametersValue el NIVEL_CONTINUO;
          Delay = ParametersValue el ATRASO;
          f = ParametersValue el FREQUENCIA;
          Ang = ParametersValue el ANGULO;
          alpha = ParametersValue el ATENUACAO
      in if t < Delay
            \<or> maior t (mais Delay (vezes (inverso f) (ParametersValue el NUMERO_DE_CICLOS_SIN)))
         then NivelDC + Amp * sin ((PI * Ang) / 180)
         else NivelDC + Amp * exp (- alpha * (t - Delay))
                * sin (2 * PI * f * (t - Delay) + (PI * Ang) / 180))"

subsection \<open>SystemOfEquationBackward, case 'H'\<close>


section \<open>Lemmas on the two engines\<close>

subsection \<open>The solver in closed form\<close>

lemma atribui_apply: "atribui Y r c v r' c' = (if r' = r \<and> c' = c then v else Y r' c')"
  by (simp add: atribui_def)

lemma pivot_fold_inv:
  "i \<le> m \<Longrightarrow>
   (case fold (busca Y i) [i..<m] (i, 0) of (a, tt) \<Rightarrow>
      i \<le> a \<and> (a < m \<or> a = i) \<and>
      (\<forall>l. i \<le> l \<and> l < m \<longrightarrow> \<bar>Y l i\<bar> \<le> \<bar>tt\<bar>) \<and>
      (\<forall>l. i \<le> l \<and> l < a \<longrightarrow> \<bar>Y l i\<bar> < \<bar>tt\<bar>) \<and>
      (tt = Y a i \<or> (tt = 0 \<and> a = i)))"
proof (induction m)
  case 0
  then show ?case by simp
next
  case (Suc m)
  show ?case
  proof (cases "i \<le> m")
    case False
    with Suc.prems have "i = Suc m" by simp
    then show ?thesis by simp
  next
    case True
    obtain a tt where f: "fold (busca Y i) [i..<m] (i, 0) = (a, tt)"
      by (cases "fold (busca Y i) [i..<m] (i, 0)")
    from Suc.IH [OF True] f have inv:
      "i \<le> a" "a < m \<or> a = i"
      "\<forall>l. i \<le> l \<and> l < m \<longrightarrow> \<bar>Y l i\<bar> \<le> \<bar>tt\<bar>"
      "\<forall>l. i \<le> l \<and> l < a \<longrightarrow> \<bar>Y l i\<bar> < \<bar>tt\<bar>"
      "tt = Y a i \<or> (tt = 0 \<and> a = i)"
      by simp_all
    have step: "fold (busca Y i) [i..<Suc m] (i, 0) = busca Y i m (a, tt)"
      using True f by simp
    show ?thesis
    proof (cases "\<bar>Y m i\<bar> > \<bar>tt\<bar>")
      case gt: True
      then have "busca Y i m (a, tt) = (m, Y m i)" by (simp add: busca_def)
      moreover have "\<forall>l. i \<le> l \<and> l < Suc m \<longrightarrow> \<bar>Y l i\<bar> \<le> \<bar>Y m i\<bar>"
        using inv(3) gt by (metis less_Suc_eq less_le_not_le linorder_le_cases order_trans)
      moreover have "\<forall>l. i \<le> l \<and> l < m \<longrightarrow> \<bar>Y l i\<bar> < \<bar>Y m i\<bar>"
        using inv(3) gt by (meson order_le_less_trans)
      ultimately show ?thesis using step True by simp
    next
      case le: False
      then have "busca Y i m (a, tt) = (a, tt)" by (simp add: busca_def)
      moreover have "\<forall>l. i \<le> l \<and> l < Suc m \<longrightarrow> \<bar>Y l i\<bar> \<le> \<bar>tt\<bar>"
        using inv(3) le by (metis less_Suc_eq not_less)
      ultimately show ?thesis using step inv by auto
    qed
  qed
qed

lemma pivot_spec:
  assumes "i \<le> nvv"
  shows "i \<le> fst (pivot Y nvv i)" "fst (pivot Y nvv i) \<le> nvv"
    "snd (pivot Y nvv i) = Y (fst (pivot Y nvv i)) i"
    "\<forall>l. i \<le> l \<and> l \<le> nvv \<longrightarrow> \<bar>Y l i\<bar> \<le> \<bar>snd (pivot Y nvv i)\<bar>"
    "\<forall>l. i \<le> l \<and> l < fst (pivot Y nvv i) \<longrightarrow> \<bar>Y l i\<bar> < \<bar>snd (pivot Y nvv i)\<bar>"
proof -
  obtain a tt where f: "pivot Y nvv i = (a, tt)" by (cases "pivot Y nvv i")
  have le: "i \<le> Suc nvv" using assms by simp
  from pivot_fold_inv [OF le, of Y] f have inv:
      "i \<le> a" "a < Suc nvv \<or> a = i"
      "\<forall>l. i \<le> l \<and> l < Suc nvv \<longrightarrow> \<bar>Y l i\<bar> \<le> \<bar>tt\<bar>"
      "\<forall>l. i \<le> l \<and> l < a \<longrightarrow> \<bar>Y l i\<bar> < \<bar>tt\<bar>"
      "tt = Y a i \<or> (tt = 0 \<and> a = i)"
    by (simp_all add: pivot_def)
  show "i \<le> fst (pivot Y nvv i)" using f inv by simp
  show "fst (pivot Y nvv i) \<le> nvv" using f inv assms by auto
  show "snd (pivot Y nvv i) = Y (fst (pivot Y nvv i)) i"
  proof (cases "tt = Y a i")
    case True then show ?thesis using f by simp
  next
    case False
    with inv(5) have z: "tt = 0" "a = i" by simp_all
    from inv(3) assms have "\<bar>Y i i\<bar> \<le> \<bar>tt\<bar>" by simp
    with z have "Y i i = 0" by simp
    with z f show ?thesis by simp
  qed
  show "\<forall>l. i \<le> l \<and> l \<le> nvv \<longrightarrow> \<bar>Y l i\<bar> \<le> \<bar>snd (pivot Y nvv i)\<bar>"
    using f inv(3) by (simp add: less_Suc_eq_le)
  show "\<forall>l. i \<le> l \<and> l < fst (pivot Y nvv i) \<longrightarrow> \<bar>Y l i\<bar> < \<bar>snd (pivot Y nvv i)\<bar>"
    using f inv(4) by simp
qed

definition troca_fechada :: "nat \<Rightarrow> nat \<Rightarrow> nat \<Rightarrow> sistema \<Rightarrow> sistema" where
  "troca_fechada m i a Y =
     (\<lambda>r c. if 1 \<le> c \<and> c < m then (if r = i then Y a c else if r = a then Y i c else Y r c)
            else Y r c)"

lemma troca_fold: "fold (troca1 i a) [1..<m] Y = troca_fechada m i a Y"
proof (induction m)
  case 0
  then show ?case by (simp add: troca_fechada_def)
next
  case (Suc m)
  show ?case
  proof (cases "1 \<le> m")
    case False
    then show ?thesis by (auto simp: troca_fechada_def fun_eq_iff)
  next
    case True
    then have "fold (troca1 i a) [1..<Suc m] Y = troca1 i a m (troca_fechada m i a Y)"
      using Suc.IH by simp
    also have "\<dots> = troca_fechada (Suc m) i a Y"
      using True by (auto simp: fun_eq_iff troca1_def troca_fechada_def atribui_apply Let_def less_Suc_eq)
    finally show ?thesis .
  qed
qed


definition elimina_fechada :: "nat \<Rightarrow> nat \<Rightarrow> nat \<Rightarrow> real \<Rightarrow> sistema \<Rightarrow> sistema" where
  "elimina_fechada m i j p Y =
     (\<lambda>r c. if c = j \<and> r \<noteq> i \<and> 1 \<le> r \<and> r < m then Y r j - Y r i * p else Y r c)"

lemma elimina_fold: "fold (elimina1 i j p) [1..<m] Y = elimina_fechada m i j p Y"
proof (induction m)
  case 0
  then show ?case by (auto simp: elimina_fechada_def fun_eq_iff)
next
  case (Suc m)
  show ?case
  proof (cases "1 \<le> m")
    case False
    then show ?thesis by (auto simp: elimina_fechada_def fun_eq_iff)
  next
    case True
    then have "fold (elimina1 i j p) [1..<Suc m] Y = elimina1 i j p m (elimina_fechada m i j p Y)"
      using Suc.IH by simp
    also have "\<dots> = elimina_fechada (Suc m) i j p Y"
      using True by (auto simp: fun_eq_iff elimina1_def elimina_fechada_def atribui_apply less_Suc_eq)
    finally show ?thesis .
  qed
qed

definition coluna_fechada :: "nat \<Rightarrow> nat \<Rightarrow> real \<Rightarrow> nat \<Rightarrow> sistema \<Rightarrow> sistema" where
  "coluna_fechada nvv i tt j Y =
     (\<lambda>r c. if c = j then
               (if r = i then Y i j / tt
                else if 1 \<le> r \<and> r \<le> nvv then Y r j - Y r i * (Y i j / tt)
                else Y r j)
             else Y r c)"

lemma coluna_eq: "coluna nvv i tt j Y = coluna_fechada nvv i tt j Y"
  unfolding coluna_def Let_def elimina_fold
  by (auto simp: elimina_fechada_def coluna_fechada_def atribui_apply fun_eq_iff less_Suc_eq_le)

definition normaliza_fechada :: "nat \<Rightarrow> nat \<Rightarrow> nat \<Rightarrow> real \<Rightarrow> sistema \<Rightarrow> sistema" where
  "normaliza_fechada k nvv i tt Y =
     (\<lambda>r c. if k \<le> c \<and> c \<le> nvv + 1 then
               (if r = i then Y i c / tt
                else if 1 \<le> r \<and> r \<le> nvv then
                  (if i < c then Y r c - Y r i * (Y i c / tt)
                   else if c = i then Y r i - Y r i * (Y i i / tt)
                   else Y r c - (Y r i - Y r i * (Y i i / tt)) * (Y i c / tt))
                else Y r c)
             else Y r c)"

lemma normaliza_fold:
  assumes "k \<le> nvv + 2" "i \<le> nvv"
  shows "fold (coluna nvv i tt) (rev [k..<nvv + 2]) Y = normaliza_fechada k nvv i tt Y"
  using assms(1)
proof (induction k rule: inc_induct)
  case base
  show ?case by (auto simp: normaliza_fechada_def fun_eq_iff)
next
  case (step k)
  have "fold (coluna nvv i tt) (rev [k..<nvv + 2]) Y
        = coluna nvv i tt k (fold (coluna nvv i tt) (rev [Suc k..<nvv + 2]) Y)"
  proof -
    have "[k..<nvv + 2] = k # [Suc k..<nvv + 2]"
      using step.hyps by (simp add: upt_conv_Cons del: upt_Suc)
    then show ?thesis by (simp only: rev.simps fold_append fold_simps comp_apply)
  qed
  also have "\<dots> = coluna_fechada nvv i tt k (normaliza_fechada (Suc k) nvv i tt Y)"
    unfolding step.IH coluna_eq ..
  also have "\<dots> = normaliza_fechada k nvv i tt Y"
    using step.hyps assms(2)
    by (auto simp: coluna_fechada_def normaliza_fechada_def fun_eq_iff)
  finally show ?case .
qed

lemma normaliza_eq:
  "i \<le> nvv \<Longrightarrow> normaliza nvv i tt Y = normaliza_fechada 1 nvv i tt Y"
  unfolding normaliza_def by (rule normaliza_fold) simp_all

subsection \<open>What the stamps and the convergence test leave alone\<close>

definition apaga :: "estado \<Rightarrow> estado" where
  "apaga s = s\<lparr>Yn := (\<lambda>r c. 0), netlist := (\<lambda>i. elemento_zero), var_g := 0, var_v := 0,
               var_id := 0\<rparr>"

lemma apaga_diodo: "apaga (diodo a b s) = apaga s"
  by (simp add: apaga_def diodo_def Let_def)

lemma apaga_Yn: "apaga (s\<lparr>Yn := Y\<rparr>) = apaga s"
  by (simp add: apaga_def)

lemma apaga_simples:
  "apaga (estampa_R e s) = apaga s"
  "apaga (estampa_C i e s) = apaga s"
  "apaga (estampa_L e s) = apaga s"
  "apaga (estampa_X i e s) = apaga s"
  "apaga (estampa_K e s) = apaga s"
  "apaga (estampa_G e s) = apaga s"
  "apaga (estampa_I e s) = apaga s"
  "apaga (estampa_V e s) = apaga s"
  "apaga (estampa_E e s) = apaga s"
  "apaga (estampa_F e s) = apaga s"
  "apaga (estampa_H e s) = apaga s"
  "apaga (estampa_O e s) = apaga s"
  "apaga (estampa_M e s) = apaga s"
  by (simp_all add: estampa_R_def estampa_C_def estampa_L_def estampa_X_def estampa_K_def
      estampa_G_def estampa_I_def estampa_V_def estampa_E_def estampa_F_def estampa_H_def
      estampa_O_def estampa_M_def Let_def apaga_def)

lemma apaga_Q: "apaga (estampa_Q e s) = apaga s"
  by (simp add: estampa_Q_def Let_def apaga_diodo apaga_Yn)

lemma apaga_estampa: "apaga (estampa i s) = apaga s"
  by (simp add: estampa_def Let_def apaga_simples apaga_Q apaga_diodo)

lemma apaga_fold: "apaga (fold estampa xs s) = apaga s"
  by (induction xs arbitrary: s) (simp_all add: apaga_estampa)

lemma apaga_monta: "apaga (monta_estampas s) = apaga s"
  by (simp add: monta_estampas_def apaga_fold del: upt_Suc)

lemma apaga_campos:
  assumes "apaga s' = apaga s"
  shows "nv s' = nv s" "ne s' = ne s" "iteracoes s' = iteracoes s" "reinicios s' = reinicios s"
    "en s' = en s" "et s' = et s" "var_n s' = var_n s" "var_t s' = var_t s" "nao_linear s' = nao_linear s"
proof -
  have a: "\<And>f. f (apaga s') = f (apaga s)" using assms by simp
  show "nv s' = nv s" using a [of nv] by (simp add: apaga_def)
  show "ne s' = ne s" using a [of ne] by (simp add: apaga_def)
  show "iteracoes s' = iteracoes s" using a [of iteracoes] by (simp add: apaga_def)
  show "reinicios s' = reinicios s" using a [of reinicios] by (simp add: apaga_def)
  show "en s' = en s" using a [of en] by (simp add: apaga_def)
  show "et s' = et s" using a [of et] by (simp add: apaga_def)
  show "var_n s' = var_n s" using a [of var_n] by (simp add: apaga_def)
  show "var_t s' = var_t s" using a [of var_t] by (simp add: apaga_def)
  show "nao_linear s' = nao_linear s" using a [of nao_linear] by (simp add: apaga_def)
qed


definition apaga_en :: "estado \<Rightarrow> estado" where
  "apaga_en s = s\<lparr>en := (\<lambda>i. 0), erro_max := 0, rand_pos := 0\<rparr>"

lemma apaga_en_atualiza1: "apaga_en (atualiza1 i s) = apaga_en s"
  by (simp add: apaga_en_def atualiza1_def Let_def)

lemma apaga_en_sorteia1: "apaga_en (sorteia1 i s) = apaga_en s"
  by (simp add: apaga_en_def sorteia1_def)

lemma apaga_en_fold_atualiza: "apaga_en (fold atualiza1 xs s) = apaga_en s"
  by (induction xs arbitrary: s) (simp_all add: apaga_en_atualiza1)

lemma apaga_en_fold_sorteia: "apaga_en (fold sorteia1 xs s) = apaga_en s"
  by (induction xs arbitrary: s) (simp_all add: apaga_en_sorteia1)

lemma apaga_en_campos:
  assumes "apaga_en s' = apaga_en s"
  shows "nv s' = nv s" "iteracoes s' = iteracoes s" "reinicios s' = reinicios s"
    "var_n s' = var_n s" "var_t s' = var_t s" "nao_linear s' = nao_linear s"
proof -
  have a: "\<And>f. f (apaga_en s') = f (apaga_en s)" using assms by simp
  show "nv s' = nv s" using a [of nv] by (simp add: apaga_en_def)
  show "iteracoes s' = iteracoes s" using a [of iteracoes] by (simp add: apaga_en_def)
  show "reinicios s' = reinicios s" using a [of reinicios] by (simp add: apaga_en_def)
  show "var_n s' = var_n s" using a [of var_n] by (simp add: apaga_en_def)
  show "var_t s' = var_t s" using a [of var_t] by (simp add: apaga_en_def)
  show "nao_linear s' = nao_linear s" using a [of nao_linear] by (simp add: apaga_en_def)
qed

lemma atualiza_campos:
  "iteracoes (atualiza s) = iteracoes s" "reinicios (atualiza s) = reinicios s"
  by (simp_all add: atualiza_def apaga_en_campos [OF apaga_en_fold_atualiza] del: upt_Suc)

lemma reinicia_campos:
  "iteracoes (reinicia s) = 0" "reinicios (reinicia s) = reinicios s + 1"
  by (simp_all add: reinicia_def Let_def apaga_en_campos [OF apaga_en_fold_sorteia] del: upt_Suc)

lemma testa_contadores:
  assumes "testa_convergencia s = Inr s'"
  shows "iteracoes s + 1 \<le> MAX_IT"
    and "iteracoes s + 1 > 20 \<and> reinicios s \<le> 10 \<Longrightarrow>
           iteracoes s' = 0 \<and> reinicios s' = reinicios s + 1"
    and "\<not> (iteracoes s + 1 > 20 \<and> reinicios s \<le> 10) \<Longrightarrow>
           iteracoes s' = iteracoes s + 1 \<and> reinicios s' = reinicios s"
  using assms
  by (auto simp: testa_convergencia_def Let_def atualiza_campos reinicia_campos
        split: if_splits)

lemma iteracao_contadores:
  assumes "iteracao s = Inr s'"
  shows "iteracoes s + 1 \<le> MAX_IT"
    and "iteracoes s + 1 > 20 \<and> reinicios s \<le> 10 \<Longrightarrow>
           iteracoes s' = 0 \<and> reinicios s' = reinicios s + 1"
    and "\<not> (iteracoes s + 1 > 20 \<and> reinicios s \<le> 10) \<Longrightarrow>
           iteracoes s' = iteracoes s + 1 \<and> reinicios s' = reinicios s"
proof -
  define s1 where "s1 = monta_estampas (s\<lparr>Yn := zera (nv s) (Yn s)\<rparr>)"
  have ap: "apaga s1 = apaga s"
    by (simp add: s1_def apaga_monta apaga_Yn)
  from assms obtain Y where Y: "testa_convergencia (s1\<lparr>Yn := Y\<rparr>) = Inr s'"
    by (cases "resolversistema (nv s1) (var_t s1) (Yn s1)")
       (simp_all add: iteracao_def Let_def s1_def)
  have it: "iteracoes (s1\<lparr>Yn := Y\<rparr>) = iteracoes s"
    and re: "reinicios (s1\<lparr>Yn := Y\<rparr>) = reinicios s"
    using apaga_campos [OF ap] by simp_all
  show "iteracoes s + 1 \<le> MAX_IT"
    using testa_contadores(1) [OF Y] it by simp
  show "iteracoes s + 1 > 20 \<and> reinicios s \<le> 10 \<Longrightarrow>
           iteracoes s' = 0 \<and> reinicios s' = reinicios s + 1"
    using testa_contadores(2) [OF Y] it re by simp
  show "\<not> (iteracoes s + 1 > 20 \<and> reinicios s \<le> 10) \<Longrightarrow>
           iteracoes s' = iteracoes s + 1 \<and> reinicios s' = reinicios s"
    using testa_contadores(3) [OF Y] it re by simp
qed

termination newton
proof (relation "measure (\<lambda>s. (11 - reinicios s) * 102 + (101 - iteracoes s))")
  show "wf (measure (\<lambda>s. (11 - reinicios s) * 102 + (101 - iteracoes s)))" by simp
next
  fix s s'
  assume a: "iteracao s = Inr s'"
  have le: "iteracoes s + 1 \<le> 100"
    using iteracao_contadores(1) [OF a] by (simp add: MAX_IT_def)
  show "(s', s) \<in> measure (\<lambda>s. (11 - reinicios s) * 102 + (101 - iteracoes s))"
  proof (cases "iteracoes s + 1 > 20 \<and> reinicios s \<le> 10")
    case True
    then have "11 - reinicios s = Suc (10 - reinicios s)" by arith
    with iteracao_contadores(2) [OF a True] le show ?thesis by simp
  next
    case False
    from iteracao_contadores(3) [OF a False] le show ?thesis by simp
  qed
qed

text \<open>The equation of \<open>newton\<close> unfolds itself: it is used at a named state only.\<close>

declare newton.simps [simp del]


lemma troca_spec:
  "troca nvv i a Y =
     (\<lambda>r c. if i \<noteq> a \<and> 1 \<le> c \<and> c \<le> nvv + 1
            then (if r = i then Y a c else if r = a then Y i c else Y r c)
            else Y r c)"
  unfolding troca_def troca_fold
  by (auto simp: troca_fechada_def fun_eq_iff)

lemma GaussJordan_fold:
  "i \<le> nvv \<Longrightarrow>
   fold (coluna nvv i tt) (rev [Suc i..<nvv + 2]) Y = normaliza_fechada (Suc i) nvv i tt Y"
  by (rule normaliza_fold) simp_all

text \<open>The fields that an iteration may change, erased; the others last through the Newton loop.\<close>

definition apaga_iter :: "estado \<Rightarrow> estado" where
  "apaga_iter s =
     s\<lparr>Yn := (\<lambda>r c. 0), netlist := (\<lambda>i. elemento_zero), var_g := 0, var_v := 0, var_id := 0,
       en := (\<lambda>i. 0), erro_max := 0, rand_pos := 0, iteracoes := 0, reinicios := 0,
       randomizacoes := 0, t_ult_rand := 0, primeira := False\<rparr>"

lemma apaga_iter_apaga: "apaga_iter (apaga s) = apaga_iter s"
  by (simp add: apaga_iter_def apaga_def)

lemma apaga_iter_apaga_en: "apaga_iter (apaga_en s) = apaga_iter s"
  by (simp add: apaga_iter_def apaga_en_def)

lemma apaga_iter_de_apaga: "apaga s' = apaga s \<Longrightarrow> apaga_iter s' = apaga_iter s"
  by (metis apaga_iter_apaga)

lemma apaga_iter_de_apaga_en: "apaga_en s' = apaga_en s \<Longrightarrow> apaga_iter s' = apaga_iter s"
  by (metis apaga_iter_apaga_en)

lemma apaga_iter_atualiza: "apaga_iter (atualiza s) = apaga_iter s"
  unfolding atualiza_def by (rule apaga_iter_de_apaga_en) (rule apaga_en_fold_atualiza)

lemma apaga_iter_reinicia: "apaga_iter (reinicia s) = apaga_iter s"
proof -
  have "apaga_iter (fold sorteia1 [1..<Suc (nv s)] (s\<lparr>reinicios := reinicios s + 1\<rparr>))
        = apaga_iter (s\<lparr>reinicios := reinicios s + 1\<rparr>)"
    by (rule apaga_iter_de_apaga_en) (rule apaga_en_fold_sorteia)
  then show ?thesis
    by (simp add: reinicia_def Let_def apaga_iter_def del: upt_Suc)
qed

lemma apaga_iter_testa:
  assumes "testa_convergencia s = Inr s'"
  shows "apaga_iter s' = apaga_iter s"
proof -
  define s2 where "s2 = s\<lparr>erro_max := 0, iteracoes := iteracoes s + 1\<rparr>"
  have a: "apaga_iter s2 = apaga_iter s" by (simp add: s2_def apaga_iter_def)
  have p: "\<And>u. apaga_iter (u\<lparr>primeira := False\<rparr>) = apaga_iter u" by (simp add: apaga_iter_def)
  from assms have "s' = (if iteracoes (atualiza s2) > 20 \<and> reinicios (atualiza s2) \<le> 10
                          then reinicia (atualiza s2) else atualiza s2)\<lparr>primeira := False\<rparr>"
    by (auto simp: testa_convergencia_def Let_def s2_def split: if_splits)
  then show ?thesis
    by (simp add: p apaga_iter_reinicia apaga_iter_atualiza a)
qed

lemma apaga_iter_iteracao:
  assumes "iteracao s = Inr s'"
  shows "apaga_iter s' = apaga_iter s"
proof -
  define s1 where "s1 = monta_estampas (s\<lparr>Yn := zera (nv s) (Yn s)\<rparr>)"
  have ap: "apaga s1 = apaga s"
    by (simp add: s1_def apaga_monta apaga_Yn)
  from assms obtain Y where Y: "testa_convergencia (s1\<lparr>Yn := Y\<rparr>) = Inr s'"
    by (cases "resolversistema (nv s1) (var_t s1) (Yn s1)")
       (simp_all add: iteracao_def Let_def s1_def)
  have "apaga_iter s' = apaga_iter (s1\<lparr>Yn := Y\<rparr>)" by (rule apaga_iter_testa [OF Y])
  also have "\<dots> = apaga_iter s1" by (simp add: apaga_iter_def)
  also have "\<dots> = apaga_iter s" by (rule apaga_iter_de_apaga [OF ap])
  finally show ?thesis .
qed

lemma newton_inv:
  assumes step: "\<And>s s'. P s \<Longrightarrow> iteracao s = Inr s' \<Longrightarrow> P s'"
  shows "P s \<Longrightarrow> newton s = Inr s' \<Longrightarrow> P s'"
proof (induction s rule: newton.induct)
  case (1 s)
  from "1.prems"(2) obtain s1 where s1: "iteracao s = Inr s1"
    by (cases "iteracao s") (simp_all add: newton.simps [of s])
  have P1: "P s1" using step [OF "1.prems"(1) s1] .
  show ?case
  proof (cases "nao_linear s1 \<and> erro_max s1 > TOLE")
    case True
    then have "newton s = newton s1" using s1 by (simp add: newton.simps [of s])
    with "1.prems"(2) have "newton s1 = Inr s'" by simp
    from "1.IH" [OF s1 True P1 this] show ?thesis .
  next
    case False
    then have "newton s = Inr s1" using s1 by (auto simp: newton.simps [of s])
    with "1.prems"(2) P1 show ?thesis by simp
  qed
qed

lemma apaga_iter_newton:
  assumes "newton s = Inr s'"
  shows "apaga_iter s' = apaga_iter s"
  using newton_inv [where P = "\<lambda>u. apaga_iter u = apaga_iter s", OF _ _ assms]
  by (simp add: apaga_iter_iteracao)

lemma apaga_iter_campos:
  assumes "apaga_iter s' = apaga_iter s"
  shows "nv s' = nv s" "ne s' = ne s" "nao_linear s' = nao_linear s" "metodo s' = metodo s"
    "et s' = et s" "var_n s' = var_n s" "var_t s' = var_t s"
    "dt s' = dt s" "dt1 s' = dt1 s" "dta s' = dta s"
    "tempo s' = tempo s" "npontos s' = npontos s" "npassos s' = npassos s" "ntotal s' = ntotal s"
    "max_iter s' = max_iter s" "max_reinicios s' = max_reinicios s"
    "rand_seq s' = rand_seq s" "RAND_MAX s' = RAND_MAX s" "arquivo s' = arquivo s"
proof -
  have a: "\<And>f. f (apaga_iter s') = f (apaga_iter s)" using assms by simp
  show "nv s' = nv s" using a [of nv] by (simp add: apaga_iter_def)
  show "ne s' = ne s" using a [of ne] by (simp add: apaga_iter_def)
  show "nao_linear s' = nao_linear s" using a [of nao_linear] by (simp add: apaga_iter_def)
  show "metodo s' = metodo s" using a [of metodo] by (simp add: apaga_iter_def)
  show "et s' = et s" using a [of et] by (simp add: apaga_iter_def)
  show "var_n s' = var_n s" using a [of var_n] by (simp add: apaga_iter_def)
  show "var_t s' = var_t s" using a [of var_t] by (simp add: apaga_iter_def)
  show "dt s' = dt s" using a [of dt] by (simp add: apaga_iter_def)
  show "dt1 s' = dt1 s" using a [of dt1] by (simp add: apaga_iter_def)
  show "dta s' = dta s" using a [of dta] by (simp add: apaga_iter_def)
  show "tempo s' = tempo s" using a [of tempo] by (simp add: apaga_iter_def)
  show "npontos s' = npontos s" using a [of npontos] by (simp add: apaga_iter_def)
  show "npassos s' = npassos s" using a [of npassos] by (simp add: apaga_iter_def)
  show "ntotal s' = ntotal s" using a [of ntotal] by (simp add: apaga_iter_def)
  show "max_iter s' = max_iter s" using a [of max_iter] by (simp add: apaga_iter_def)
  show "max_reinicios s' = max_reinicios s" using a [of max_reinicios] by (simp add: apaga_iter_def)
  show "rand_seq s' = rand_seq s" using a [of rand_seq] by (simp add: apaga_iter_def)
  show "RAND_MAX s' = RAND_MAX s" using a [of RAND_MAX] by (simp add: apaga_iter_def)
  show "arquivo s' = arquivo s" using a [of arquivo] by (simp add: apaga_iter_def)
qed

lemma newton_linear:
  assumes "\<not> nao_linear s"
  shows "newton s = iteracao s"
proof (cases "iteracao s")
  case (Inl e)
  then show ?thesis by (simp add: newton.simps [of s])
next
  case (Inr s1)
  have "nao_linear s1 = nao_linear s"
    using apaga_iter_campos(3) [OF apaga_iter_iteracao [OF Inr]] .
  with assms Inr show ?thesis by (simp add: newton.simps [of s])
qed

text \<open>The loops on the unknowns, in closed form.\<close>

lemma fold_atualiza_en:
  "en (fold atualiza1 [1..<m] s) = (\<lambda>i. if 1 \<le> i \<and> i < m then Yn s i (nv s + 1) else en s i)
   \<and> Yn (fold atualiza1 [1..<m] s) = Yn s \<and> nv (fold atualiza1 [1..<m] s) = nv s"
proof (induction m)
  case 0
  then show ?case by (auto simp: fun_eq_iff)
next
  case (Suc m)
  show ?case
  proof (cases "1 \<le> m")
    case False
    then show ?thesis by (auto simp: fun_eq_iff)
  next
    case True
    then have "fold atualiza1 [1..<Suc m] s = atualiza1 m (fold atualiza1 [1..<m] s)" by simp
    then show ?thesis using Suc.IH True
      by (auto simp: atualiza1_def Let_def fun_eq_iff less_Suc_eq)
  qed
qed

lemma atualiza_en:
  "en (atualiza s) = (\<lambda>i. if 1 \<le> i \<and> i \<le> nv s then Yn s i (nv s + 1) else en s i)"
  unfolding atualiza_def using fold_atualiza_en [of "Suc (nv s)" s]
  by (auto simp: fun_eq_iff less_Suc_eq_le simp del: upt_Suc)

lemma fold_sorteia:
  "en (fold sorteia1 [1..<m] s)
     = (\<lambda>i. if 1 \<le> i \<and> i < m
            then real (rand_seq s (rand_pos s + (i - 1))) / real (RAND_MAX s) * 10 - 5
            else en s i)
   \<and> rand_pos (fold sorteia1 [1..<m] s) = rand_pos s + (m - 1)
   \<and> rand_seq (fold sorteia1 [1..<m] s) = rand_seq s
   \<and> RAND_MAX (fold sorteia1 [1..<m] s) = RAND_MAX s"
proof (induction m)
  case 0
  then show ?case by (auto simp: fun_eq_iff)
next
  case (Suc m)
  show ?case
  proof (cases "1 \<le> m")
    case False
    then show ?thesis by (auto simp: fun_eq_iff)
  next
    case True
    then have "fold sorteia1 [1..<Suc m] s = sorteia1 m (fold sorteia1 [1..<m] s)" by simp
    then show ?thesis using Suc.IH True
      by (auto simp: sorteia1_def fun_eq_iff less_Suc_eq)
  qed
qed

lemma reinicia_en:
  "en (reinicia s)
     = (\<lambda>i. if 1 \<le> i \<and> i \<le> nv s
            then real (rand_seq s (rand_pos s + (i - 1))) / real (RAND_MAX s) * 10 - 5
            else en s i)"
  "rand_pos (reinicia s) = rand_pos s + nv s"
  using fold_sorteia [of "Suc (nv s)" "s\<lparr>reinicios := reinicios s + 1\<rparr>"]
  by (auto simp: reinicia_def Let_def fun_eq_iff less_Suc_eq_le simp del: upt_Suc)

lemma fold_copia:
  "fold copia1 [1..<m] s = s\<lparr>et := (\<lambda>i. if 1 \<le> i \<and> i < m then en s i else et s i)\<rparr>"
proof (induction m)
  case 0
  then show ?case by simp
next
  case (Suc m)
  show ?case
  proof (cases "1 \<le> m")
    case False
    then have "(\<lambda>i. if 1 \<le> i \<and> i < Suc m then en s i else et s i) = et s"
      by (auto simp: fun_eq_iff)
    then show ?thesis using False by simp
  next
    case True
    then have "fold copia1 [1..<Suc m] s = copia1 m (fold copia1 [1..<m] s)" by simp
    then show ?thesis using Suc.IH True
      by (auto simp: copia1_def fun_eq_iff less_Suc_eq)
  qed
qed

lemma aceita_campos:
  "var_n (aceita s) = var_n s" "dt (aceita s) = dt1 s" "dta (aceita s) = dt s"
  "dt1 (aceita s) = dt1 s" "var_t (aceita s) = var_t s + dt1 s"
  "max_iter (aceita s) = max (iteracoes s) (max_iter s)"
  "max_reinicios (aceita s) = max (reinicios s) (max_reinicios s)"
  "nao_linear (aceita s) = nao_linear s" "randomizacoes (aceita s) = randomizacoes s"
  "en (aceita s) = en s" "nv (aceita s) = nv s" "ne (aceita s) = ne s"
  "metodo (aceita s) = metodo s" "netlist (aceita s) = netlist s"
  "et (aceita s) = (\<lambda>i. if 1 \<le> i \<and> i \<le> nv s then en s i else et s i)"
  "tempo (aceita s) = tempo s" "npontos (aceita s) = npontos s" "npassos (aceita s) = npassos s"
  "ntotal (aceita s) = ntotal s"
  unfolding aceita_def Let_def fold_copia
  by (auto simp: fun_eq_iff less_Suc_eq_le)

lemma atualiza_resto:
  "atualiza s = s\<lparr>en := en (atualiza s), erro_max := erro_max (atualiza s)\<rparr>"
proof -
  have "\<And>u. fold atualiza1 xs u
          = u\<lparr>en := en (fold atualiza1 xs u), erro_max := erro_max (fold atualiza1 xs u)\<rparr>" for xs
  proof (induction xs)
    case Nil
    show ?case by simp
  next
    case (Cons x xs)
    show ?case
      by (subst (1 2 3) fold_simps(2)) (subst Cons.IH, simp add: atualiza1_def Let_def)
  qed
  then show ?thesis unfolding atualiza_def .
qed

lemma atualiza_outros:
  "rand_pos (atualiza s) = rand_pos s" "rand_seq (atualiza s) = rand_seq s"
  "RAND_MAX (atualiza s) = RAND_MAX s" "Yn (atualiza s) = Yn s" "nv (atualiza s) = nv s"
  "randomizacoes (atualiza s) = randomizacoes s"
  by (subst atualiza_resto, simp)+

lemma fold_sorteia_resto:
  "fold sorteia1 xs u
     = u\<lparr>en := en (fold sorteia1 xs u), rand_pos := rand_pos (fold sorteia1 xs u)\<rparr>"
proof (induction xs arbitrary: u)
  case Nil
  show ?case by simp
next
  case (Cons x xs)
  show ?case
    by (subst (1 2 3) fold_simps(2)) (subst Cons.IH, simp add: sorteia1_def)
qed

lemma reinicia_Yn: "Yn (reinicia s) = Yn s"
proof -
  have "Yn (fold sorteia1 [1..<Suc (nv s)] (s\<lparr>reinicios := reinicios s + 1\<rparr>)) = Yn s"
    by (subst fold_sorteia_resto) simp
  then show ?thesis by (simp add: reinicia_def Let_def del: upt_Suc)
qed

lemma apaga_outros:
  assumes "apaga s' = apaga s"
  shows "rand_pos s' = rand_pos s" "rand_seq s' = rand_seq s" "RAND_MAX s' = RAND_MAX s"
    "randomizacoes s' = randomizacoes s" "primeira s' = primeira s" "metodo s' = metodo s"
    "dt s' = dt s" "dta s' = dta s"
proof -
  have a: "\<And>f. f (apaga s') = f (apaga s)" using assms by simp
  show "rand_pos s' = rand_pos s" using a [of rand_pos] by (simp add: apaga_def)
  show "rand_seq s' = rand_seq s" using a [of rand_seq] by (simp add: apaga_def)
  show "RAND_MAX s' = RAND_MAX s" using a [of RAND_MAX] by (simp add: apaga_def)
  show "randomizacoes s' = randomizacoes s" using a [of randomizacoes] by (simp add: apaga_def)
  show "primeira s' = primeira s" using a [of primeira] by (simp add: apaga_def)
  show "metodo s' = metodo s" using a [of metodo] by (simp add: apaga_def)
  show "dt s' = dt s" using a [of dt] by (simp add: apaga_def)
  show "dta s' = dta s" using a [of dta] by (simp add: apaga_def)
qed

lemma sorteio_limites:
  assumes "r \<le> m" "0 < m"
  shows "- 5 \<le> real r / real m * 10 - 5" "real r / real m * 10 - 5 \<le> 5"
proof -
  define q where "q = real r / real m"
  have "0 \<le> q" by (simp add: q_def)
  then show "- 5 \<le> real r / real m * 10 - 5" unfolding q_def [symmetric] by linarith
  have "q \<le> 1" using assms by (simp add: q_def divide_le_eq)
  then show "real r / real m * 10 - 5 \<le> 5" unfolding q_def [symmetric] by linarith
qed

lemma testa_reinicio:
  assumes "testa_convergencia s = Inr s'"
  shows "20 < iteracoes s + 1 \<and> reinicios s \<le> 10 \<Longrightarrow>
           iteracoes s' = 0 \<and> reinicios s' = reinicios s + 1
           \<and> rand_pos s' = rand_pos s + nv s
           \<and> (\<forall>i. 1 \<le> i \<and> i \<le> nv s \<longrightarrow>
                 en s' i = real (rand_seq s (rand_pos s + (i - 1))) / real (RAND_MAX s) * 10 - 5)"
    and "\<not> (20 < iteracoes s + 1 \<and> reinicios s \<le> 10) \<Longrightarrow>
           iteracoes s' = iteracoes s + 1 \<and> reinicios s' = reinicios s
           \<and> rand_pos s' = rand_pos s \<and> randomizacoes s' = randomizacoes s
           \<and> (\<forall>i. 1 \<le> i \<and> i \<le> nv s \<longrightarrow> en s' i = Yn s i (nv s + 1))
           \<and> (\<forall>i. \<not> (1 \<le> i \<and> i \<le> nv s) \<longrightarrow> en s' i = en s i)"
    and "Yn s' = Yn s" and "\<not> primeira s'" and "en s' 0 = en s 0"
proof -
  define s2 where "s2 = s\<lparr>erro_max := 0, iteracoes := iteracoes s + 1\<rparr>"
  define s3 where "s3 = atualiza s2"
  have f3: "iteracoes s3 = iteracoes s + 1" "reinicios s3 = reinicios s"
    "rand_pos s3 = rand_pos s" "rand_seq s3 = rand_seq s" "RAND_MAX s3 = RAND_MAX s"
    "nv s3 = nv s" "Yn s3 = Yn s" "randomizacoes s3 = randomizacoes s"
    "en s3 = (\<lambda>i. if 1 \<le> i \<and> i \<le> nv s then Yn s i (nv s + 1) else en s i)"
    by (simp_all add: s3_def atualiza_campos atualiza_outros atualiza_en s2_def cong: if_cong)
  have tc: "testa_convergencia s =
      (if iteracoes s2 > MAX_IT then Inl (NaoConvergiu (var_t s2) (reinicios s2))
       else Inr ((if iteracoes s3 > 20 \<and> reinicios s3 \<le> 10 then reinicia s3 else s3)
                   \<lparr>primeira := False\<rparr>))"
    unfolding testa_convergencia_def Let_def s2_def s3_def ..
  from assms have s': "s' = (if 20 < iteracoes s + 1 \<and> reinicios s \<le> 10
                            then reinicia s3 else s3)\<lparr>primeira := False\<rparr>"
    unfolding tc by (auto simp: f3 split: if_splits)
  show "20 < iteracoes s + 1 \<and> reinicios s \<le> 10 \<Longrightarrow>
           iteracoes s' = 0 \<and> reinicios s' = reinicios s + 1
           \<and> rand_pos s' = rand_pos s + nv s
           \<and> (\<forall>i. 1 \<le> i \<and> i \<le> nv s \<longrightarrow>
                 en s' i = real (rand_seq s (rand_pos s + (i - 1))) / real (RAND_MAX s) * 10 - 5)"
    using s' by (simp add: reinicia_campos reinicia_en f3)
  show "\<not> (20 < iteracoes s + 1 \<and> reinicios s \<le> 10) \<Longrightarrow>
           iteracoes s' = iteracoes s + 1 \<and> reinicios s' = reinicios s
           \<and> rand_pos s' = rand_pos s \<and> randomizacoes s' = randomizacoes s
           \<and> (\<forall>i. 1 \<le> i \<and> i \<le> nv s \<longrightarrow> en s' i = Yn s i (nv s + 1))
           \<and> (\<forall>i. \<not> (1 \<le> i \<and> i \<le> nv s) \<longrightarrow> en s' i = en s i)"
    using s' by (auto simp add: f3)
  have "Yn (reinicia s3) = Yn s3" by (rule reinicia_Yn)
  then show "Yn s' = Yn s" using s' by (simp add: f3)
  show "\<not> primeira s'" using s' by simp
  show "en s' 0 = en s 0" using s' by (simp add: reinicia_en f3)
qed

lemma testa_sucesso:
  "iteracoes s + 1 \<le> MAX_IT \<Longrightarrow> \<exists>s'. testa_convergencia s = Inr s'"
  by (simp add: testa_convergencia_def Let_def)

lemma netlist_atualiza: "netlist (atualiza s) = netlist s"
  by (subst atualiza_resto) simp

lemma netlist_reinicia: "netlist (reinicia s) = netlist s"
proof -
  have "netlist (fold sorteia1 [1..<Suc (nv s)] (s\<lparr>reinicios := reinicios s + 1\<rparr>)) = netlist s"
    by (subst fold_sorteia_resto) simp
  then show ?thesis by (simp add: reinicia_def Let_def del: upt_Suc)
qed

lemma netlist_testa:
  "testa_convergencia s = Inr s' \<Longrightarrow> netlist s' = netlist s"
  by (auto simp: testa_convergencia_def Let_def netlist_atualiza netlist_reinicia
        split: if_splits)

lemma iteracao_Inr:
  assumes "resolversistema (nv s) (var_t s) (Yn (monta_estampas (s\<lparr>Yn := zera (nv s) (Yn s)\<rparr>))) = Inr Y"
    and "testa_convergencia ((monta_estampas (s\<lparr>Yn := zera (nv s) (Yn s)\<rparr>))\<lparr>Yn := Y\<rparr>) = Inr s'"
  shows "iteracao s = Inr s'"
proof -
  define s1 where "s1 = monta_estampas (s\<lparr>Yn := zera (nv s) (Yn s)\<rparr>)"
  have ap: "apaga s1 = apaga s" by (simp add: s1_def apaga_monta apaga_Yn)
  have "nv s1 = nv s" "var_t s1 = var_t s" using apaga_campos [OF ap] by simp_all
  then show ?thesis using assms
    by (simp add: iteracao_def Let_def s1_def [symmetric])
qed

text \<open>What an iteration that returns has done to the counters and to the unknowns.\<close>

lemma iteracao_efeito:
  assumes "iteracao s = Inr s'"
  shows "20 < iteracoes s + 1 \<and> reinicios s \<le> 10 \<Longrightarrow>
           iteracoes s' = 0 \<and> reinicios s' = reinicios s + 1
           \<and> rand_pos s' = rand_pos s + nv s
           \<and> (\<forall>i. 1 \<le> i \<and> i \<le> nv s \<longrightarrow>
                 en s' i = real (rand_seq s (rand_pos s + (i - 1))) / real (RAND_MAX s) * 10 - 5)"
    and "\<not> (20 < iteracoes s + 1 \<and> reinicios s \<le> 10) \<Longrightarrow>
           iteracoes s' = iteracoes s + 1 \<and> reinicios s' = reinicios s
           \<and> rand_pos s' = rand_pos s \<and> randomizacoes s' = randomizacoes s
           \<and> (\<forall>i. 1 \<le> i \<and> i \<le> nv s \<longrightarrow> en s' i = Yn s' i (nv s + 1))"
    and "\<not> primeira s'" and "en s' 0 = en s 0"
    and "\<exists>Y. resolversistema (nv s) (var_t s)
               (Yn (monta_estampas (s\<lparr>Yn := zera (nv s) (Yn s)\<rparr>))) = Inr Y \<and> Yn s' = Y"
    and "netlist s' = netlist (monta_estampas (s\<lparr>Yn := zera (nv s) (Yn s)\<rparr>))"
proof -
  define s1 where "s1 = monta_estampas (s\<lparr>Yn := zera (nv s) (Yn s)\<rparr>)"
  have ap: "apaga s1 = apaga s" by (simp add: s1_def apaga_monta apaga_Yn)
  note f = apaga_campos [OF ap] apaga_outros [OF ap]
  from assms obtain Y where Y: "resolversistema (nv s1) (var_t s1) (Yn s1) = Inr Y"
    and t: "testa_convergencia (s1\<lparr>Yn := Y\<rparr>) = Inr s'"
    by (cases "resolversistema (nv s1) (var_t s1) (Yn s1)")
       (simp_all add: iteracao_def Let_def s1_def)
  have f2: "iteracoes (s1\<lparr>Yn := Y\<rparr>) = iteracoes s" "reinicios (s1\<lparr>Yn := Y\<rparr>) = reinicios s"
    "rand_pos (s1\<lparr>Yn := Y\<rparr>) = rand_pos s" "rand_seq (s1\<lparr>Yn := Y\<rparr>) = rand_seq s"
    "RAND_MAX (s1\<lparr>Yn := Y\<rparr>) = RAND_MAX s" "nv (s1\<lparr>Yn := Y\<rparr>) = nv s"
    "randomizacoes (s1\<lparr>Yn := Y\<rparr>) = randomizacoes s" "en (s1\<lparr>Yn := Y\<rparr>) = en s"
    "Yn (s1\<lparr>Yn := Y\<rparr>) = Y" "netlist (s1\<lparr>Yn := Y\<rparr>) = netlist s1"
    using f by simp_all
  note r = testa_reinicio [OF t, unfolded f2]
  show "20 < iteracoes s + 1 \<and> reinicios s \<le> 10 \<Longrightarrow>
           iteracoes s' = 0 \<and> reinicios s' = reinicios s + 1
           \<and> rand_pos s' = rand_pos s + nv s
           \<and> (\<forall>i. 1 \<le> i \<and> i \<le> nv s \<longrightarrow>
                 en s' i = real (rand_seq s (rand_pos s + (i - 1))) / real (RAND_MAX s) * 10 - 5)"
    using r(1) .
  show "\<not> (20 < iteracoes s + 1 \<and> reinicios s \<le> 10) \<Longrightarrow>
           iteracoes s' = iteracoes s + 1 \<and> reinicios s' = reinicios s
           \<and> rand_pos s' = rand_pos s \<and> randomizacoes s' = randomizacoes s
           \<and> (\<forall>i. 1 \<le> i \<and> i \<le> nv s \<longrightarrow> en s' i = Yn s' i (nv s + 1))"
    using r(2) r(3) by simp
  show "\<not> primeira s'" using r(4) .
  show "en s' 0 = en s 0" using r(5) .
  show "\<exists>Y. resolversistema (nv s) (var_t s)
               (Yn (monta_estampas (s\<lparr>Yn := zera (nv s) (Yn s)\<rparr>))) = Inr Y \<and> Yn s' = Y"
    using Y r(3) f(1,8) by (simp add: s1_def)
  show "netlist s' = netlist (monta_estampas (s\<lparr>Yn := zera (nv s) (Yn s)\<rparr>))"
    using netlist_testa [OF t] by (simp add: s1_def)
qed

lemma newton_en0:
  assumes "newton s = Inr s'"
  shows "en s' 0 = en s 0"
  using newton_inv [where P = "\<lambda>u. en u 0 = en s 0", OF _ _ assms]
  by (simp add: iteracao_efeito(4))

text \<open>What a time step that returns has done to the step sizes, the time and ground.\<close>

lemma passo_tempo_campos:
  assumes "passo_tempo s = Inr s'"
  shows "var_n s' = var_n s + 1" "dt s' = dt1 s" "dta s' = dt s" "dt1 s' = dt1 s"
    "var_t s' = var_t s + dt1 s"
    "nv s' = nv s" "ne s' = ne s" "nao_linear s' = nao_linear s" "metodo s' = metodo s"
    "tempo s' = tempo s" "npontos s' = npontos s" "npassos s' = npassos s" "ntotal s' = ntotal s"
    "en s' 0 = en s 0" "et s' 0 = et s 0"
proof -
  define s0 where "s0 = s\<lparr>iteracoes := 0, reinicios := 0, primeira := True\<rparr>"
  from assms obtain s1 where n: "newton s0 = Inr s1"
    and s': "s' = (aceita s1)\<lparr>var_n := var_n s1 + 1\<rparr>"
    by (cases "newton s0") (auto simp: passo_tempo_def s0_def)
  note fr = apaga_iter_campos [OF apaga_iter_newton [OF n]]
  have e0: "en s1 0 = en s 0" using newton_en0 [OF n] by (simp add: s0_def)
  show "var_n s' = var_n s + 1" "dt s' = dt1 s" "dta s' = dt s" "dt1 s' = dt1 s"
    "var_t s' = var_t s + dt1 s"
    "nv s' = nv s" "ne s' = ne s" "nao_linear s' = nao_linear s" "metodo s' = metodo s"
    "tempo s' = tempo s" "npontos s' = npontos s" "npassos s' = npassos s" "ntotal s' = ntotal s"
    "en s' 0 = en s 0" "et s' 0 = et s 0"
    using fr e0 by (simp_all add: s' aceita_campos s0_def)
qed

lemma laco_inv:
  assumes step: "\<And>s s'. P s \<Longrightarrow> passo_tempo s = Inr s' \<Longrightarrow> P s'"
  shows "P s \<Longrightarrow> laco k s = Inr s' \<Longrightarrow> P s'"
proof (induction k arbitrary: s)
  case 0
  then show ?case by simp
next
  case (Suc k)
  from Suc.prems(2) obtain s1 where s1: "passo_tempo s = Inr s1" and l: "laco k s1 = Inr s'"
    by (cases "passo_tempo s") simp_all
  from Suc.IH [OF step [OF Suc.prems(1) s1] l] show ?case .
qed

lemma laco_var_n: "laco k s = Inr s' \<Longrightarrow> var_n s' = var_n s + k"
proof (induction k arbitrary: s)
  case 0
  then show ?case by simp
next
  case (Suc k)
  from Suc.prems obtain s1 where s1: "passo_tempo s = Inr s1" and l: "laco k s1 = Inr s'"
    by (cases "passo_tempo s") simp_all
  from Suc.IH [OF l] passo_tempo_campos(1) [OF s1] show ?case by simp
qed

text \<open>The step size at the head of each time step.\<close>

definition passo_certo :: "real \<Rightarrow> estado \<Rightarrow> bool" where
  "passo_certo d s \<longleftrightarrow>
     dt1 s = d \<and> dt s = (if var_n s = 0 then d * inicial else d)
     \<and> (var_n s = 1 \<longrightarrow> dta s = d * inicial) \<and> (2 \<le> var_n s \<longrightarrow> dta s = d)"

lemma passo_certo_passo:
  "passo_certo d s \<Longrightarrow> passo_tempo s = Inr s' \<Longrightarrow> passo_certo d s'"
  using passo_tempo_campos(1-4) [of s s']
  by (auto simp: passo_certo_def)

lemma passo_certo_laco:
  "passo_certo d s \<Longrightarrow> laco k s = Inr s' \<Longrightarrow> passo_certo d s'"
  using laco_inv [where P = "passo_certo d"] passo_certo_passo by blast

lemma em_long_id: "- (2 ^ 63) \<le> z \<Longrightarrow> z < 2 ^ 63 \<Longrightarrow> em_long z = z"
  by (simp add: em_long_def LONG_BITS_def)

lemma passo_certo_prepara:
  "passo_certo (tempo s / real_of_int (em_long (npassos s * npontos s))) (prepara s)"
  by (simp add: passo_certo_def prepara_def Let_def)

text \<open>Row 0 and column 0 in the solver.\<close>

definition igual_sem_terra :: "sistema \<Rightarrow> sistema \<Rightarrow> bool" where
  "igual_sem_terra Y Z \<longleftrightarrow> (\<forall>r c. 1 \<le> r \<and> 1 \<le> c \<longrightarrow> Y r c = Z r c)"

lemma pivot_sem_terra:
  assumes "igual_sem_terra Y Z" "1 \<le> i"
  shows "pivot Y nvv i = pivot Z nvv i"
proof -
  have "\<And>l. l \<in> set [i..<Suc nvv] \<Longrightarrow> busca Y i l = busca Z i l"
    using assms by (auto simp: busca_def igual_sem_terra_def fun_eq_iff)
  then show ?thesis unfolding pivot_def by (intro fold_cong) auto
qed

lemma passo_pivot_terra:
  assumes "passo_pivot nvv t i Y = Inr Y'" "1 \<le> i" "i \<le> nvv"
  shows "Y' 0 c = Y 0 c" "Y' r 0 = Y r 0"
proof -
  define a where "a = fst (pivot Y nvv i)"
  define tt where "tt = snd (pivot Y nvv i)"
  have a: "i \<le> a" using pivot_spec(1) [OF assms(3), of Y] by (simp add: a_def)
  from assms(1) have Y': "Y' = normaliza_fechada 1 nvv i tt (troca nvv i a Y)"
    using assms(3)
    by (auto simp: passo_pivot_def Let_def a_def tt_def normaliza_eq split: if_splits)
  show "Y' 0 c = Y 0 c" using assms(2) a by (simp add: Y' normaliza_fechada_def troca_spec)
  show "Y' r 0 = Y r 0" by (simp add: Y' normaliza_fechada_def troca_spec)
qed

lemma passos_pivot_terra:
  assumes "passos_pivot nvv t is Y = Inr Y'" "\<forall>i \<in> set is. 1 \<le> i \<and> i \<le> nvv"
  shows "Y' 0 c = Y 0 c \<and> Y' r 0 = Y r 0"
  using assms
proof (induction "is" arbitrary: Y)
  case Nil
  then show ?case by simp
next
  case (Cons i "is")
  from Cons.prems(1) obtain Y1 where Y1: "passo_pivot nvv t i Y = Inr Y1"
    and r: "passos_pivot nvv t is Y1 = Inr Y'"
    by (cases "passo_pivot nvv t i Y") simp_all
  have i: "1 \<le> i" "i \<le> nvv" using Cons.prems(2) by simp_all
  from Cons.IH [OF r] Cons.prems(2) passo_pivot_terra [OF Y1 i] show ?case by simp
qed

lemma resolversistema_terra:
  assumes "resolversistema nvv t Y = Inr Y'"
  shows "Y' 0 c = Y 0 c" "Y' r 0 = Y r 0"
  using passos_pivot_terra [of nvv t "[1..<Suc nvv]" Y Y' c r] assms
  by (auto simp: resolversistema_def simp del: upt_Suc)

definition mesmo_resultado :: "erro + sistema \<Rightarrow> erro + sistema \<Rightarrow> bool" where
  "mesmo_resultado a b =
     (case a of
        Inl e \<Rightarrow> b = Inl e
      | Inr Y' \<Rightarrow> (case b of Inl e \<Rightarrow> False | Inr Z' \<Rightarrow> igual_sem_terra Y' Z'))"

lemma passo_pivot_sem_terra:
  assumes e: "igual_sem_terra Y Z" and i: "1 \<le> i" "i \<le> nvv"
  shows "mesmo_resultado (passo_pivot nvv t i Y) (passo_pivot nvv t i Z)"
proof -
  define a where "a = fst (pivot Y nvv i)"
  define tt where "tt = snd (pivot Y nvv i)"
  have p: "pivot Z nvv i = pivot Y nvv i" using pivot_sem_terra [OF e i(1)] by simp
  have a: "1 \<le> a" using pivot_spec(1) [OF i(2), of Y] i(1) by (simp add: a_def)
  have "igual_sem_terra (normaliza_fechada 1 nvv i tt (troca nvv i a Y))
          (normaliza_fechada 1 nvv i tt (troca nvv i a Z))"
    using e i a by (auto simp: igual_sem_terra_def normaliza_fechada_def troca_spec)
  then show ?thesis
    using i(2)
    by (simp add: mesmo_resultado_def passo_pivot_def Let_def p a_def tt_def normaliza_eq)
qed

lemma passos_pivot_sem_terra:
  assumes "igual_sem_terra Y Z" "\<forall>i \<in> set is. 1 \<le> i \<and> i \<le> nvv"
  shows "mesmo_resultado (passos_pivot nvv t is Y) (passos_pivot nvv t is Z)"
  using assms
proof (induction "is" arbitrary: Y Z)
  case Nil
  then show ?case by (simp add: mesmo_resultado_def)
next
  case (Cons i "is")
  have i: "1 \<le> i" "i \<le> nvv" using Cons.prems(2) by simp_all
  note m = passo_pivot_sem_terra [OF Cons.prems(1) i, of t]
  show ?case
  proof (cases "passo_pivot nvv t i Y")
    case (Inl e)
    with m show ?thesis by (simp add: mesmo_resultado_def)
  next
    case (Inr Y1)
    with m obtain Z1 where Z1: "passo_pivot nvv t i Z = Inr Z1" and e1: "igual_sem_terra Y1 Z1"
      by (cases "passo_pivot nvv t i Z") (simp_all add: mesmo_resultado_def)
    from Cons.IH [OF e1] Cons.prems(2) Inr Z1 show ?thesis by simp
  qed
qed

lemma resolversistema_sem_terra:
  assumes "igual_sem_terra Y Z"
  shows "mesmo_resultado (resolversistema nvv t Y) (resolversistema nvv t Z)"
  unfolding resolversistema_def
  by (rule passos_pivot_sem_terra [OF assms]) auto

subsection \<open>The entries that the shared stamps change\<close>

lemma soma_apply: "soma Y r c v r' c' = (if r' = r \<and> c' = c then Y r c + v else Y r' c')"
  by (simp add: soma_def atribui_apply)

lemma transcondutancia_apply:
  "transcondutancia noa nob noc nod gg Y r c =
     Y r c + (if r = noa \<and> c = noc then gg else 0) + (if r = nob \<and> c = nod then gg else 0)
           - (if r = noa \<and> c = nod then gg else 0) - (if r = nob \<and> c = noc then gg else 0)"
  by (simp add: transcondutancia_def Let_def soma_apply)

lemma fonte_apply:
  "fonte nvv noa nob ii Y r c =
     Y r c - (if r = noa \<and> c = nvv + 1 then ii else 0) + (if r = nob \<and> c = nvv + 1 then ii else 0)"
  by (simp add: fonte_def Let_def soma_apply)

subsection \<open>An example circuit\<close>

text \<open>
  A current source of 1 A into node 1 and a capacitor of 1 F, with no initial voltage,
  from node 1 to ground: \<open>I1 0 1 DC 1\<close> and \<open>C1 1 0 1\<close>. There is one unknown.
\<close>

definition elemento_I1 :: elemento where
  "elemento_I1 = elemento_zero\<lparr>nome := ''I1'', p1 := 1, el_b := 1, el_y := codigo CHR ''D''\<rparr>"

definition elemento_C1 :: elemento where
  "elemento_C1 = elemento_zero\<lparr>nome := ''C1'', p1 := 1, el_a := 1\<rparr>"

definition circuito_IC :: "nat \<Rightarrow> elemento" where
  "circuito_IC = (\<lambda>i. elemento_zero)(1 := elemento_I1, 2 := elemento_C1)"

text \<open>The states of a run on this circuit; only \<open>p3\<close> of the capacitor changes.\<close>

definition circ :: "estado \<Rightarrow> bool" where
  "circ s \<longleftrightarrow> ne s = 2 \<and> nv s = 1 \<and> metodo s = 3 \<and> \<not> nao_linear s
     \<and> netlist s 1 = elemento_I1
     \<and> tipo_de (netlist s 2) = CHR ''C'' \<and> p1 (netlist s 2) = 1 \<and> p2 (netlist s 2) = 0
     \<and> el_a (netlist s 2) = 1 \<and> el_b (netlist s 2) = 0"

text \<open>The source voltage of the capacitor that an iteration on this circuit stamps.\<close>

definition fonte_C1 :: "estado \<Rightarrow> real" where
  "fonte_C1 s =
     (if primeira s then
        (if var_n s = 0 then 0
         else et s 1 - et s 0 + 2 / dta s * (et s 1 - et s 0 - p3 (netlist s 2)) / (2 / dt s))
      else p3 (netlist s 2))"

lemma tipo_p3: "tipo_de (e\<lparr>p3 := q\<rparr>) = tipo_de e"
  by (simp add: tipo_de_def)

lemma tipo_I1: "tipo_de elemento_I1 = CHR ''I''"
  by (simp add: elemento_I1_def elemento_zero_def tipo_de_def)

lemma monta_IC:
  assumes c: "circ s"
  defines "s1 \<equiv> monta_estampas (s\<lparr>Yn := zera (nv s) (Yn s)\<rparr>)"
  shows "Yn s1 1 1 = 2 / dt s" "Yn s1 1 2 = 1 + 2 / dt s * fonte_C1 s"
    "netlist s1 1 = elemento_I1" "netlist s1 2 = (netlist s 2)\<lparr>p3 := fonte_C1 s\<rparr>"
proof -
  from c have f: "ne s = 2" "nv s = Suc 0" "metodo s = 3" "netlist s (Suc 0) = elemento_I1"
    "tipo_de (netlist s 2) = CHR ''C''" "p1 (netlist s 2) = 1" "p2 (netlist s 2) = 0"
    "el_a (netlist s 2) = Suc 0" "el_b (netlist s 2) = 0"
    by (simp_all add: circ_def)
  define sa where "sa = estampa 1 (s\<lparr>Yn := zera (nv s) (Yn s)\<rparr>)"
  have l: "[Suc 0..<3] = [Suc 0, 2]" by (simp add: upt_conv_Cons)
  have s1: "s1 = estampa 2 sa"
    by (simp add: s1_def monta_estampas_def f l sa_def del: upt_Suc)
  have sa: "sa = (s\<lparr>Yn := zera (nv s) (Yn s)\<rparr>)
                   \<lparr>Yn := fonte (Suc 0) 0 (Suc 0) 1 (zera (Suc 0) (Yn s)), var_g := 1\<rparr>"
    by (simp add: sa_def estampa_def Let_def f tipo_I1 estampa_I_def valor_fonte_def)
       (simp add: elemento_I1_def elemento_zero_def)
  have s1': "s1 = estampa_C 2 (netlist s 2) sa"
    by (simp add: s1 estampa_def Let_def sa f)
  show "Yn s1 1 1 = 2 / dt s"
    by (simp add: s1' estampa_C_def Let_def sa f fonte_apply condutancia_def
          transcondutancia_apply zera_def)
  show "Yn s1 1 2 = 1 + 2 / dt s * fonte_C1 s"
    by (simp add: s1' estampa_C_def Let_def sa f fonte_apply condutancia_def
          transcondutancia_apply zera_def fonte_C1_def)
  show "netlist s1 1 = elemento_I1"
    by (simp add: s1' estampa_C_def Let_def sa f)
  show "netlist s1 2 = (netlist s 2)\<lparr>p3 := fonte_C1 s\<rparr>"
    by (simp add: s1' estampa_C_def Let_def sa f fonte_C1_def)
qed

lemma solve1:
  assumes "\<not> \<bar>Y 1 1\<bar> < 1 / 10 ^ 12"
  shows "\<exists>Y'. resolversistema 1 t Y = Inr Y' \<and> Y' 1 2 = Y 1 2 / Y 1 1"
proof -
  have p: "pivot Y (Suc 0) (Suc 0) = (Suc 0, Y (Suc 0) (Suc 0))"
    by (simp add: pivot_def busca_def)
  have "resolversistema 1 t Y = Inr (normaliza_fechada 1 1 1 (Y 1 1) Y)"
    using assms
    by (simp add: resolversistema_def passo_pivot_def p Let_def TOLG_def troca_def normaliza_eq)
  then show ?thesis by (simp add: normaliza_fechada_def)
qed

lemma iteracao_IC:
  assumes c: "circ s" and d: "0 < dt s" "dt s \<le> 2" and it: "iteracoes s < 100"
  shows "\<exists>s'. iteracao s = Inr s'
           \<and> Yn s' 1 2 = (1 + 2 / dt s * fonte_C1 s) / (2 / dt s)
           \<and> netlist s' 1 = elemento_I1 \<and> netlist s' 2 = (netlist s 2)\<lparr>p3 := fonte_C1 s\<rparr>"
proof -
  define s1 where "s1 = monta_estampas (s\<lparr>Yn := zera (nv s) (Yn s)\<rparr>)"
  note m = monta_IC [OF c, folded s1_def]
  have ap: "apaga s1 = apaga s" by (simp add: s1_def apaga_monta apaga_Yn)
  have nv1: "nv s = 1" using c by (simp add: circ_def)
  have f1: "iteracoes s1 = iteracoes s"
    using apaga_campos [OF ap] by simp_all
  define g where "g = 2 / dt s"
  have g1: "1 \<le> g" using d by (simp add: g_def le_divide_eq)
  have small: "(1::real) / 10 ^ 12 \<le> 1" by simp
  have "\<bar>g\<bar> = g" using g1 by simp
  with g1 small have "\<not> \<bar>g\<bar> < 1 / 10 ^ 12" by linarith
  then have big: "\<not> \<bar>Yn s1 1 1\<bar> < 1 / 10 ^ 12" unfolding m(1) g_def .
  from solve1 [of "Yn s1" "var_t s"] big obtain Y' where
    Y': "resolversistema 1 (var_t s) (Yn s1) = Inr Y'" "Y' 1 2 = Yn s1 1 2 / Yn s1 1 1"
    by blast
  define s2 where "s2 = s1\<lparr>Yn := Y'\<rparr>"
  have f2: "iteracoes s2 = iteracoes s" "Yn s2 = Y'" "netlist s2 = netlist s1"
    using f1 by (simp_all add: s2_def)
  have "iteracoes s2 + 1 \<le> MAX_IT" using f2 it by (simp add: MAX_IT_def)
  from testa_sucesso [OF this] obtain s' where s': "testa_convergencia s2 = Inr s'" by blast
  note t = testa_reinicio(3) [OF s'] netlist_testa [OF s']
  have "iteracao s = Inr s'"
    using Y' s' nv1 by (intro iteracao_Inr [where Y = Y']) (simp_all add: s1_def s2_def)
  moreover have "Yn s' 1 2 = (1 + 2 / dt s * fonte_C1 s) / (2 / dt s)"
    using t(1) f2 Y'(2) m(1,2) by simp
  moreover have "netlist s' 1 = elemento_I1" "netlist s' 2 = (netlist s 2)\<lparr>p3 := fonte_C1 s\<rparr>"
    using t(2) f2 m(3,4) by simp_all
  ultimately show ?thesis by blast
qed

lemma passo_IC:
  assumes c: "circ s" and d: "0 < dt s" "dt s \<le> 2"
  shows "\<exists>s'. passo_tempo s = Inr s' \<and> circ s'
           \<and> p3 (netlist s' 2) = fonte_C1 (s\<lparr>primeira := True\<rparr>)
           \<and> en s' 1 = (1 + 2 / dt s * fonte_C1 (s\<lparr>primeira := True\<rparr>)) / (2 / dt s)
           \<and> et s' 1 = (1 + 2 / dt s * fonte_C1 (s\<lparr>primeira := True\<rparr>)) / (2 / dt s)
           \<and> max_iter s' = max 1 (max_iter s) \<and> max_reinicios s' = max_reinicios s
           \<and> randomizacoes s' = randomizacoes s"
proof -
  define s0 where "s0 = s\<lparr>iteracoes := 0, reinicios := 0, primeira := True\<rparr>"
  have c0: "circ s0" using c by (simp add: circ_def s0_def)
  have f0: "fonte_C1 s0 = fonte_C1 (s\<lparr>primeira := True\<rparr>)" "dt s0 = dt s" "iteracoes s0 = 0"
    "reinicios s0 = 0" "randomizacoes s0 = randomizacoes s" "netlist s0 = netlist s"
    "nv s0 = 1"
    using c by (simp_all add: fonte_C1_def s0_def circ_def)
  have lin: "\<not> nao_linear s0" using c0 by (simp add: circ_def)
  from iteracao_IC [OF c0] d f0 obtain s1 where s1: "iteracao s0 = Inr s1"
    and y1: "Yn s1 1 2 = (1 + 2 / dt s * fonte_C1 (s\<lparr>primeira := True\<rparr>)) / (2 / dt s)"
    and n1: "netlist s1 1 = elemento_I1"
       "netlist s1 2 = (netlist s 2)\<lparr>p3 := fonte_C1 (s\<lparr>primeira := True\<rparr>)\<rparr>"
    by auto
  have nr: "\<not> (20 < iteracoes s0 + 1 \<and> reinicios s0 \<le> 10)" using f0 by simp
  note ef = iteracao_efeito(2) [OF s1 nr, unfolded f0]
  then have e1: "en s1 1 = Yn s1 1 2" by (simp add: numeral_2_eq_2)
  note fr = apaga_iter_campos [OF apaga_iter_iteracao [OF s1]]
  have fr0: "nv s1 = nv s" "ne s1 = ne s" "nao_linear s1 = nao_linear s" "metodo s1 = metodo s"
    "max_iter s1 = max_iter s" "max_reinicios s1 = max_reinicios s"
    using fr by (simp_all add: s0_def)
  have p: "passo_tempo s = Inr ((aceita s1)\<lparr>var_n := var_n s1 + 1\<rparr>)"
    using s1 by (simp add: passo_tempo_def s0_def [symmetric] newton_linear [OF lin])
  have nv1: "nv s = 1" using c by (simp add: circ_def)
  have "circ ((aceita s1)\<lparr>var_n := var_n s1 + 1\<rparr>)"
    using c n1 by (simp add: circ_def aceita_campos fr0 tipo_p3)
  then show ?thesis
    using p e1 y1 n1 ef nv1 by (simp add: aceita_campos fr0)
qed

text \<open>The run with \<open>tempo = 1\<close>, one point and one step per point: two time steps.\<close>

definition inicio_IC :: estado where
  "inicio_IC = prepara (carrega circuito_IC 2 1 1 1 1 (\<lambda>k. 0) 1)"

lemma inicio_IC_campos:
  "circ inicio_IC" "dt inicio_IC = 1 / 1000" "dt1 inicio_IC = 1" "var_n inicio_IC = 0"
  "en inicio_IC 0 = 0" "et inicio_IC = (\<lambda>i. 0)" "max_iter inicio_IC = 0"
  "max_reinicios inicio_IC = 0" "randomizacoes inicio_IC = 0" "ntotal inicio_IC = 1"
  "p3 (netlist inicio_IC 2) = 0"
proof -
  have t: "tipo_de elemento_C1 = CHR ''C''" "tipo_de elemento_zero = CHR 0x00"
    by (simp_all add: elemento_C1_def elemento_zero_def tipo_de_def)
  have l: "[Suc 0..<3] = [Suc 0, 2]" by (simp add: upt_conv_Cons)
  have "\<not> tem_nao_linear circuito_IC 2"
    by (simp add: tem_nao_linear_def circuito_IC_def l tipo_I1 t del: upt_Suc)
  then show "circ inicio_IC"
    by (simp add: circ_def inicio_IC_def prepara_def carrega_def Let_def circuito_IC_def t)
       (simp add: elemento_C1_def elemento_zero_def)
  show "dt inicio_IC = 1 / 1000" "dt1 inicio_IC = 1" "var_n inicio_IC = 0"
    "en inicio_IC 0 = 0" "et inicio_IC = (\<lambda>i. 0)" "max_iter inicio_IC = 0"
    "max_reinicios inicio_IC = 0" "randomizacoes inicio_IC = 0" "ntotal inicio_IC = 1"
    by (simp_all add: inicio_IC_def prepara_def carrega_def Let_def inicial_def em_long_def
        LONG_BITS_def)
  show "p3 (netlist inicio_IC 2) = 0"
    by (simp add: inicio_IC_def prepara_def carrega_def Let_def circuito_IC_def
          elemento_C1_def elemento_zero_def)
qed

lemma passo0_IC:
  "\<exists>s1. passo_tempo inicio_IC = Inr s1 \<and> circ s1 \<and> var_n s1 = 1 \<and> dt s1 = 1
        \<and> dta s1 = 1 / 1000 \<and> dt1 s1 = 1 \<and> p3 (netlist s1 2) = 0 \<and> p1 (netlist s1 2) = 1
        \<and> en s1 1 = 1 / 2000 \<and> et s1 1 = 1 / 2000 \<and> en s1 0 = 0 \<and> et s1 0 = 0
        \<and> max_iter s1 = 1 \<and> max_reinicios s1 = 0 \<and> randomizacoes s1 = 0"
proof -
  note i = inicio_IC_campos
  have f: "fonte_C1 (inicio_IC\<lparr>primeira := True\<rparr>) = 0"
    using i by (simp add: fonte_C1_def)
  from passo_IC [OF i(1)] i(2) obtain s1 where s1: "passo_tempo inicio_IC = Inr s1"
    and c1: "circ s1" and r: "p3 (netlist s1 2) = 0" "en s1 1 = 1 / 2000" "et s1 1 = 1 / 2000"
      "max_iter s1 = 1" "max_reinicios s1 = 0" "randomizacoes s1 = 0"
    by (auto simp: f i)
  note pc = passo_tempo_campos [OF s1]
  have "p1 (netlist s1 2) = 1" using c1 by (simp add: circ_def)
  then show ?thesis using s1 c1 r pc i by simp
qed

lemma passo1_IC:
  "\<exists>s1 s2. passo_tempo inicio_IC = Inr s1 \<and> passo_tempo s1 = Inr s2
        \<and> dta s1 = 1 / 1000 \<and> dt s1 = 1 \<and> et s1 1 = 1 / 2000 \<and> et s1 0 = 0
        \<and> p3 (netlist s1 2) = 0 \<and> p1 (netlist s1 2) = 1
        \<and> var_n s2 = 2 \<and> dt s2 = 1 \<and> dta s2 = 1 \<and> p3 (netlist s2 2) = 1001 / 2000
        \<and> en s2 1 = 2001 / 2000 \<and> en s2 0 = 0 \<and> et s2 0 = 0
        \<and> max_iter s2 = 1 \<and> max_reinicios s2 = 0 \<and> randomizacoes s2 = 0"
proof -
  from passo0_IC obtain s1 where s1: "passo_tempo inicio_IC = Inr s1" and c1: "circ s1"
    and r1: "var_n s1 = 1" "dt s1 = 1" "dta s1 = 1 / 1000" "dt1 s1 = 1" "p3 (netlist s1 2) = 0"
      "p1 (netlist s1 2) = 1"
      "en s1 1 = 1 / 2000" "et s1 1 = 1 / 2000" "en s1 0 = 0" "et s1 0 = 0"
      "max_iter s1 = 1" "max_reinicios s1 = 0" "randomizacoes s1 = 0"
    by blast
  have r1s: "et s1 (Suc 0) = 1 / 2000" "var_n s1 = Suc 0" using r1 by simp_all
  have f: "fonte_C1 (s1\<lparr>primeira := True\<rparr>) = 1001 / 2000"
    by (simp add: fonte_C1_def r1 r1s)
  from passo_IC [OF c1] r1 obtain s2 where s2: "passo_tempo s1 = Inr s2"
    and r2: "p3 (netlist s2 2) = 1001 / 2000" "en s2 1 = 2001 / 2000"
      "max_iter s2 = 1" "max_reinicios s2 = 0" "randomizacoes s2 = 0"
    by (auto simp: f)
  note pc = passo_tempo_campos [OF s2]
  show ?thesis using s1 s2 r1 r2 pc by simp
qed

lemma principal_IC:
  "\<exists>s. principal circuito_IC 2 1 1 1 1 (\<lambda>k. 0) 1 = Inr s
       \<and> var_n s = 2 \<and> dt s = 1 \<and> p3 (netlist s 2) = 1001 / 2000
       \<and> en s 1 = 2001 / 2000 \<and> en s 0 = 0 \<and> et s 0 = 0
       \<and> max_iter s = 1 \<and> max_reinicios s = 0 \<and> randomizacoes s = 0"
proof -
  from passo1_IC obtain s1 s2 where
    p: "passo_tempo inicio_IC = Inr s1" "passo_tempo s1 = Inr s2"
    and r: "var_n s2 = 2" "dt s2 = 1" "p3 (netlist s2 2) = 1001 / 2000"
      "en s2 1 = 2001 / 2000" "en s2 0 = 0" "et s2 0 = 0"
      "max_iter s2 = 1" "max_reinicios s2 = 0" "randomizacoes s2 = 0"
    by blast
  have l: "laco 2 inicio_IC = Inr s2" using p by (simp add: numeral_2_eq_2)
  have "principal circuito_IC 2 1 1 1 1 (\<lambda>k. 0) 1 = laco 2 inicio_IC"
    using inicio_IC_campos(10)
    by (simp add: principal_def simula_def carrega_def Let_def inicio_IC_def [symmetric])
       (simp add: inicio_IC_def carrega_def)
  with l r show ?thesis by simp
qed

subsection \<open>The step of integration of the second engine in closed form\<close>

lemma tempo_mna_fechado: "tempo_mna Step k = real k * Step"
  by (induction k) (simp_all add: algebra_simps)

lemma passo_mna_fechado:
  assumes "0 < Step"
  shows "passo_mna Step Internal_Step k =
     (if k = 0 then (1, Step / Internal_Step / STEPFACTOR)
      else (Internal_Step, Step / Internal_Step))"
proof (cases k)
  case 0
  then show ?thesis by (simp add: escolhe_passo_def)
next
  case (Suc j)
  have "0 < tempo_mna Step (Suc j)"
    unfolding tempo_mna_fechado using assms by simp
  then show ?thesis using Suc by (simp add: escolhe_passo_def Let_def)
qed

subsection \<open>Time steps of a circuit with no nonlinear element\<close>

lemma aceita_contadores:
  "iteracoes (aceita s) = iteracoes s" "reinicios (aceita s) = reinicios s"
  "primeira (aceita s) = primeira s"
  unfolding aceita_def Let_def fold_copia by auto

lemma tem_nao_linear_iff:
  "tem_nao_linear nl nel \<longleftrightarrow>
     (\<exists>i. 1 \<le> i \<and> i \<le> nel
        \<and> (tipo_de (nl i) = CHR ''D'' \<or> tipo_de (nl i) = CHR ''M''
             \<or> tipo_de (nl i) = CHR ''Q''))"
  unfolding tem_nao_linear_def list_ex_iff by (auto simp: less_Suc_eq_le)

text \<open>A time step of a circuit with no nonlinear element is one iteration.\<close>

lemma passo_linear:
  assumes "\<not> nao_linear s" "passo_tempo s = Inr s'"
  shows "\<exists>s1. iteracao (s\<lparr>iteracoes := 0, reinicios := 0, primeira := True\<rparr>) = Inr s1
          \<and> iteracoes s1 = 1 \<and> reinicios s1 = 0 \<and> randomizacoes s1 = randomizacoes s
          \<and> s' = (aceita s1)\<lparr>var_n := var_n s1 + 1\<rparr>"
proof -
  define s0 where "s0 = s\<lparr>iteracoes := 0, reinicios := 0, primeira := True\<rparr>"
  have lin: "\<not> nao_linear s0" using assms(1) by (simp add: s0_def)
  from assms(2) obtain s1 where n: "newton s0 = Inr s1"
    and s': "s' = (aceita s1)\<lparr>var_n := var_n s1 + 1\<rparr>"
    by (cases "newton s0") (auto simp: passo_tempo_def s0_def)
  have it: "iteracao s0 = Inr s1" using n newton_linear [OF lin] by simp
  have "iteracoes s1 = 1 \<and> reinicios s1 = 0 \<and> randomizacoes s1 = randomizacoes s"
    using iteracao_efeito(2) [OF it] by (simp add: s0_def)
  then show ?thesis using it s' unfolding s0_def by blast
qed

definition uma_iteracao :: "estado \<Rightarrow> bool" where
  "uma_iteracao s \<longleftrightarrow>
     \<not> nao_linear s \<and> max_iter s = (if var_n s = 0 then 0 else 1)
     \<and> max_reinicios s = 0 \<and> randomizacoes s = 0"

lemma uma_iteracao_passo:
  assumes "uma_iteracao s" "passo_tempo s = Inr s'"
  shows "uma_iteracao s'"
proof -
  from assms(1) have lin: "\<not> nao_linear s" by (simp add: uma_iteracao_def)
  from passo_linear [OF lin assms(2)] obtain s1 where
    it: "iteracao (s\<lparr>iteracoes := 0, reinicios := 0, primeira := True\<rparr>) = Inr s1"
    and r: "iteracoes s1 = 1" "reinicios s1 = 0" "randomizacoes s1 = randomizacoes s"
    and s': "s' = (aceita s1)\<lparr>var_n := var_n s1 + 1\<rparr>" by blast
  note fr = apaga_iter_campos [OF apaga_iter_iteracao [OF it]]
  show ?thesis
    using assms(1) r fr by (auto simp: uma_iteracao_def s' aceita_campos)
qed

lemma uma_iteracao_laco:
  "uma_iteracao s \<Longrightarrow> laco k s = Inr s' \<Longrightarrow> uma_iteracao s'"
  using laco_inv [where P = uma_iteracao] uma_iteracao_passo by blast

subsection \<open>The restarts of a time step\<close>

lemma aceita_sorteio: "rand_pos (aceita s) = rand_pos s"
  unfolding aceita_def Let_def fold_copia by auto

text \<open>
  The restarts and the draws of a Newton loop that started at \<open>s0\<close> with no restart
  counted.
\<close>

definition reinicios_de :: "estado \<Rightarrow> estado \<Rightarrow> bool" where
  "reinicios_de s0 s \<longleftrightarrow>
     reinicios s \<le> 11 \<and> nv s = nv s0 \<and> rand_pos s = rand_pos s0 + reinicios s * nv s0"

lemma reinicios_de_iteracao:
  assumes "reinicios_de s0 s" "iteracao s = Inr s'"
  shows "reinicios_de s0 s'"
proof -
  note fr = apaga_iter_campos(1) [OF apaga_iter_iteracao [OF assms(2)]]
  show ?thesis
  proof (cases "20 < iteracoes s + 1 \<and> reinicios s \<le> 10")
    case True
    from iteracao_efeito(1) [OF assms(2) True] assms(1) fr True
    show ?thesis by (simp add: reinicios_de_def algebra_simps)
  next
    case False
    from iteracao_efeito(2) [OF assms(2) False] assms(1) fr
    show ?thesis by (simp add: reinicios_de_def)
  qed
qed

lemma reinicios_de_newton:
  "reinicios_de s0 s \<Longrightarrow> newton s = Inr s' \<Longrightarrow> reinicios_de s0 s'"
  using newton_inv [where P = "reinicios_de s0"] reinicios_de_iteracao by blast

lemma reinicios_passo:
  assumes "passo_tempo s = Inr s'"
  shows "reinicios s' \<le> 11 \<and> rand_pos s' = rand_pos s + reinicios s' * nv s"
proof -
  define s0 where "s0 = s\<lparr>iteracoes := 0, reinicios := 0, primeira := True\<rparr>"
  from assms obtain s1 where n: "newton s0 = Inr s1"
    and s': "s' = (aceita s1)\<lparr>var_n := var_n s1 + 1\<rparr>"
    by (cases "newton s0") (auto simp: passo_tempo_def s0_def)
  have "reinicios_de s0 s0" by (simp add: reinicios_de_def s0_def)
  then have "reinicios_de s0 s1" using reinicios_de_newton n by blast
  then show ?thesis
    by (simp add: reinicios_de_def s' aceita_sorteio aceita_contadores s0_def)
qed

subsection \<open>The stamps with ground skipped\<close>

text \<open>
  The four-terminal stamp as the specification words it: \<open>+val\<close> at \<open>(a, c)\<close> and
  \<open>(b, d)\<close>, \<open>-val\<close> at \<open>(a, d)\<close> and \<open>(b, c)\<close>, skipping any row or column equal to 0;
  and the current source in the same manner.
\<close>

definition soma_sem_terra :: "sistema \<Rightarrow> nat \<Rightarrow> nat \<Rightarrow> real \<Rightarrow> sistema" where
  "soma_sem_terra Y r c v = (if r = 0 \<or> c = 0 then Y else soma Y r c v)"

definition g_sem_terra :: "nat \<Rightarrow> nat \<Rightarrow> nat \<Rightarrow> nat \<Rightarrow> real \<Rightarrow> sistema \<Rightarrow> sistema" where
  "g_sem_terra a b c d val Y =
     soma_sem_terra (soma_sem_terra (soma_sem_terra (soma_sem_terra Y a c val) b d val)
       a d (- val)) b c (- val)"

definition fonte_sem_terra :: "nat \<Rightarrow> nat \<Rightarrow> nat \<Rightarrow> real \<Rightarrow> sistema \<Rightarrow> sistema" where
  "fonte_sem_terra nvv a b ii Y =
     soma_sem_terra (soma_sem_terra Y a (nvv + 1) (- ii)) b (nvv + 1) ii"

lemma soma_sem_terra_apply:
  "soma_sem_terra Y r c v r' c' =
     (if r \<noteq> 0 \<and> c \<noteq> 0 \<and> r' = r \<and> c' = c then Y r c + v else Y r' c')"
  by (simp add: soma_sem_terra_def soma_apply)

lemma transcondutancia_sem_terra:
  "igual_sem_terra (transcondutancia a b c d val Y) (g_sem_terra a b c d val Y)"
  unfolding igual_sem_terra_def g_sem_terra_def
  by (auto simp: transcondutancia_apply soma_sem_terra_apply)

lemma fonte_sem_terra:
  "igual_sem_terra (fonte nvv a b ii Y) (fonte_sem_terra nvv a b ii Y)"
  unfolding igual_sem_terra_def fonte_sem_terra_def
  by (auto simp: fonte_apply soma_sem_terra_apply)

lemma terra_laco:
  "laco k s = Inr s' \<Longrightarrow> en s' 0 = en s 0 \<and> et s' 0 = et s 0"
  using laco_inv [where P = "\<lambda>u. en u 0 = en s 0 \<and> et u 0 = et s 0" and s = s and s' = s'
      and k = k]
    passo_tempo_campos(14,15)
  by simp

subsection \<open>The end of the cycles of the SIN source of the second engine\<close>

lemma fim_dos_ciclos:
  "maior t (mais Delay (vezes (inverso f) c))
     = (if f = 0 then c < 0 else t > Delay + (1 / f) * c)"
  by (simp add: maior_def mais_def vezes_def inverso_def)

subsection \<open>An iteration that returns, and the voltage of a diode\<close>

text \<open>An iteration returns when the solver does and the count stays within \<open>MAX_IT\<close>.\<close>

lemma iteracao_retorna:
  assumes "resolversistema (nv s) (var_t s)
             (Yn (monta_estampas (s\<lparr>Yn := zera (nv s) (Yn s)\<rparr>))) = Inr Y"
    and "iteracoes s < 100"
  shows "\<exists>s'. iteracao s = Inr s'"
proof -
  define s1 where "s1 = monta_estampas (s\<lparr>Yn := zera (nv s) (Yn s)\<rparr>)"
  have ap: "apaga s1 = apaga s" by (simp add: s1_def apaga_monta apaga_Yn)
  note f = apaga_campos [OF ap]
  have "iteracao s = testa_convergencia (s1\<lparr>Yn := Y\<rparr>)"
    using assms(1) by (simp add: iteracao_def Let_def s1_def [symmetric] f)
  moreover have "\<exists>s'. testa_convergencia (s1\<lparr>Yn := Y\<rparr>) = Inr s'"
    using assms(2) f(3) by (simp add: testa_convergencia_def Let_def MAX_IT_def)
  ultimately show ?thesis by simp
qed

text \<open>
  The voltage that a call of \<open>diodo\<close> works with, and the voltage across the diode cut
  at 0.9.
\<close>

definition tensao_diodo :: "nat \<Rightarrow> nat \<Rightarrow> estado \<Rightarrow> real" where
  "tensao_diodo noa nob s = var_v (diodo noa nob s)"

definition tensao_cortada :: "nat \<Rightarrow> nat \<Rightarrow> estado \<Rightarrow> real" where
  "tensao_cortada noa nob s = min (en s noa - en s nob) (9 / 10)"

lemma erro_reinicia: "erro_max (reinicia s) = erro_max s"
proof -
  have "erro_max (fold sorteia1 [1..<Suc (nv s)] (s\<lparr>reinicios := reinicios s + 1\<rparr>)) = erro_max s"
    by (subst fold_sorteia_resto) simp
  then show ?thesis by (simp add: reinicia_def Let_def del: upt_Suc)
qed

lemma erro_um:
  assumes "nv s = 1" "testa_convergencia s = Inr s'"
  shows "erro_max s' = \<bar>en s 1 - Yn s 1 2\<bar>"
proof -
  define s2 where "s2 = s\<lparr>erro_max := 0, iteracoes := iteracoes s + 1\<rparr>"
  have l: "[1..<Suc (nv s2)] = [1]" using assms(1) by (simp add: s2_def)
  have a: "erro_max (atualiza s2) = \<bar>en s 1 - Yn s 1 2\<bar>"
    unfolding atualiza_def l using assms(1)
    by (simp add: atualiza1_def Let_def s2_def numeral_2_eq_2)
  from assms(2) have "s' = (if iteracoes (atualiza s2) > 20 \<and> reinicios (atualiza s2) \<le> 10
                          then reinicia (atualiza s2) else atualiza s2)\<lparr>primeira := False\<rparr>"
    by (auto simp: testa_convergencia_def Let_def s2_def split: if_splits)
  then show ?thesis using a by (simp add: erro_reinicia)
qed

lemma erro_iteracao_um:
  assumes "nv s = 1" "iteracao s = Inr s'"
  shows "erro_max s' = \<bar>en s 1 - Yn s' 1 2\<bar>"
proof -
  define s1 where "s1 = monta_estampas (s\<lparr>Yn := zera (nv s) (Yn s)\<rparr>)"
  have ap: "apaga s1 = apaga s" by (simp add: s1_def apaga_monta apaga_Yn)
  note f = apaga_campos [OF ap]
  from assms(2) obtain Y where Y: "testa_convergencia (s1\<lparr>Yn := Y\<rparr>) = Inr s'"
    by (cases "resolversistema (nv s1) (var_t s1) (Yn s1)")
       (simp_all add: iteracao_def Let_def s1_def)
  from iteracao_efeito(5) [OF assms(2)] obtain Y2 where
    "resolversistema (nv s) (var_t s) (Yn s1) = Inr Y2" "Yn s' = Y2"
    unfolding s1_def by blast
  have "Yn s' = Y"
  proof -
    have "Yn s' = Yn (s1\<lparr>Yn := Y\<rparr>)"
      using Y by (auto simp: testa_convergencia_def Let_def atualiza_outros reinicia_Yn
          split: if_splits)
    then show ?thesis by simp
  qed
  then show ?thesis
    using erro_um [of "s1\<lparr>Yn := Y\<rparr>" s'] Y f assms(1) by simp
qed

text \<open>The test of the \<open>do ... while\<close>: the Newton loop goes on.\<close>

definition continua :: "estado \<Rightarrow> bool" where
  "continua s \<longleftrightarrow> nao_linear s \<and> erro_max s > TOLE"

lemma newton_continua:
  "newton s = (case iteracao s of Inl e \<Rightarrow> Inl e
               | Inr s' \<Rightarrow> if continua s' then newton s' else Inr s')"
  unfolding continua_def by (rule newton.simps)

subsection \<open>The netlist under the stamps\<close>

lemma apaga_campos_passo:
  assumes "apaga s' = apaga s"
  shows "metodo s' = metodo s" "primeira s' = primeira s" "dt s' = dt s" "dta s' = dta s"
proof -
  have a: "\<And>f. f (apaga s') = f (apaga s)" using assms by simp
  show "metodo s' = metodo s" using a [of metodo] by (simp add: apaga_def)
  show "primeira s' = primeira s" using a [of primeira] by (simp add: apaga_def)
  show "dt s' = dt s" using a [of dt] by (simp add: apaga_def)
  show "dta s' = dta s" using a [of dta] by (simp add: apaga_def)
qed

text \<open>
  A stamp changes the netlist at most in the field \<open>p3\<close> of its own element, and not at
  all when \<open>primeira\<close> is clear.
\<close>

lemma rede_diodo: "netlist (diodo a b s) = netlist s"
  by (simp add: diodo_def Let_def)

lemma rede_Q: "netlist (estampa_Q e s) = netlist s"
  by (simp add: estampa_Q_def Let_def rede_diodo)

lemma rede_simples:
  "netlist (estampa_R e s) = netlist s"
  "netlist (estampa_L e s) = netlist s"
  "netlist (estampa_K e s) = netlist s"
  "netlist (estampa_G e s) = netlist s"
  "netlist (estampa_I e s) = netlist s"
  "netlist (estampa_V e s) = netlist s"
  "netlist (estampa_E e s) = netlist s"
  "netlist (estampa_F e s) = netlist s"
  "netlist (estampa_H e s) = netlist s"
  "netlist (estampa_O e s) = netlist s"
  "netlist (estampa_M e s) = netlist s"
  by (simp_all add: estampa_R_def estampa_L_def estampa_K_def
      estampa_G_def estampa_I_def estampa_V_def estampa_E_def estampa_F_def estampa_H_def
      estampa_O_def estampa_M_def Let_def)

lemma rede_igual: "\<exists>v. netlist s = (netlist s)(i := (netlist s i)\<lparr>p3 := v\<rparr>)"
  by (rule exI [of _ "p3 (netlist s i)"]) simp

lemma rede_C:
  "\<exists>v. netlist (estampa_C i (netlist s i) s) = (netlist s)(i := (netlist s i)\<lparr>p3 := v\<rparr>)"
proof -
  have u: "\<And>w. \<exists>v. (netlist s)(i := (netlist s i)\<lparr>p3 := w\<rparr>)
                    = (netlist s)(i := (netlist s i)\<lparr>p3 := v\<rparr>)"
    by blast
  show ?thesis
    unfolding estampa_C_def Let_def
    by (simp add: rede_igual u)
qed

lemma rede_X:
  "\<exists>v. netlist (estampa_X i (netlist s i) s) = (netlist s)(i := (netlist s i)\<lparr>p3 := v\<rparr>)"
proof -
  have u: "\<And>w. \<exists>v. (netlist s)(i := (netlist s i)\<lparr>p3 := w\<rparr>)
                    = (netlist s)(i := (netlist s i)\<lparr>p3 := v\<rparr>)"
    by blast
  show ?thesis
    unfolding estampa_X_def Let_def
    by (simp add: rede_igual u)
qed

lemma rede_estampa:
  "\<exists>v. netlist (estampa i s) = (netlist s)(i := (netlist s i)\<lparr>p3 := v\<rparr>)"
  unfolding estampa_def Let_def
  using rede_C [of i s] rede_X [of i s]
  by (simp add: rede_simples rede_Q rede_diodo rede_igual)

lemma rede_estampa_outro: "k \<noteq> i \<Longrightarrow> netlist (estampa i s) k = netlist s k"
  using rede_estampa [of i s] by auto





lemma rede_fold_outro: "i \<notin> set xs \<Longrightarrow> netlist (fold estampa xs s) i = netlist s i"
  by (induction xs arbitrary: s) (simp_all add: rede_estampa_outro)

lemma rede_estampa_depois: "\<not> primeira s \<Longrightarrow> netlist (estampa i s) = netlist s"
  unfolding estampa_def Let_def
  by (simp add: rede_simples rede_Q rede_diodo estampa_C_def estampa_X_def Let_def)

lemma rede_fold_depois: "\<not> primeira s \<Longrightarrow> netlist (fold estampa xs s) = netlist s"
proof (induction xs arbitrary: s)
  case Nil
  then show ?case by simp
next
  case (Cons i xs)
  have "primeira (estampa i s) = primeira s"
    using apaga_campos_passo(2) [OF apaga_estampa] .
  with Cons show ?case by (simp add: rede_estampa_depois)
qed

lemma rede_monta_depois: "\<not> primeira s \<Longrightarrow> netlist (monta_estampas s) = netlist s"
  by (simp add: monta_estampas_def rede_fold_depois del: upt_Suc)

lemma rede_iteracao_depois:
  assumes "\<not> primeira s" "iteracao s = Inr s'"
  shows "netlist s' = netlist s"
  using iteracao_efeito(6) [OF assms(2)] rede_monta_depois [of "s\<lparr>Yn := zera (nv s) (Yn s)\<rparr>"]
    assms(1)
  by simp

text \<open>The netlist that a Newton loop returns is the one that its first iteration left.\<close>

lemma rede_newton:
  assumes "newton s = Inr s'"
  shows "\<exists>s1. iteracao s = Inr s1 \<and> netlist s' = netlist s1"
proof -
  from assms obtain s1 where s1: "iteracao s = Inr s1"
    by (cases "iteracao s") (simp_all add: newton.simps [of s])
  have p1: "\<not> primeira s1" using iteracao_efeito(3) [OF s1] .
  show ?thesis
  proof (cases "nao_linear s1 \<and> erro_max s1 > TOLE")
    case True
    with assms s1 have n: "newton s1 = Inr s'" by (simp add: newton.simps [of s])
    have "\<not> primeira s' \<and> netlist s' = netlist s1"
    proof (rule newton_inv [where P = "\<lambda>u. \<not> primeira u \<and> netlist u = netlist s1", OF _ _ n])
      fix u u'
      assume "\<not> primeira u \<and> netlist u = netlist s1" "iteracao u = Inr u'"
      then show "\<not> primeira u' \<and> netlist u' = netlist s1"
        using rede_iteracao_depois [of u u'] iteracao_efeito(3) [of u u'] by simp
    next
      show "\<not> primeira s1 \<and> netlist s1 = netlist s1" using p1 by simp
    qed
    with s1 show ?thesis by blast
  next
    case False
    with assms s1 have "s' = s1" by (auto simp: newton.simps [of s])
    with s1 show ?thesis by blast
  qed
qed

lemma rede_passo:
  assumes "passo_tempo s = Inr s'"
  shows "\<exists>s1. iteracao (s\<lparr>iteracoes := 0, reinicios := 0, primeira := True\<rparr>) = Inr s1
           \<and> netlist s' = netlist s1"
proof -
  define s0 where "s0 = s\<lparr>iteracoes := 0, reinicios := 0, primeira := True\<rparr>"
  from assms obtain s2 where n: "newton s0 = Inr s2"
    and s': "s' = (aceita s2)\<lparr>var_n := var_n s2 + 1\<rparr>"
    by (cases "newton s0") (auto simp: passo_tempo_def s0_def)
  from rede_newton [OF n] obtain s1 where "iteracao s0 = Inr s1" "netlist s2 = netlist s1"
    by blast
  then show ?thesis unfolding s0_def by (auto simp: s' aceita_campos)
qed

text \<open>
  The element that the stamp of line \<open>i\<close> leaves in the netlist is still there when all
  the stamps are mounted, and the stamp of line \<open>i\<close> meets the element that the netlist
  had at the start.
\<close>

lemma upt_parte:
  assumes "1 \<le> i" "i \<le> n"
  shows "[1..<Suc n] = [1..<i] @ i # [Suc i..<Suc n]"
proof -
  have "[1..<Suc n] = [1..<i] @ [i..<Suc n]"
    using assms upt_add_eq_append [of 1 i "Suc n - i"] by simp
  also have "[i..<Suc n] = i # [Suc i..<Suc n]"
    using assms by (simp add: upt_conv_Cons)
  finally show ?thesis .
qed

lemma monta_parte:
  assumes "1 \<le> i" "i \<le> ne s"
  shows "monta_estampas s
    = fold estampa [Suc i..<Suc (ne s)] (estampa i (fold estampa [1..<i] s))"
  unfolding monta_estampas_def upt_parte [OF assms] by simp

lemma rede_monta:
  assumes "1 \<le> i" "i \<le> ne s"
  shows "netlist (monta_estampas s) i = netlist (estampa i (fold estampa [1..<i] s)) i"
    and "netlist (fold estampa [1..<i] s) i = netlist s i"
    and "apaga (fold estampa [1..<i] s) = apaga s"
  unfolding monta_parte [OF assms]
  by (simp_all add: rede_fold_outro apaga_fold)

subsection \<open>The source voltage of a capacitor over a time step\<close>

text \<open>
  The source voltage that the stamp of a capacitor stores on the first iteration of a
  step, from the state at the head of the step.
\<close>

definition veq_novo :: "estado \<Rightarrow> elemento \<Rightarrow> real" where
  "veq_novo s e =
     (if var_n s = 0 then p2 e
      else et s (el_a e) - et s (el_b e)
           + 2 * p1 e / dta s * (et s (el_a e) - et s (el_b e) - p3 e) / (2 * p1 e / dt s))"

lemma veq_estampa:
  assumes "3 \<le> metodo s" "primeira s" "tipo_de (netlist s i) = CHR ''C''"
  shows "p3 (netlist (estampa i s) i) = veq_novo s (netlist s i)"
  using assms by (simp add: estampa_def estampa_C_def Let_def veq_novo_def)

lemma veq_monta:
  assumes "3 \<le> metodo s" "primeira s" "tipo_de (netlist s i) = CHR ''C''" "1 \<le> i" "i \<le> ne s"
  shows "p3 (netlist (monta_estampas s) i) = veq_novo s (netlist s i)"
proof -
  define sB where "sB = fold estampa [1..<i] s"
  note r = rede_monta [OF assms(4,5), folded sB_def]
  note f = apaga_campos [OF r(3)] apaga_campos_passo [OF r(3)]
  have "p3 (netlist (estampa i sB) i) = veq_novo sB (netlist sB i)"
    using assms(1-3) f r(2) by (intro veq_estampa) simp_all
  also have "\<dots> = veq_novo s (netlist s i)"
    using f r(2) by (simp add: veq_novo_def)
  finally show ?thesis using r(1) by simp
qed

lemma veq_passo:
  assumes "3 \<le> metodo s" "tipo_de (netlist s i) = CHR ''C''" "1 \<le> i" "i \<le> ne s"
    and "passo_tempo s = Inr s'"
  shows "p3 (netlist s' i) = veq_novo s (netlist s i)"
proof -
  define s0 where "s0 = s\<lparr>iteracoes := 0, reinicios := 0, primeira := True\<rparr>"
  from rede_passo [OF assms(5)] obtain s1 where it: "iteracao s0 = Inr s1"
    and n: "netlist s' = netlist s1" unfolding s0_def by blast
  define sz where "sz = s0\<lparr>Yn := zera (nv s0) (Yn s0)\<rparr>"
  have "netlist s1 = netlist (monta_estampas sz)"
    using iteracao_efeito(6) [OF it] by (simp add: sz_def)
  moreover have "p3 (netlist (monta_estampas sz) i) = veq_novo sz (netlist sz i)"
    using assms(1-4) by (intro veq_monta) (simp_all add: sz_def s0_def)
  moreover have "veq_novo sz (netlist sz i) = veq_novo s (netlist s i)"
    by (simp add: veq_novo_def sz_def s0_def)
  ultimately show ?thesis using n by simp
qed

text \<open>
  The value of \<open>p3\<close> of element \<open>i\<close>, and the form \<open>v_prev + i_prev dt_prev / (2 C)\<close> on
  the state at the head of a step.
\<close>

definition veq :: "nat \<Rightarrow> estado \<Rightarrow> real" where
  "veq i s = p3 (netlist s i)"

definition veq_passo_anterior :: "nat \<Rightarrow> estado \<Rightarrow> real" where
  "veq_passo_anterior i s =
     (let e = netlist s i; vprev = et s (el_a e) - et s (el_b e);
          iprev = 2 * p1 e / dta s * (vprev - p3 e)
      in vprev + iprev * dta s / (2 * p1 e))"

subsection \<open>The entries that a stamp leaves alone\<close>


lemma atribuicoes_fora:
  "(\<forall>p \<in> set ps. fst p \<noteq> r \<or> fst (snd p) \<noteq> c) \<Longrightarrow> atribuicoes ps Y r c = Y r c"
  by (induction ps arbitrary: Y) (auto simp: atribui_apply)




























subsection \<open>The entries that the stamp of H writes\<close>


subsection \<open>The array in memory and the model\<close>

lemma celula_inj:
  assumes "c < MAX_NOS" "c' < MAX_NOS"
  shows "celula r c = celula r' c' \<longleftrightarrow> r = r' \<and> c = c'"
proof
  assume h: "celula r c = celula r' c'"
  have "(r * MAX_NOS + c) div MAX_NOS = r" "(r' * MAX_NOS + c') div MAX_NOS = r'"
    using assms by simp_all
  with h have "r = r'" unfolding celula_def by metis
  with h show "r = r' \<and> c = c'" by (simp add: celula_def)
qed simp

lemma soma_mem_le:
  assumes "c0 < MAX_NOS" "c < MAX_NOS"
  shows "le_Yn (soma_mem m r0 c0 v) r c = soma (le_Yn m) r0 c0 v r c"
  using celula_inj [OF assms(2,1), of r r0]
  by (auto simp: le_Yn_def soma_mem_def soma_apply)

lemma transcondutancia_mem_le:
  assumes "noc < MAX_NOS" "nod < MAX_NOS" "c < MAX_NOS"
  shows "le_Yn (transcondutancia_mem noa nob noc nod gg m) r c
    = transcondutancia noa nob noc nod gg (le_Yn m) r c"
  using assms
  by (simp add: transcondutancia_mem_def transcondutancia_def Let_def soma_mem_le soma_apply)

lemma fonte_mem_le:
  assumes "nvv + 1 < MAX_NOS" "c < MAX_NOS"
  shows "le_Yn (fonte_mem nvv noa nob ii m) r c = fonte nvv noa nob ii (le_Yn m) r c"
  using assms
  by (simp add: fonte_mem_def fonte_def Let_def soma_mem_le soma_apply)

text \<open>With 49 unknowns the right-hand side of row \<open>r\<close> is the ground column of row \<open>r + 1\<close>.\<close>

lemma celula_49: "celula r (49 + 1) = celula (Suc r) 0"
  by (simp add: celula_def MAX_NOS_def)

subsection \<open>Reading a run\<close>

text \<open>A field of the state that a run returns, or its error.\<close>

definition observa :: "(estado \<Rightarrow> 'a) \<Rightarrow> erro + estado \<Rightarrow> erro + 'a" where
  "observa f r = (case r of Inl e \<Rightarrow> Inl e | Inr s \<Rightarrow> Inr (f s))"

section \<open>The properties\<close>

subsection \<open>The pivot step of the two solvers\<close>

text \<open>
  C2 (amended). For a pivot column \<open>i\<close> of 1..nv, both solvers select as pivot row the
  first row \<open>a\<close> of \<open>i..nv\<close> where \<open>|Y[l][i]|\<close> is greatest, with \<open>tt = Y[a][i]\<close>, and
  exchange rows \<open>i\<close> and \<open>a\<close> in columns 1..nv+1. \<open>resolversistema\<close> (MNA3.c) fails, with
  the pivot and the time in its message, exactly when \<open>|tt| < 1e-12\<close>; otherwise it
  divides the whole pivot row by \<open>tt\<close>, leaves 1 on the diagonal, clears column \<open>i\<close> in
  every other row of 1..nv and subtracts the multiple of the pivot row in the columns
  right of \<open>i\<close>. \<open>GaussJordan\<close> (MnaFunctions.cpp) fails, with a bare message, exactly
  when \<open>|tt| < 1e-9\<close>; otherwise it does the same in the columns right of \<open>i\<close> only and
  leaves columns up to \<open>i\<close> as they were.
\<close>

theorem pivot_step:
  "1 \<le> i \<Longrightarrow> i \<le> nvv \<Longrightarrow>
   (let a = fst (pivot Y nvv i); tt = snd (pivot Y nvv i); S = troca nvv i a Y in
      (i \<le> a \<and> a \<le> nvv \<and> tt = Y a i
       \<and> (\<forall>l. i \<le> l \<and> l \<le> nvv \<longrightarrow> \<bar>Y l i\<bar> \<le> \<bar>tt\<bar>)
       \<and> (\<forall>l. i \<le> l \<and> l < a \<longrightarrow> \<bar>Y l i\<bar> < \<bar>tt\<bar>))
    \<and> (\<forall>c. 1 \<le> c \<and> c \<le> nvv + 1 \<longrightarrow> S i c = Y a c \<and> S a c = Y i c)
    \<and> (\<forall>r c. r \<noteq> i \<and> r \<noteq> a \<longrightarrow> S r c = Y r c)
    \<and> (\<bar>tt\<bar> < 1 / 10 ^ 12 \<longrightarrow> passo_pivot nvv t i Y = Inl (SistemaSingular tt t))
    \<and> (\<not> \<bar>tt\<bar> < 1 / 10 ^ 12 \<longrightarrow>
          (\<exists>Y'. passo_pivot nvv t i Y = Inr Y'
             \<and> (\<forall>c. 1 \<le> c \<and> c \<le> nvv + 1 \<longrightarrow> Y' i c = S i c / tt)
             \<and> Y' i i = 1
             \<and> (\<forall>l. 1 \<le> l \<and> l \<le> nvv \<and> l \<noteq> i \<longrightarrow> Y' l i = 0)
             \<and> (\<forall>l c. 1 \<le> l \<and> l \<le> nvv \<and> l \<noteq> i \<and> i < c \<and> c \<le> nvv + 1 \<longrightarrow>
                    Y' l c = S l c - S l i * (S i c / tt))))
    \<and> (\<bar>tt\<bar> < 1 / 10 ^ 9 \<longrightarrow> passo_GaussJordan nvv i Y = Inl SistemaSingularMna)
    \<and> (\<not> \<bar>tt\<bar> < 1 / 10 ^ 9 \<longrightarrow>
          (\<exists>Y'. passo_GaussJordan nvv i Y = Inr Y'
             \<and> (\<forall>c. i < c \<and> c \<le> nvv + 1 \<longrightarrow> Y' i c = S i c / tt)
             \<and> (\<forall>l c. 1 \<le> l \<and> l \<le> nvv \<and> l \<noteq> i \<and> i < c \<and> c \<le> nvv + 1 \<longrightarrow>
                    Y' l c = S l c - S l i * (S i c / tt))
             \<and> (\<forall>r c. c \<le> i \<longrightarrow> Y' r c = S r c))))"
proof -
  assume i1: "1 \<le> i" and i2: "i \<le> nvv"
  define a where "a = fst (pivot Y nvv i)"
  define tt where "tt = snd (pivot Y nvv i)"
  define S where "S = troca nvv i a Y"
  note ps = pivot_spec [OF i2, of Y, folded a_def tt_def]
  have p1: "i \<le> a \<and> a \<le> nvv \<and> tt = Y a i
       \<and> (\<forall>l. i \<le> l \<and> l \<le> nvv \<longrightarrow> \<bar>Y l i\<bar> \<le> \<bar>tt\<bar>)
       \<and> (\<forall>l. i \<le> l \<and> l < a \<longrightarrow> \<bar>Y l i\<bar> < \<bar>tt\<bar>)"
    using ps by simp
  have p2: "\<forall>c. 1 \<le> c \<and> c \<le> nvv + 1 \<longrightarrow> S i c = Y a c \<and> S a c = Y i c"
    by (simp add: S_def troca_spec)
  have p3: "\<forall>r c. r \<noteq> i \<and> r \<noteq> a \<longrightarrow> S r c = Y r c"
    by (simp add: S_def troca_spec)
  have Sii: "S i i = tt"
    using p2 i1 i2 ps(3) by simp
  have p4: "\<bar>tt\<bar> < 1 / 10 ^ 12 \<longrightarrow> passo_pivot nvv t i Y = Inl (SistemaSingular tt t)"
    by (simp add: passo_pivot_def Let_def TOLG_def tt_def)
  have p5: "\<not> \<bar>tt\<bar> < 1 / 10 ^ 12 \<longrightarrow>
          (\<exists>Y'. passo_pivot nvv t i Y = Inr Y'
             \<and> (\<forall>c. 1 \<le> c \<and> c \<le> nvv + 1 \<longrightarrow> Y' i c = S i c / tt)
             \<and> Y' i i = 1
             \<and> (\<forall>l. 1 \<le> l \<and> l \<le> nvv \<and> l \<noteq> i \<longrightarrow> Y' l i = 0)
             \<and> (\<forall>l c. 1 \<le> l \<and> l \<le> nvv \<and> l \<noteq> i \<and> i < c \<and> c \<le> nvv + 1 \<longrightarrow>
                    Y' l c = S l c - S l i * (S i c / tt)))"
  proof
    assume big: "\<not> \<bar>tt\<bar> < 1 / 10 ^ 12"
    then have nz: "tt \<noteq> 0" by auto
    have r: "passo_pivot nvv t i Y = Inr (normaliza_fechada 1 nvv i tt S)"
      using big i2
      by (simp add: passo_pivot_def Let_def TOLG_def tt_def [symmetric] a_def [symmetric]
            S_def [symmetric] normaliza_eq)
    show "\<exists>Y'. passo_pivot nvv t i Y = Inr Y'
             \<and> (\<forall>c. 1 \<le> c \<and> c \<le> nvv + 1 \<longrightarrow> Y' i c = S i c / tt)
             \<and> Y' i i = 1
             \<and> (\<forall>l. 1 \<le> l \<and> l \<le> nvv \<and> l \<noteq> i \<longrightarrow> Y' l i = 0)
             \<and> (\<forall>l c. 1 \<le> l \<and> l \<le> nvv \<and> l \<noteq> i \<and> i < c \<and> c \<le> nvv + 1 \<longrightarrow>
                    Y' l c = S l c - S l i * (S i c / tt))"
      unfolding r using i1 i2 nz Sii
      by (auto simp: normaliza_fechada_def)
  qed
  have p6: "\<bar>tt\<bar> < 1 / 10 ^ 9 \<longrightarrow> passo_GaussJordan nvv i Y = Inl SistemaSingularMna"
    by (simp add: passo_GaussJordan_def Let_def tt_def)
  have p7: "\<not> \<bar>tt\<bar> < 1 / 10 ^ 9 \<longrightarrow>
          (\<exists>Y'. passo_GaussJordan nvv i Y = Inr Y'
             \<and> (\<forall>c. i < c \<and> c \<le> nvv + 1 \<longrightarrow> Y' i c = S i c / tt)
             \<and> (\<forall>l c. 1 \<le> l \<and> l \<le> nvv \<and> l \<noteq> i \<and> i < c \<and> c \<le> nvv + 1 \<longrightarrow>
                    Y' l c = S l c - S l i * (S i c / tt))
             \<and> (\<forall>r c. c \<le> i \<longrightarrow> Y' r c = S r c))"
  proof
    assume big: "\<not> \<bar>tt\<bar> < 1 / 10 ^ 9"
    have r: "passo_GaussJordan nvv i Y = Inr (normaliza_fechada (Suc i) nvv i tt S)"
      using big i2 GaussJordan_fold [OF i2, of tt S]
      by (simp add: passo_GaussJordan_def Let_def tt_def [symmetric] a_def [symmetric]
            S_def [symmetric] del: upt_Suc)
    show "\<exists>Y'. passo_GaussJordan nvv i Y = Inr Y'
             \<and> (\<forall>c. i < c \<and> c \<le> nvv + 1 \<longrightarrow> Y' i c = S i c / tt)
             \<and> (\<forall>l c. 1 \<le> l \<and> l \<le> nvv \<and> l \<noteq> i \<and> i < c \<and> c \<le> nvv + 1 \<longrightarrow>
                    Y' l c = S l c - S l i * (S i c / tt))
             \<and> (\<forall>r c. c \<le> i \<longrightarrow> Y' r c = S r c)"
      unfolding r using i1 i2
      by (auto simp: normaliza_fechada_def)
  qed
  show ?thesis
    unfolding Let_def a_def [symmetric] tt_def [symmetric] S_def [symmetric]
    using p1 p2 p3 p4 p5 p6 p7 by blast
qed

text \<open>The system \<open>x2 = 2\<close>, \<open>2 x1 = 4\<close>: the pivot of column 1 is in row 2.\<close>

definition Yex :: sistema where
  "Yex = atribuicoes [(1, 2, 1), (1, 3, 2), (2, 1, 2), (2, 3, 4)] (\<lambda>r c. 0)"

theorem pivot_step_witness:
  "fst (pivot Yex 2 1) = 2 \<and> snd (pivot Yex 2 1) = 2
   \<and> (\<exists>Y'. passo_pivot 2 0 1 Yex = Inr Y' \<and> Y' 1 1 = 1 \<and> Y' 2 1 = 0 \<and> Y' 1 3 = 2 \<and> Y' 2 3 = 2)
   \<and> (\<exists>Y'. passo_GaussJordan 2 1 Yex = Inr Y' \<and> Y' 1 1 = 2 \<and> Y' 2 1 = 0 \<and> Y' 1 3 = 2 \<and> Y' 2 3 = 2)"
proof -
  have p: "pivot Yex 2 1 = (2, 2)"
    by (simp add: pivot_def busca_def Yex_def atribui_def upt_rec)
  have s: "troca 2 1 2 Yex 1 1 = 2" "troca 2 1 2 Yex 1 3 = 4"
    "troca 2 1 2 Yex 2 1 = 0" "troca 2 1 2 Yex 2 3 = 2"
    by (simp_all add: troca_spec Yex_def atribui_def)
  have h: "(1::nat) \<le> 1" "(1::nat) \<le> 2" by simp_all
  note st = pivot_step [OF h, of Yex 0, unfolded Let_def p fst_conv snd_conv]
  have big: "\<not> \<bar>2::real\<bar> < 1 / 10 ^ 12" "\<not> \<bar>2::real\<bar> < 1 / 10 ^ 9" by simp_all
  from st big(1) obtain Y1 where Y1: "passo_pivot 2 0 1 Yex = Inr Y1"
    and r1: "\<forall>c. 1 \<le> c \<and> c \<le> 2 + 1 \<longrightarrow> Y1 1 c = troca 2 1 2 Yex 1 c / 2"
    and d1: "Y1 1 1 = 1"
    and z1: "\<forall>l. 1 \<le> l \<and> l \<le> 2 \<and> l \<noteq> 1 \<longrightarrow> Y1 l 1 = 0"
    and e1: "\<forall>l c. 1 \<le> l \<and> l \<le> 2 \<and> l \<noteq> 1 \<and> 1 < c \<and> c \<le> 2 + 1 \<longrightarrow>
                Y1 l c = troca 2 1 2 Yex l c - troca 2 1 2 Yex l 1 * (troca 2 1 2 Yex 1 c / 2)"
    by blast
  have c1: "Y1 2 1 = 0" "Y1 1 3 = 2" "Y1 2 3 = 2"
    using z1 [rule_format, of 2] r1 [rule_format, of 3] e1 [rule_format, of 2 3] s by simp_all
  from st big(2) obtain Y2 where Y2: "passo_GaussJordan 2 1 Yex = Inr Y2"
    and r2: "\<forall>c. 1 < c \<and> c \<le> 2 + 1 \<longrightarrow> Y2 1 c = troca 2 1 2 Yex 1 c / 2"
    and e2: "\<forall>l c. 1 \<le> l \<and> l \<le> 2 \<and> l \<noteq> 1 \<and> 1 < c \<and> c \<le> 2 + 1 \<longrightarrow>
                Y2 l c = troca 2 1 2 Yex l c - troca 2 1 2 Yex l 1 * (troca 2 1 2 Yex 1 c / 2)"
    and k2: "\<forall>r c. c \<le> 1 \<longrightarrow> Y2 r c = troca 2 1 2 Yex r c"
    by blast
  have c2: "Y2 1 1 = 2" "Y2 2 1 = 0" "Y2 1 3 = 2" "Y2 2 3 = 2"
    using k2 [rule_format, of 1 1] k2 [rule_format, of 1 2]
      r2 [rule_format, of 3] e2 [rule_format, of 2 3] s by simp_all
  show ?thesis
    using p Y1 d1 c1 Y2 c2 by simp
qed

text \<open>
  A pivot of \<open>1e-10\<close> is not below \<open>1e-12\<close>, and \<open>GaussJordan\<close> stops on it.
\<close>

theorem solver_threshold_counterexample:
  "GaussJordan (\<lambda>r c. 1 / 10 ^ 10) (\<lambda>i. 1) (\<lambda>i. 0) 1 = Inl SistemaSingularMna
   \<and> snd (pivot (monta_AB 1 (\<lambda>r c. 1 / 10 ^ 10) (\<lambda>i. 1)) 1 1) = 1 / 10 ^ 10
   \<and> \<not> \<bar>1 / 10 ^ 10 :: real\<bar> < 1 / 10 ^ 12"
  by (simp add: GaussJordan_def passo_GaussJordan_def pivot_def busca_def monta_AB_def Let_def)

subsection \<open>The capacitor under the forward Euler method\<close>

text \<open>
  C10. With \<open>metodo = 2\<close> (forward Euler) the stamp of a capacitor is the backward Euler
  one: the conductance \<open>g = C / dt\<close> between \<open>a\<close> and \<open>b\<close> and the current source
  \<open>g v\<close> from \<open>b\<close> to \<open>a\<close>, where \<open>v\<close> is the initial condition at \<open>n = 0\<close> and the voltage
  of the last accepted solution otherwise. It is the stamp computed with \<open>metodo = 1\<close>.
\<close>

theorem capacitor_FE_BE:
  "(let g = p1 e / dt s;
        vprev = (if var_n s = 0 then p2 e else et s (el_a e) - et s (el_b e))
    in estampa_C i e (s\<lparr>metodo := 2\<rparr>)
         = s\<lparr>metodo := 2,
              Yn := fonte (nv s) (el_b e) (el_a e) (g * vprev)
                      (condutancia (el_a e) (el_b e) g (Yn s)),
              var_g := g * vprev\<rparr>
       \<and> estampa_C i e (s\<lparr>metodo := 2\<rparr>) = (estampa_C i e (s\<lparr>metodo := 1\<rparr>))\<lparr>metodo := 2\<rparr>
       \<and> (tipo_de (netlist s i) = CHR ''C'' \<longrightarrow>
            estampa i (s\<lparr>metodo := 2\<rparr>) = estampa_C i (netlist s i) (s\<lparr>metodo := 2\<rparr>))
       \<and> (el_a e \<noteq> el_b e \<and> el_a e \<le> nv s \<and> el_b e \<le> nv s \<longrightarrow>
            Yn (estampa_C i e (s\<lparr>metodo := 2\<rparr>)) (el_a e) (el_a e) = Yn s (el_a e) (el_a e) + g
            \<and> Yn (estampa_C i e (s\<lparr>metodo := 2\<rparr>)) (el_a e) (el_b e) = Yn s (el_a e) (el_b e) - g
            \<and> Yn (estampa_C i e (s\<lparr>metodo := 2\<rparr>)) (el_a e) (nv s + 1)
                = Yn s (el_a e) (nv s + 1) + g * vprev
            \<and> Yn (estampa_C i e (s\<lparr>metodo := 2\<rparr>)) (el_b e) (nv s + 1)
                = Yn s (el_b e) (nv s + 1) - g * vprev))"
  by (simp add: estampa_C_def Let_def estampa_def fonte_apply condutancia_def
        transcondutancia_apply)

text \<open>\<open>C1 1 0 1 IC=3\<close> at step 0 with \<open>dt = 1/2\<close>.\<close>

definition elemento_C :: elemento where
  "elemento_C = elemento_zero\<lparr>nome := ''C1'', p1 := 1, p2 := 3, el_a := 1\<rparr>"

definition estado_C :: estado where
  "estado_C = (carrega (\<lambda>i. elemento_C) 1 1 1 1 1 (\<lambda>k. 0) 1)\<lparr>dt := 1 / 2\<rparr>"

theorem capacitor_FE_BE_witness:
  "estampa 1 (estado_C\<lparr>metodo := 2\<rparr>) = estampa_C 1 elemento_C (estado_C\<lparr>metodo := 2\<rparr>)
   \<and> Yn (estampa_C 1 elemento_C (estado_C\<lparr>metodo := 2\<rparr>)) 1 1 = 2
   \<and> Yn (estampa_C 1 elemento_C (estado_C\<lparr>metodo := 2\<rparr>)) 1 2 = 6"
proof -
  have f: "netlist estado_C (Suc 0) = elemento_C" "nv estado_C = Suc 0" "dt estado_C = 1 / 2"
    "var_n estado_C = 0" "Yn estado_C = (\<lambda>r c. 0)"
    by (simp_all add: estado_C_def carrega_def)
  have e: "tipo_de elemento_C = CHR ''C''" "el_a elemento_C = Suc 0" "el_b elemento_C = 0"
    "p1 elemento_C = 1" "p2 elemento_C = 3"
    by (simp_all add: elemento_C_def tipo_de_def elemento_zero_def)
  show ?thesis
    using capacitor_FE_BE [of elemento_C estado_C 1]
    by (simp add: f e Let_def fonte_apply condutancia_def transcondutancia_apply)
qed

subsection \<open>Circuits with no nonlinear element\<close>

text \<open>
  C5. The reader sets \<open>nao_linear\<close> exactly when the netlist holds a diode, a MOS or a
  bipolar transistor. When \<open>nao_linear\<close> is not set the Newton loop is one iteration (one
  assembly of the stamps and one solve), whatever \<open>erro_max\<close> it leaves, be it an error or
  a state; a time step that returns has counted one iteration and no restart; and in the
  run of such a circuit every time step is of this kind: after \<open>k\<close> steps \<open>nao_linear\<close> is
  still not set, the largest count of iterations of a step is 1 (0 before the first step)
  and no restart has happened.
\<close>

theorem circuito_linear:
  "(nao_linear (carrega nl nel nvv T P S rnd rmax) \<longleftrightarrow>
      (\<exists>i. 1 \<le> i \<and> i \<le> nel
         \<and> (tipo_de (nl i) = CHR ''D'' \<or> tipo_de (nl i) = CHR ''M''
              \<or> tipo_de (nl i) = CHR ''Q'')))
   \<and> (\<not> nao_linear s \<longrightarrow> newton s = iteracao s)
   \<and> (\<not> nao_linear s \<and> passo_tempo s = Inr s' \<longrightarrow>
        (\<exists>s1. iteracao (s\<lparr>iteracoes := 0, reinicios := 0, primeira := True\<rparr>) = Inr s1
           \<and> s' = (aceita s1)\<lparr>var_n := var_n s1 + 1\<rparr>)
        \<and> iteracoes s' = 1 \<and> reinicios s' = 0 \<and> randomizacoes s' = randomizacoes s)
   \<and> (\<not> nao_linear (carrega nl nel nvv T P S rnd rmax)
        \<and> laco k (prepara (carrega nl nel nvv T P S rnd rmax)) = Inr sk \<longrightarrow>
        \<not> nao_linear sk \<and> max_iter sk = (if k = 0 then 0 else 1)
        \<and> max_reinicios sk = 0 \<and> randomizacoes sk = 0)"
proof -
  have a: "nao_linear (carrega nl nel nvv T P S rnd rmax) \<longleftrightarrow>
      (\<exists>i. 1 \<le> i \<and> i \<le> nel
         \<and> (tipo_de (nl i) = CHR ''D'' \<or> tipo_de (nl i) = CHR ''M''
              \<or> tipo_de (nl i) = CHR ''Q''))"
    using tem_nao_linear_iff by (simp add: carrega_def)
  have b: "\<not> nao_linear s \<longrightarrow> newton s = iteracao s"
    using newton_linear by blast
  have c: "\<not> nao_linear s \<and> passo_tempo s = Inr s' \<longrightarrow>
        (\<exists>s1. iteracao (s\<lparr>iteracoes := 0, reinicios := 0, primeira := True\<rparr>) = Inr s1
           \<and> s' = (aceita s1)\<lparr>var_n := var_n s1 + 1\<rparr>)
        \<and> iteracoes s' = 1 \<and> reinicios s' = 0 \<and> randomizacoes s' = randomizacoes s"
  proof
    assume h: "\<not> nao_linear s \<and> passo_tempo s = Inr s'"
    then obtain s1 where
      it: "iteracao (s\<lparr>iteracoes := 0, reinicios := 0, primeira := True\<rparr>) = Inr s1"
      and r: "iteracoes s1 = 1" "reinicios s1 = 0" "randomizacoes s1 = randomizacoes s"
      and s': "s' = (aceita s1)\<lparr>var_n := var_n s1 + 1\<rparr>"
      using passo_linear by blast
    have "iteracoes s' = 1 \<and> reinicios s' = 0 \<and> randomizacoes s' = randomizacoes s"
      using r by (simp add: s' aceita_contadores aceita_campos)
    then show "(\<exists>s1. iteracao (s\<lparr>iteracoes := 0, reinicios := 0, primeira := True\<rparr>) = Inr s1
           \<and> s' = (aceita s1)\<lparr>var_n := var_n s1 + 1\<rparr>)
        \<and> iteracoes s' = 1 \<and> reinicios s' = 0 \<and> randomizacoes s' = randomizacoes s"
      using it s' by blast
  qed
  have d: "\<not> nao_linear (carrega nl nel nvv T P S rnd rmax)
        \<and> laco k (prepara (carrega nl nel nvv T P S rnd rmax)) = Inr sk \<longrightarrow>
        \<not> nao_linear sk \<and> max_iter sk = (if k = 0 then 0 else 1)
        \<and> max_reinicios sk = 0 \<and> randomizacoes sk = 0"
  proof
    define s0 where "s0 = carrega nl nel nvv T P S rnd rmax"
    assume "\<not> nao_linear (carrega nl nel nvv T P S rnd rmax)
        \<and> laco k (prepara (carrega nl nel nvv T P S rnd rmax)) = Inr sk"
    then have h: "\<not> nao_linear s0" "laco k (prepara s0) = Inr sk"
      by (simp_all add: s0_def)
    have "uma_iteracao (prepara s0)"
      using h(1) by (simp add: uma_iteracao_def prepara_def Let_def)
    then have "uma_iteracao sk" using uma_iteracao_laco h(2) by blast
    moreover have "var_n sk = k" using laco_var_n [OF h(2)]
      by (simp add: prepara_def Let_def)
    ultimately show "\<not> nao_linear sk \<and> max_iter sk = (if k = 0 then 0 else 1)
        \<and> max_reinicios sk = 0 \<and> randomizacoes sk = 0"
      by (simp add: uma_iteracao_def)
  qed
  from a b c d show ?thesis by blast
qed

theorem circuito_linear_witness:
  "\<not> nao_linear (carrega circuito_IC 2 1 1 1 1 (\<lambda>k. 0) 1)
   \<and> tipo_de (circuito_IC 1) = CHR ''I'' \<and> tipo_de (circuito_IC 2) = CHR ''C''
   \<and> newton inicio_IC = iteracao inicio_IC
   \<and> observa iteracoes (passo_tempo inicio_IC) = Inr 1
   \<and> observa reinicios (passo_tempo inicio_IC) = Inr 0
   \<and> observa max_iter (laco 2 (prepara (carrega circuito_IC 2 1 1 1 1 (\<lambda>k. 0) 1))) = Inr 1
   \<and> observa randomizacoes (laco 2 (prepara (carrega circuito_IC 2 1 1 1 1 (\<lambda>k. 0) 1)))
       = Inr 0"
proof -
  define s0 where "s0 = carrega circuito_IC 2 1 1 1 1 (\<lambda>k. 0) 1"
  have i0: "prepara s0 = inicio_IC" by (simp add: inicio_IC_def s0_def)
  have t: "tipo_de (circuito_IC 1) = CHR ''I''" "tipo_de (circuito_IC 2) = CHR ''C''"
    using tipo_I1 by (simp_all add: circuito_IC_def elemento_C1_def elemento_zero_def tipo_de_def)
  have "\<not> (\<exists>i. 1 \<le> i \<and> i \<le> (2::nat)
         \<and> (tipo_de (circuito_IC i) = CHR ''D'' \<or> tipo_de (circuito_IC i) = CHR ''M''
              \<or> tipo_de (circuito_IC i) = CHR ''Q''))"
  proof
    assume "\<exists>i. 1 \<le> i \<and> i \<le> (2::nat)
         \<and> (tipo_de (circuito_IC i) = CHR ''D'' \<or> tipo_de (circuito_IC i) = CHR ''M''
              \<or> tipo_de (circuito_IC i) = CHR ''Q'')"
    then obtain i where i: "1 \<le> i" "i \<le> 2"
      "tipo_de (circuito_IC i) = CHR ''D'' \<or> tipo_de (circuito_IC i) = CHR ''M''
         \<or> tipo_de (circuito_IC i) = CHR ''Q''" by blast
    then have "i = 1 \<or> i = 2" by arith
    then show False using i(3) t by auto
  qed
  note ex = this
  from passo1_IC obtain s1 s2 where
    p: "passo_tempo inicio_IC = Inr s1" "passo_tempo s1 = Inr s2" by blast
  have l: "laco 2 inicio_IC = Inr s2"
    using p by (simp add: numeral_2_eq_2)
  note th = circuito_linear [of circuito_IC 2 1 1 1 1 "\<lambda>k. 0" 1 inicio_IC s1 2 s2,
      unfolded s0_def [symmetric] i0]
  have lin0: "\<not> nao_linear s0" using th ex by blast
  have lin: "\<not> nao_linear inicio_IC" using inicio_IC_campos(1) by (simp add: circ_def)
  have a: "newton inicio_IC = iteracao inicio_IC" "iteracoes s1 = 1" "reinicios s1 = 0"
    "max_iter s2 = 1" "randomizacoes s2 = 0"
    using th lin lin0 p(1) l by simp_all
  show ?thesis
    unfolding s0_def [symmetric] i0 l p observa_def
    using a lin0 t by simp
qed

subsection \<open>The restart of the Newton loop\<close>

text \<open>
  C4. An iteration of the Newton loop that returns has, when the count of iterations
  it reaches is above 20 and at most 10 restarts were counted in the step, counted one
  more restart, cleared the count of iterations and drawn each of the unknowns
  \<open>en[1..nv]\<close> as \<open>rand() / RAND_MAX * 10 - 5\<close> from the next \<open>nv\<close> values of \<open>rand\<close>, which
  lies between \<open>-5\<close> and \<open>5\<close> when \<open>rand\<close> stays between 0 and a positive \<open>RAND_MAX\<close>.
  Otherwise (20 iterations or fewer, or more than 10 restarts) it has drawn nothing: the
  count of iterations is one more, the count of restarts is the same, and \<open>en[1..nv]\<close> is
  the solution of the system. A time step that returns has counted at most 11 restarts
  and drawn \<open>nv\<close> values for each of them.
\<close>

theorem reinicio_newton:
  "(iteracao s = Inr s' \<longrightarrow>
      (20 < iteracoes s + 1 \<and> reinicios s \<le> 10 \<longrightarrow>
         iteracoes s' = 0 \<and> reinicios s' = reinicios s + 1
         \<and> rand_pos s' = rand_pos s + nv s
         \<and> (\<forall>i. 1 \<le> i \<and> i \<le> nv s \<longrightarrow>
               en s' i = real (rand_seq s (rand_pos s + (i - 1))) / real (RAND_MAX s) * 10 - 5)
         \<and> ((\<forall>k. rand_seq s k \<le> RAND_MAX s) \<and> 0 < RAND_MAX s \<longrightarrow>
               (\<forall>i. 1 \<le> i \<and> i \<le> nv s \<longrightarrow> - 5 \<le> en s' i \<and> en s' i \<le> 5)))
      \<and> (\<not> (20 < iteracoes s + 1 \<and> reinicios s \<le> 10) \<longrightarrow>
           iteracoes s' = iteracoes s + 1 \<and> reinicios s' = reinicios s
           \<and> rand_pos s' = rand_pos s \<and> randomizacoes s' = randomizacoes s
           \<and> (\<forall>i. 1 \<le> i \<and> i \<le> nv s \<longrightarrow> en s' i = Yn s' i (nv s + 1))))
   \<and> (passo_tempo sa = Inr sb \<longrightarrow>
        reinicios sb \<le> 11 \<and> rand_pos sb = rand_pos sa + reinicios sb * nv sa)"
proof -
  have a: "iteracao s = Inr s' \<longrightarrow>
      (20 < iteracoes s + 1 \<and> reinicios s \<le> 10 \<longrightarrow>
         iteracoes s' = 0 \<and> reinicios s' = reinicios s + 1
         \<and> rand_pos s' = rand_pos s + nv s
         \<and> (\<forall>i. 1 \<le> i \<and> i \<le> nv s \<longrightarrow>
               en s' i = real (rand_seq s (rand_pos s + (i - 1))) / real (RAND_MAX s) * 10 - 5)
         \<and> ((\<forall>k. rand_seq s k \<le> RAND_MAX s) \<and> 0 < RAND_MAX s \<longrightarrow>
               (\<forall>i. 1 \<le> i \<and> i \<le> nv s \<longrightarrow> - 5 \<le> en s' i \<and> en s' i \<le> 5)))
      \<and> (\<not> (20 < iteracoes s + 1 \<and> reinicios s \<le> 10) \<longrightarrow>
           iteracoes s' = iteracoes s + 1 \<and> reinicios s' = reinicios s
           \<and> rand_pos s' = rand_pos s \<and> randomizacoes s' = randomizacoes s
           \<and> (\<forall>i. 1 \<le> i \<and> i \<le> nv s \<longrightarrow> en s' i = Yn s' i (nv s + 1)))"
  proof
    assume it: "iteracao s = Inr s'"
    have r: "20 < iteracoes s + 1 \<and> reinicios s \<le> 10 \<longrightarrow>
         iteracoes s' = 0 \<and> reinicios s' = reinicios s + 1
         \<and> rand_pos s' = rand_pos s + nv s
         \<and> (\<forall>i. 1 \<le> i \<and> i \<le> nv s \<longrightarrow>
               en s' i = real (rand_seq s (rand_pos s + (i - 1))) / real (RAND_MAX s) * 10 - 5)
         \<and> ((\<forall>k. rand_seq s k \<le> RAND_MAX s) \<and> 0 < RAND_MAX s \<longrightarrow>
               (\<forall>i. 1 \<le> i \<and> i \<le> nv s \<longrightarrow> - 5 \<le> en s' i \<and> en s' i \<le> 5))"
    proof
      assume re: "20 < iteracoes s + 1 \<and> reinicios s \<le> 10"
      note e = iteracao_efeito(1) [OF it re]
      have "(\<forall>k. rand_seq s k \<le> RAND_MAX s) \<and> 0 < RAND_MAX s \<longrightarrow>
               (\<forall>i. 1 \<le> i \<and> i \<le> nv s \<longrightarrow> - 5 \<le> en s' i \<and> en s' i \<le> 5)"
      proof (intro impI allI)
        fix i
        assume b: "(\<forall>k. rand_seq s k \<le> RAND_MAX s) \<and> 0 < RAND_MAX s"
          and i: "1 \<le> i \<and> i \<le> nv s"
        from e i have "en s' i
          = real (rand_seq s (rand_pos s + (i - 1))) / real (RAND_MAX s) * 10 - 5" by blast
        moreover from b have "rand_seq s (rand_pos s + (i - 1)) \<le> RAND_MAX s"
          "0 < RAND_MAX s" by blast+
        ultimately show "- 5 \<le> en s' i \<and> en s' i \<le> 5"
          using sorteio_limites by simp
      qed
      with e show "iteracoes s' = 0 \<and> reinicios s' = reinicios s + 1
         \<and> rand_pos s' = rand_pos s + nv s
         \<and> (\<forall>i. 1 \<le> i \<and> i \<le> nv s \<longrightarrow>
               en s' i = real (rand_seq s (rand_pos s + (i - 1))) / real (RAND_MAX s) * 10 - 5)
         \<and> ((\<forall>k. rand_seq s k \<le> RAND_MAX s) \<and> 0 < RAND_MAX s \<longrightarrow>
               (\<forall>i. 1 \<le> i \<and> i \<le> nv s \<longrightarrow> - 5 \<le> en s' i \<and> en s' i \<le> 5))"
        by blast
    qed
    have n: "\<not> (20 < iteracoes s + 1 \<and> reinicios s \<le> 10) \<longrightarrow>
           iteracoes s' = iteracoes s + 1 \<and> reinicios s' = reinicios s
           \<and> rand_pos s' = rand_pos s \<and> randomizacoes s' = randomizacoes s
           \<and> (\<forall>i. 1 \<le> i \<and> i \<le> nv s \<longrightarrow> en s' i = Yn s' i (nv s + 1))"
      using iteracao_efeito(2) [OF it] by blast
    from r n show "(20 < iteracoes s + 1 \<and> reinicios s \<le> 10 \<longrightarrow>
         iteracoes s' = 0 \<and> reinicios s' = reinicios s + 1
         \<and> rand_pos s' = rand_pos s + nv s
         \<and> (\<forall>i. 1 \<le> i \<and> i \<le> nv s \<longrightarrow>
               en s' i = real (rand_seq s (rand_pos s + (i - 1))) / real (RAND_MAX s) * 10 - 5)
         \<and> ((\<forall>k. rand_seq s k \<le> RAND_MAX s) \<and> 0 < RAND_MAX s \<longrightarrow>
               (\<forall>i. 1 \<le> i \<and> i \<le> nv s \<longrightarrow> - 5 \<le> en s' i \<and> en s' i \<le> 5)))
      \<and> (\<not> (20 < iteracoes s + 1 \<and> reinicios s \<le> 10) \<longrightarrow>
           iteracoes s' = iteracoes s + 1 \<and> reinicios s' = reinicios s
           \<and> rand_pos s' = rand_pos s \<and> randomizacoes s' = randomizacoes s
           \<and> (\<forall>i. 1 \<le> i \<and> i \<le> nv s \<longrightarrow> en s' i = Yn s' i (nv s + 1)))" ..
  qed
  have b: "passo_tempo sa = Inr sb \<longrightarrow>
        reinicios sb \<le> 11 \<and> rand_pos sb = rand_pos sa + reinicios sb * nv sa"
    using reinicios_passo by blast
  from a b show ?thesis ..
qed

theorem reinicio_newton_witness:
  "observa (\<lambda>s. en s 1) (iteracao (inicio_IC\<lparr>iteracoes := 20\<rparr>)) = Inr (- 5)
   \<and> observa iteracoes (iteracao (inicio_IC\<lparr>iteracoes := 20\<rparr>)) = Inr 0
   \<and> observa reinicios (iteracao (inicio_IC\<lparr>iteracoes := 20\<rparr>)) = Inr 1
   \<and> observa rand_pos (iteracao (inicio_IC\<lparr>iteracoes := 20\<rparr>)) = Inr 1
   \<and> observa iteracoes (iteracao (inicio_IC\<lparr>iteracoes := 20, reinicios := 11\<rparr>)) = Inr 21
   \<and> observa reinicios (iteracao (inicio_IC\<lparr>iteracoes := 20, reinicios := 11\<rparr>)) = Inr 11
   \<and> observa rand_pos (iteracao (inicio_IC\<lparr>iteracoes := 20, reinicios := 11\<rparr>)) = Inr 0
   \<and> observa rand_pos (passo_tempo inicio_IC) = Inr 0"
proof -
  note c = inicio_IC_campos
  have f: "rand_seq inicio_IC = (\<lambda>k. 0)" "RAND_MAX inicio_IC = 1" "rand_pos inicio_IC = 0"
    "nv inicio_IC = 1" "reinicios inicio_IC = 0"
    by (simp_all add: inicio_IC_def prepara_def carrega_def Let_def)
  define sa where "sa = inicio_IC\<lparr>iteracoes := 20\<rparr>"
  define sb where "sb = inicio_IC\<lparr>iteracoes := 20, reinicios := 11\<rparr>"
  have ca: "circ sa" "circ sb" using c(1) by (simp_all add: circ_def sa_def sb_def)
  have da: "0 < dt sa" "dt sa \<le> 2" "iteracoes sa < 100"
    "0 < dt sb" "dt sb \<le> 2" "iteracoes sb < 100"
    using c(2) by (simp_all add: sa_def sb_def)
  from iteracao_IC [OF ca(1) da(1-3)] obtain sa' where ia: "iteracao sa = Inr sa'" by blast
  from iteracao_IC [OF ca(2) da(4-6)] obtain sb' where ib: "iteracao sb = Inr sb'" by blast
  from passo0_IC obtain s1 where p: "passo_tempo inicio_IC = Inr s1" by blast
  have ha: "20 < iteracoes sa + 1 \<and> reinicios sa \<le> 10"
    "(\<forall>k. rand_seq sa k \<le> RAND_MAX sa) \<and> 0 < RAND_MAX sa"
    "rand_pos sa = 0" "nv sa = 1" "rand_seq sa 0 = 0" "RAND_MAX sa = 1" "reinicios sa = 0"
    using f by (simp_all add: sa_def)
  have hb: "\<not> (20 < iteracoes sb + 1 \<and> reinicios sb \<le> 10)"
    "rand_pos sb = 0" "iteracoes sb = 20" "reinicios sb = 11"
    using f by (simp_all add: sb_def)
  note ta = reinicio_newton [of sa sa' inicio_IC s1]
  note tb = reinicio_newton [of sb sb' inicio_IC s1]
  have ra: "iteracoes sa' = 0" "reinicios sa' = 1" "rand_pos sa' = 1" "en sa' 1 = - 5"
    "- 5 \<le> en sa' 1 \<and> en sa' 1 \<le> 5"
    using ta ia ha by simp_all
  have rb: "iteracoes sb' = 21" "reinicios sb' = 11" "rand_pos sb' = 0"
    using tb ib hb by simp_all
  have "reinicios s1 \<le> 11 \<and> rand_pos s1 = rand_pos inicio_IC + reinicios s1 * nv inicio_IC"
    using ta p by blast
  moreover have "reinicios s1 = 0"
  proof -
    have "\<not> nao_linear inicio_IC" using c(1) by (simp add: circ_def)
    from passo_linear [OF this p] obtain u where "reinicios u = 0"
      "s1 = (aceita u)\<lparr>var_n := var_n u + 1\<rparr>" by blast
    then show ?thesis by (simp add: aceita_contadores)
  qed
  ultimately have rp: "rand_pos s1 = 0" using f by simp
  note o = ia [unfolded sa_def] ib [unfolded sb_def]
  show ?thesis
    unfolding o p observa_def
    using ra rb rp by simp
qed

subsection \<open>The first step of integration\<close>

text \<open>
  C6 (amended). In MNA3.c the step size at the head of time step \<open>n\<close>, that is after \<open>n\<close>
  steps from the prepared state, is \<open>dt1 / 1000\<close> at \<open>n = 0\<close> and \<open>dt1\<close> at every other \<open>n\<close>,
  with \<open>dt1 = tempo / ntotal\<close>, where \<open>ntotal\<close> is the product \<open>npassos * npontos\<close> as a
  \<open>long\<close> holds it (the product itself when it is positive and below \<open>2^63\<close>) and is not
  zero; the Newton loop of the step does not change it. In Mna.cpp, with a positive
  \<open>Step\<close> and an \<open>Internal_Step\<close> that is not zero, the step of integration at the turn
  \<open>k\<close> of the loop on time is \<open>Step / Internal_Step / 10^9\<close> at \<open>k = 0\<close> and
  \<open>Step / Internal_Step\<close> at every other turn.
\<close>

theorem passo_atenuado:
  "(laco k (prepara s) = Inr s' \<and> 0 < npassos s * npontos s \<and> npassos s * npontos s < 2 ^ 63 \<longrightarrow>
      var_n s' = k
      \<and> ntotal s' = npassos s * npontos s
      \<and> dt1 s' = tempo s / real_of_int (npassos s * npontos s)
      \<and> dt s' = (if k = 0 then dt1 s' * (1 / 1000) else dt1 s'))
   \<and> (laco k (prepara s) = Inr s' \<and> em_long (npassos s * npontos s) \<noteq> 0 \<longrightarrow>
        var_n s' = k
        \<and> ntotal s' = em_long (npassos s * npontos s)
        \<and> dt1 s' = tempo s / real_of_int (em_long (npassos s * npontos s))
        \<and> dt s' = (if k = 0 then dt1 s' * (1 / 1000) else dt1 s'))
   \<and> (newton sa = Inr sb \<longrightarrow> dt sb = dt sa \<and> dt1 sb = dt1 sa \<and> var_n sb = var_n sa)
   \<and> (0 < Step \<and> Internal_Step \<noteq> 0 \<longrightarrow>
        snd (passo_mna Step Internal_Step k)
          = (if k = 0 then Step / Internal_Step / 10 ^ 9 else Step / Internal_Step))"
proof -
  have g: "var_n s' = k
      \<and> ntotal s' = em_long (npassos s * npontos s)
      \<and> dt1 s' = tempo s / real_of_int (em_long (npassos s * npontos s))
      \<and> dt s' = (if k = 0 then dt1 s' * (1 / 1000) else dt1 s')"
    if h: "laco k (prepara s) = Inr s'"
  proof -
    have "passo_certo (tempo s / real_of_int (em_long (npassos s * npontos s))) s'"
      using passo_certo_laco [OF passo_certo_prepara h] .
    moreover have "var_n s' = k" using laco_var_n [OF h]
      by (simp add: prepara_def Let_def)
    moreover have "ntotal s' = ntotal (prepara s)"
      using laco_inv [where P = "\<lambda>u. ntotal u = ntotal (prepara s)" and s = "prepara s"
          and s' = s' and k = k] passo_tempo_campos(13) h
      by simp
    ultimately show ?thesis
      by (simp add: passo_certo_def inicial_def prepara_def Let_def)
  qed
  have a: "laco k (prepara s) = Inr s' \<and> 0 < npassos s * npontos s
        \<and> npassos s * npontos s < 2 ^ 63 \<longrightarrow>
      var_n s' = k
      \<and> ntotal s' = npassos s * npontos s
      \<and> dt1 s' = tempo s / real_of_int (npassos s * npontos s)
      \<and> dt s' = (if k = 0 then dt1 s' * (1 / 1000) else dt1 s')"
  proof
    assume h: "laco k (prepara s) = Inr s' \<and> 0 < npassos s * npontos s
        \<and> npassos s * npontos s < 2 ^ 63"
    then have "em_long (npassos s * npontos s) = npassos s * npontos s"
      using em_long_id [of "npassos s * npontos s"] by simp
    with g h show "var_n s' = k
      \<and> ntotal s' = npassos s * npontos s
      \<and> dt1 s' = tempo s / real_of_int (npassos s * npontos s)
      \<and> dt s' = (if k = 0 then dt1 s' * (1 / 1000) else dt1 s')"
      by simp
  qed
  have a': "laco k (prepara s) = Inr s' \<and> em_long (npassos s * npontos s) \<noteq> 0 \<longrightarrow>
        var_n s' = k
        \<and> ntotal s' = em_long (npassos s * npontos s)
        \<and> dt1 s' = tempo s / real_of_int (em_long (npassos s * npontos s))
        \<and> dt s' = (if k = 0 then dt1 s' * (1 / 1000) else dt1 s')"
    using g by blast
  have b: "newton sa = Inr sb \<longrightarrow> dt sb = dt sa \<and> dt1 sb = dt1 sa \<and> var_n sb = var_n sa"
    using apaga_iter_campos(6,8,9) [OF apaga_iter_newton] by blast
  have c: "0 < Step \<and> Internal_Step \<noteq> 0 \<longrightarrow>
        snd (passo_mna Step Internal_Step k)
          = (if k = 0 then Step / Internal_Step / 10 ^ 9 else Step / Internal_Step)"
    by (simp add: passo_mna_fechado STEPFACTOR_def)
  from a a' b c show ?thesis by blast
qed

text \<open>
  With \<open>Step = 1\<close> and \<open>Internal_Step = 1\<close> the first step of Mna.cpp is \<open>10^-9\<close>, not
  \<open>10^-3\<close> times the regular one.
\<close>

theorem passo_atenuado_counterexample:
  "snd (passo_mna 1 1 0) = 1 / 10 ^ 9 \<and> snd (passo_mna 1 1 1) = 1
   \<and> snd (passo_mna 1 1 0) \<noteq> snd (passo_mna 1 1 1) * (1 / 10 ^ 3)"
  by (simp add: escolhe_passo_def STEPFACTOR_def)

text \<open>
  The example circuit, with \<open>tempo = 1\<close> and one step, and the second engine with
  \<open>Step = 2\<close>, \<open>Internal_Step = 4\<close>. With \<open>npontos = 4\<close> and \<open>npassos = 2^62\<close> the product
  wraps to 0.
\<close>

theorem passo_atenuado_witness:
  "observa dt (laco 0 (prepara (carrega circuito_IC 2 1 1 1 1 (\<lambda>k. 0) 1))) = Inr (1 / 1000)
   \<and> observa dt (laco 1 (prepara (carrega circuito_IC 2 1 1 1 1 (\<lambda>k. 0) 1))) = Inr 1
   \<and> observa dt (laco 2 (prepara (carrega circuito_IC 2 1 1 1 1 (\<lambda>k. 0) 1))) = Inr 1
   \<and> observa ntotal (laco 2 (prepara (carrega circuito_IC 2 1 1 1 1 (\<lambda>k. 0) 1))) = Inr 1
   \<and> observa dt (newton (inicio_IC\<lparr>iteracoes := 0, reinicios := 0, primeira := True\<rparr>))
       = Inr (1 / 1000)
   \<and> snd (passo_mna 2 4 0) = 1 / (2 * 10 ^ 9) \<and> snd (passo_mna 2 4 3) = 1 / 2
   \<and> em_long (2 ^ 62 * 4) = 0
   \<and> principal circuito_IC 2 1 1 4 (2 ^ 62) (\<lambda>k. 0) 1 = Inl PassoInfinito"
proof -
  define s0 where "s0 = carrega circuito_IC 2 1 1 1 1 (\<lambda>k. 0) 1"
  have i0: "prepara s0 = inicio_IC" by (simp add: inicio_IC_def s0_def)
  have d1: "npassos s0 * npontos s0 = 1" "tempo s0 = 1"
    by (simp_all add: s0_def carrega_def)
  from passo1_IC obtain s1 s2 where
    p: "passo_tempo inicio_IC = Inr s1" "passo_tempo s1 = Inr s2" by blast
  have l: "laco 0 inicio_IC = Inr inicio_IC" "laco 1 inicio_IC = Inr s1"
    "laco 2 inicio_IC = Inr s2"
    using p by (simp_all add: numeral_2_eq_2)
  define si where "si = inicio_IC\<lparr>iteracoes := 0, reinicios := 0, primeira := True\<rparr>"
  obtain sb where sb: "newton si = Inr sb"
    using p(1) by (cases "newton si") (auto simp: passo_tempo_def si_def)
  have di: "dt si = 1 / 1000" using inicio_IC_campos(2) by (simp add: si_def)
  note t0 = passo_atenuado [of 0 s0 inicio_IC si sb 2 4, unfolded i0 d1]
  note t1 = passo_atenuado [of 1 s0 s1 si sb 2 4, unfolded i0 d1]
  note t2 = passo_atenuado [of 2 s0 s2 si sb 2 4, unfolded i0 d1]
  note t3 = passo_atenuado [of 3 s0 s2 si sb 2 4, unfolded i0 d1]
  have a: "dt inicio_IC = 1 / 1000" "dt s1 = 1" "dt s2 = 1" "dt sb = 1 / 1000"
    "snd (passo_mna 2 4 0) = 1 / (2 * 10 ^ 9)" "snd (passo_mna 2 4 3) = 1 / 2"
    "ntotal s2 = 1"
    using t0 t1 t2 t3 l sb di by simp_all
  have w: "em_long (2 ^ 62 * 4) = 0" by (simp add: em_long_def LONG_BITS_def)
  have "em_long (4 * 2 ^ 62) = 0" by (simp add: em_long_def LONG_BITS_def)
  then have pi: "principal circuito_IC 2 1 1 4 (2 ^ 62) (\<lambda>k. 0) 1 = Inl PassoInfinito"
    by (simp add: principal_def simula_def carrega_def prepara_def Let_def)
  show ?thesis
    unfolding s0_def [symmetric] i0 l sb [unfolded si_def] observa_def
    using a w pi by simp
qed

subsection \<open>The sine source\<close>

text \<open>
  C7 (amended). In MNA3.c a source of kind \<open>'S'\<close> with parameters \<open>(p1, p2, p3)\<close> has the
  value \<open>p1 + p2 sin (2 pi p3 t)\<close> at the global time \<open>t\<close>: the element V writes it in
  its current row of the right-hand side, the element I takes it from row \<open>a\<close> and adds
  it to row \<open>b\<close>. In MnaFunctions.cpp the SIN source has seven parameters: before the
  delay and after the last cycle its value is the constant
  \<open>level + amp sin (PI angle / 180)\<close>; in between it is the delayed, damped and shifted
  sine, with \<open>PI = 3.14159265\<close>. The last cycle ends at \<open>delay + (1 / freq) cycles\<close>; with
  a frequency of zero it never ends, unless the number of cycles is negative, and then
  it has ended at any time.
\<close>

theorem fonte_SIN:
  "(el_y e = codigo CHR ''S'' \<longrightarrow>
      Yn (estampa_V e s) (el_x e) (nv s + 1) = p1 e + p2 e * sin (2 * pi * p3 e * var_t s)
      \<and> Yn (estampa_I e s)
          = fonte (nv s) (el_a e) (el_b e) (p1 e + p2 e * sin (2 * pi * p3 e * var_t s)) (Yn s)
      \<and> (el_a e \<noteq> el_b e \<longrightarrow>
           Yn (estampa_I e s) (el_a e) (nv s + 1)
             = Yn s (el_a e) (nv s + 1) - (p1 e + p2 e * sin (2 * pi * p3 e * var_t s))
           \<and> Yn (estampa_I e s) (el_b e) (nv s + 1)
             = Yn s (el_b e) (nv s + 1) + (p1 e + p2 e * sin (2 * pi * p3 e * var_t s))))
   \<and> (tipo_de (netlist s k) = CHR ''V'' \<longrightarrow> estampa k s = estampa_V (netlist s k) s)
   \<and> (tipo_de (netlist s k) = CHR ''I'' \<longrightarrow> estampa k s = estampa_I (netlist s k) s)
   \<and> (t < ParametersValue el ATRASO
        \<or> (if ParametersValue el FREQUENCIA = 0
            then ParametersValue el NUMERO_DE_CICLOS_SIN < 0
            else t > ParametersValue el ATRASO
                   + (1 / ParametersValue el FREQUENCIA)
                     * ParametersValue el NUMERO_DE_CICLOS_SIN) \<longrightarrow>
        fonte_SIN_mna el t
          = ParametersValue el NIVEL_CONTINUO
            + ParametersValue el AMPLITUDE * sin ((314159265 / 10 ^ 8) * ParametersValue el ANGULO / 180))
   \<and> (\<not> (t < ParametersValue el ATRASO
        \<or> (if ParametersValue el FREQUENCIA = 0
            then ParametersValue el NUMERO_DE_CICLOS_SIN < 0
            else t > ParametersValue el ATRASO
                   + (1 / ParametersValue el FREQUENCIA)
                     * ParametersValue el NUMERO_DE_CICLOS_SIN)) \<longrightarrow>
        fonte_SIN_mna el t
          = ParametersValue el NIVEL_CONTINUO
            + ParametersValue el AMPLITUDE
              * exp (- ParametersValue el ATENUACAO * (t - ParametersValue el ATRASO))
              * sin (2 * (314159265 / 10 ^ 8) * ParametersValue el FREQUENCIA
                       * (t - ParametersValue el ATRASO)
                     + (314159265 / 10 ^ 8) * ParametersValue el ANGULO / 180))"
proof -
  have v: "el_y e = codigo CHR ''S'' \<Longrightarrow>
      Yn (estampa_V e s) (el_x e) (nv s + 1) = p1 e + p2 e * sin (2 * pi * p3 e * var_t s)"
    by (simp add: estampa_V_def Let_def valor_fonte_def M_PI_def codigo_def atribui_apply)
  have i: "el_y e = codigo CHR ''S'' \<Longrightarrow> Yn (estampa_I e s)
          = fonte (nv s) (el_a e) (el_b e) (p1 e + p2 e * sin (2 * pi * p3 e * var_t s)) (Yn s)"
    by (simp add: estampa_I_def Let_def valor_fonte_def M_PI_def codigo_def)
  have d: "tipo_de (netlist s k) = CHR ''V'' \<longrightarrow> estampa k s = estampa_V (netlist s k) s"
    "tipo_de (netlist s k) = CHR ''I'' \<longrightarrow> estampa k s = estampa_I (netlist s k) s"
    by (simp_all add: estampa_def Let_def)
  have m: "fonte_SIN_mna el t =
     (if t < ParametersValue el ATRASO
        \<or> (if ParametersValue el FREQUENCIA = 0
            then ParametersValue el NUMERO_DE_CICLOS_SIN < 0
            else t > ParametersValue el ATRASO
                   + (1 / ParametersValue el FREQUENCIA)
                     * ParametersValue el NUMERO_DE_CICLOS_SIN)
      then ParametersValue el NIVEL_CONTINUO
            + ParametersValue el AMPLITUDE * sin ((314159265 / 10 ^ 8) * ParametersValue el ANGULO / 180)
      else ParametersValue el NIVEL_CONTINUO
            + ParametersValue el AMPLITUDE
              * exp (- ParametersValue el ATENUACAO * (t - ParametersValue el ATRASO))
              * sin (2 * (314159265 / 10 ^ 8) * ParametersValue el FREQUENCIA
                       * (t - ParametersValue el ATRASO)
                     + (314159265 / 10 ^ 8) * ParametersValue el ANGULO / 180))"
    unfolding fonte_SIN_mna_def Let_def fim_dos_ciclos by (simp add: PI_def)
  show ?thesis
    using v i d m by (simp add: fonte_apply)
qed

text \<open>
  A SIN source of the second engine with level 0, amplitude 1, frequency 1/4 and no
  cycle: at \<open>t = 1\<close> its value is 0, where \<open>level + amp sin (2 pi freq t)\<close> is 1.
\<close>

definition Element_SIN :: Element where
  "Element_SIN =
     \<lparr>ElementName = ''V1'', SourceType = ''SIN'', Node_1 = 1, Node_2 = 0,
      Control_Node_1 = 0, Control_Node_2 = 0, Current_Main_Branch = 2,
      Current_Control_Branch = 0, ElementValue = 0,
      ParametersValue = (\<lambda>k. if k = AMPLITUDE then 1 else if k = FREQUENCIA then 1 / 4 else 0)\<rparr>"

theorem fonte_SIN_counterexample:
  "fonte_SIN_mna Element_SIN 1 = 0
   \<and> ParametersValue Element_SIN NIVEL_CONTINUO
       + ParametersValue Element_SIN AMPLITUDE
         * sin (2 * pi * ParametersValue Element_SIN FREQUENCIA * 1) = 1"
  by (simp add: fonte_SIN_mna_def fim_dos_ciclos Element_SIN_def Let_def NIVEL_CONTINUO_def
        AMPLITUDE_def FREQUENCIA_def ATRASO_def ATENUACAO_def ANGULO_def
        NUMERO_DE_CICLOS_SIN_def)

text \<open>
  A source of MNA3.c: \<open>SIN (0 5 0.25)\<close> from node 1 to ground, at \<open>t = 1\<close>. A source of the
  second engine with a frequency of zero: level 1, amplitude 1, damping 1, angle 90 and
  two cycles, at \<open>t = 1\<close>.
\<close>

definition elemento_V :: elemento where
  "elemento_V = elemento_zero\<lparr>nome := ''V1'', p2 := 5, p3 := 1 / 4, el_a := 1, el_x := 2,
                  el_y := codigo CHR ''S''\<rparr>"

definition estado_V :: estado where
  "estado_V = (carrega (\<lambda>i. elemento_V) 1 2 1 1 1 (\<lambda>k. 0) 1)\<lparr>var_t := 1\<rparr>"

definition Element_SIN0 :: Element where
  "Element_SIN0 =
     \<lparr>ElementName = ''V1'', SourceType = ''SIN'', Node_1 = 1, Node_2 = 0,
      Control_Node_1 = 0, Control_Node_2 = 0, Current_Main_Branch = 2,
      Current_Control_Branch = 0, ElementValue = 0,
      ParametersValue =
        (\<lambda>k. if k = NIVEL_CONTINUO then 1 else if k = AMPLITUDE then 1
             else if k = ATENUACAO then 1 else if k = ANGULO then 90
             else if k = NUMERO_DE_CICLOS_SIN then 2 else 0)\<rparr>"

theorem fonte_SIN_witness:
  "Yn (estampa_V elemento_V estado_V) 2 3 = 5
   \<and> Yn (estampa_I elemento_V estado_V) 1 3 = - 5
   \<and> Yn (estampa_I elemento_V estado_V) 0 3 = 5
   \<and> estampa 1 estado_V = estampa_V elemento_V estado_V
   \<and> fonte_SIN_mna Element_SIN 1 = 0
   \<and> fonte_SIN_mna Element_SIN0 1 = 1 + exp (- 1) * sin (314159265 / 10 ^ 8 * 90 / 180)"
proof -
  have f: "var_t estado_V = 1" "nv estado_V = 2" "Yn estado_V = (\<lambda>r c. 0)"
    "netlist estado_V (Suc 0) = elemento_V"
    by (simp_all add: estado_V_def carrega_def)
  have e: "tipo_de elemento_V = CHR ''V''" "el_a elemento_V = Suc 0" "el_b elemento_V = 0"
    "el_x elemento_V = 2" "el_y elemento_V = codigo CHR ''S''" "p1 elemento_V = 0"
    "p2 elemento_V = 5" "p3 elemento_V = 1 / 4"
    by (simp_all add: elemento_V_def tipo_de_def elemento_zero_def)
  have m: "ParametersValue Element_SIN ATRASO = 0" "ParametersValue Element_SIN FREQUENCIA = 1 / 4"
    "ParametersValue Element_SIN NUMERO_DE_CICLOS_SIN = 0" "ParametersValue Element_SIN ANGULO = 0"
    "ParametersValue Element_SIN NIVEL_CONTINUO = 0"
    by (simp_all add: Element_SIN_def NIVEL_CONTINUO_def AMPLITUDE_def
        FREQUENCIA_def ATRASO_def ATENUACAO_def ANGULO_def NUMERO_DE_CICLOS_SIN_def)
  have m0: "ParametersValue Element_SIN0 ATRASO = 0" "ParametersValue Element_SIN0 FREQUENCIA = 0"
    "ParametersValue Element_SIN0 NUMERO_DE_CICLOS_SIN = 2"
    "ParametersValue Element_SIN0 ANGULO = 90" "ParametersValue Element_SIN0 NIVEL_CONTINUO = 1"
    "ParametersValue Element_SIN0 AMPLITUDE = 1" "ParametersValue Element_SIN0 ATENUACAO = 1"
    by (simp_all add: Element_SIN0_def NIVEL_CONTINUO_def AMPLITUDE_def
        FREQUENCIA_def ATRASO_def ATENUACAO_def ANGULO_def NUMERO_DE_CICLOS_SIN_def)
  have a: "Yn (estampa_V elemento_V estado_V) 2 3 = 5
   \<and> Yn (estampa_I elemento_V estado_V) 1 3 = - 5
   \<and> Yn (estampa_I elemento_V estado_V) 0 3 = 5
   \<and> estampa 1 estado_V = estampa_V elemento_V estado_V
   \<and> fonte_SIN_mna Element_SIN 1 = 0"
    using fonte_SIN [of elemento_V estado_V 1 1 Element_SIN]
    by (simp add: f e m fonte_apply)
  have b: "fonte_SIN_mna Element_SIN0 1 = 1 + exp (- 1) * sin (314159265 / 10 ^ 8 * 90 / 180)"
    using fonte_SIN [of elemento_V estado_V 1 1 Element_SIN0]
    by (simp add: m0)
  from a b show ?thesis by blast
qed

subsection \<open>The diode\<close>

text \<open>
  C3 (amended). For every call of \<open>diodo\<close>: the voltage \<open>v\<close> is \<open>en[a] - en[b]\<close> cut at 0.9,
  except when the step \<open>n\<close> and the count of iterations are both 0, where it is 0.6: that
  is at the first iteration of the first time step and, in that step, at the first
  iteration after each restart, which clears the count. With \<open>IS = 3.7751345e-14\<close> and
  \<open>VT = 0.025\<close> the call stamps the conductance \<open>g = (IS / VT) exp (v / VT)\<close> between \<open>a\<close>
  and \<open>b\<close> and the current source \<open>IS (exp (v / VT) - 1) - g v\<close> from \<open>a\<close> to \<open>b\<close>, and
  leaves \<open>v\<close>, \<open>g\<close> and the current in the globals. The element D stamps exactly this.
\<close>

theorem diodo_stamp:
  "(let v = (if var_n s = 0 \<and> iteracoes s = 0 then 6 / 10
             else min (en s noa - en s nob) (9 / 10));
        g = (37751345 / 10 ^ 21 / (25 / 1000)) * exp (v / (25 / 1000));
        i = (37751345 / 10 ^ 21) * (exp (v / (25 / 1000)) - 1) - g * v;
        s' = diodo noa nob s
    in var_v s' = v \<and> v \<le> 9 / 10 \<and> var_g s' = g \<and> var_id s' = i
       \<and> Yn s' = fonte (nv s) noa nob i (condutancia noa nob g (Yn s))
       \<and> (noa \<noteq> nob \<and> noa \<le> nv s \<and> nob \<le> nv s \<longrightarrow>
            Yn s' noa noa = Yn s noa noa + g \<and> Yn s' nob nob = Yn s nob nob + g
            \<and> Yn s' noa nob = Yn s noa nob - g \<and> Yn s' nob noa = Yn s nob noa - g
            \<and> Yn s' noa (nv s + 1) = Yn s noa (nv s + 1) - i
            \<and> Yn s' nob (nv s + 1) = Yn s nob (nv s + 1) + i)
       \<and> (tipo_de (netlist s k) = CHR ''D'' \<longrightarrow>
            estampa k s = diodo (el_a (netlist s k)) (el_b (netlist s k)) s))
   \<and> (var_n s = 0 \<longrightarrow>
        var_v (diodo noa nob (s\<lparr>iteracoes := 0, reinicios := 0, primeira := True\<rparr>)) = 6 / 10)
   \<and> (iteracao sa = Inr sb \<and> var_n sa = 0 \<and> 20 < iteracoes sa + 1 \<and> reinicios sa \<le> 10 \<longrightarrow>
        var_n sb = 0 \<and> iteracoes sb = 0 \<and> reinicios sb = reinicios sa + 1
        \<and> var_v (diodo noa nob sb) = 6 / 10)
   \<and> (iteracao sa = Inr sb \<and> \<not> (var_n sa = 0 \<and> 20 < iteracoes sa + 1 \<and> reinicios sa \<le> 10) \<longrightarrow>
        var_v (diodo noa nob sb) = min (en sb noa - en sb nob) (9 / 10))"
proof -
  have a: "(let v = (if var_n s = 0 \<and> iteracoes s = 0 then 6 / 10
             else min (en s noa - en s nob) (9 / 10));
        g = (37751345 / 10 ^ 21 / (25 / 1000)) * exp (v / (25 / 1000));
        i = (37751345 / 10 ^ 21) * (exp (v / (25 / 1000)) - 1) - g * v;
        s' = diodo noa nob s
    in var_v s' = v \<and> v \<le> 9 / 10 \<and> var_g s' = g \<and> var_id s' = i
       \<and> Yn s' = fonte (nv s) noa nob i (condutancia noa nob g (Yn s))
       \<and> (noa \<noteq> nob \<and> noa \<le> nv s \<and> nob \<le> nv s \<longrightarrow>
            Yn s' noa noa = Yn s noa noa + g \<and> Yn s' nob nob = Yn s nob nob + g
            \<and> Yn s' noa nob = Yn s noa nob - g \<and> Yn s' nob noa = Yn s nob noa - g
            \<and> Yn s' noa (nv s + 1) = Yn s noa (nv s + 1) - i
            \<and> Yn s' nob (nv s + 1) = Yn s nob (nv s + 1) + i)
       \<and> (tipo_de (netlist s k) = CHR ''D'' \<longrightarrow>
            estampa k s = diodo (el_a (netlist s k)) (el_b (netlist s k)) s))"
    by (auto simp: Let_def diodo_def IS_def VT_def min_def condutancia_def
          transcondutancia_apply fonte_apply estampa_def)
  have b: "var_n s = 0 \<longrightarrow>
        var_v (diodo noa nob (s\<lparr>iteracoes := 0, reinicios := 0, primeira := True\<rparr>)) = 6 / 10"
    by (simp add: diodo_def Let_def)
  have c: "iteracao sa = Inr sb \<and> var_n sa = 0 \<and> 20 < iteracoes sa + 1 \<and> reinicios sa \<le> 10 \<longrightarrow>
        var_n sb = 0 \<and> iteracoes sb = 0 \<and> reinicios sb = reinicios sa + 1
        \<and> var_v (diodo noa nob sb) = 6 / 10"
  proof
    assume h: "iteracao sa = Inr sb \<and> var_n sa = 0 \<and> 20 < iteracoes sa + 1
        \<and> reinicios sa \<le> 10"
    then have it: "iteracao sa = Inr sb" and re: "20 < iteracoes sa + 1 \<and> reinicios sa \<le> 10"
      by simp_all
    have n: "var_n sb = 0" using apaga_iter_campos(6) [OF apaga_iter_iteracao [OF it]] h by simp
    have r: "iteracoes sb = 0" "reinicios sb = reinicios sa + 1"
      using iteracao_efeito(1) [OF it re] by simp_all
    show "var_n sb = 0 \<and> iteracoes sb = 0 \<and> reinicios sb = reinicios sa + 1
        \<and> var_v (diodo noa nob sb) = 6 / 10"
      using n r by (simp add: diodo_def Let_def)
  qed
  have d: "iteracao sa = Inr sb
        \<and> \<not> (var_n sa = 0 \<and> 20 < iteracoes sa + 1 \<and> reinicios sa \<le> 10) \<longrightarrow>
        var_v (diodo noa nob sb) = min (en sb noa - en sb nob) (9 / 10)"
  proof
    assume h: "iteracao sa = Inr sb
        \<and> \<not> (var_n sa = 0 \<and> 20 < iteracoes sa + 1 \<and> reinicios sa \<le> 10)"
    then have it: "iteracao sa = Inr sb" by simp
    have n: "var_n sb = var_n sa" using apaga_iter_campos(6) [OF apaga_iter_iteracao [OF it]] .
    have "var_n sb \<noteq> 0 \<or> iteracoes sb \<noteq> 0"
    proof (cases "20 < iteracoes sa + 1 \<and> reinicios sa \<le> 10")
      case True
      with h n show ?thesis by simp
    next
      case False
      from iteracao_efeito(2) [OF it False] show ?thesis by simp
    qed
    then show "var_v (diodo noa nob sb) = min (en sb noa - en sb nob) (9 / 10)"
      by (auto simp: diodo_def Let_def min_def)
  qed
  from a b c d show ?thesis by blast
qed

text \<open>
  A diode from node 1 to ground, alone, in step 0 with 20 iterations counted and no
  restart, node 1 at 1 V, \<open>rand\<close> returning 0: the iteration solves the system of the
  diode at 0.9 V, restarts, and draws -5 for node 1; the error it leaves is above
  \<open>TOLE\<close>, so the Newton loop goes on. In the iteration that follows, which is not the
  first of the step, the diode works with 0.6, not with the -5 that it has across it.
\<close>

definition elemento_D0 :: elemento where
  "elemento_D0 = elemento_zero\<lparr>nome := ''D1'', el_a := 1\<rparr>"

definition estado_D0 :: estado where
  "estado_D0 = (prepara (carrega (\<lambda>i. elemento_D0) 1 1 1 1 1 (\<lambda>k. 0) 1))
                 \<lparr>iteracoes := 20, en := (\<lambda>i. if i = 1 then 1 else 0)\<rparr>"

lemma iteracao_D0:
  "\<exists>s'. iteracao estado_D0 = Inr s' \<and> var_n s' = 0 \<and> iteracoes s' = 0 \<and> reinicios s' = 1
        \<and> en s' 1 = - 5 \<and> en s' 0 = 0 \<and> continua s'"
proof -
  have e: "tipo_de elemento_D0 = CHR ''D''" "el_a elemento_D0 = 1" "el_b elemento_D0 = 0"
    by (simp_all add: elemento_D0_def tipo_de_def elemento_zero_def)
  have nl: "tem_nao_linear (\<lambda>i. elemento_D0) 1"
    by (simp add: tem_nao_linear_def e)
  have f: "nv estado_D0 = 1" "ne estado_D0 = 1" "var_n estado_D0 = 0"
    "iteracoes estado_D0 = 20" "reinicios estado_D0 = 0"
    "en estado_D0 1 = 1" "en estado_D0 0 = 0" "netlist estado_D0 = (\<lambda>i. elemento_D0)"
    "rand_seq estado_D0 = (\<lambda>k. 0)" "RAND_MAX estado_D0 = 1" "rand_pos estado_D0 = 0"
    "nao_linear estado_D0"
    using nl by (simp_all add: estado_D0_def prepara_def carrega_def Let_def fun_eq_iff)
  define E where "E = exp (9 / 10 / VT)"
  define gg where "gg = IS / VT * E"
  define idd where "idd = IS * (E - 1) - gg * (9 / 10)"
  have E1: "1 \<le> E" unfolding E_def by (simp add: VT_def)
  have gp: "IS / VT \<le> gg"
  proof -
    have "0 \<le> IS / VT" by (simp add: IS_def VT_def)
    then have "IS / VT * 1 \<le> IS / VT * E" using E1 by (intro mult_left_mono) simp_all
    then show ?thesis by (simp add: gg_def)
  qed
  have g0: "151 / 10 ^ 14 \<le> gg"
  proof -
    have "(151::real) / 10 ^ 14 \<le> IS / VT" by (simp add: IS_def VT_def)
    with gp show ?thesis by linarith
  qed
  then have gpos: "0 < gg" by (simp add: less_le_trans [of 0 "151 / 10 ^ 14" gg])
  define s0 where "s0 = estado_D0\<lparr>Yn := zera (nv estado_D0) (Yn estado_D0)\<rparr>"
  have m: "monta_estampas s0 = diodo 1 0 s0"
    using f e by (simp add: monta_estampas_def s0_def estampa_def Let_def)
  have y: "Yn (diodo 1 0 s0) 1 1 = gg" "Yn (diodo 1 0 s0) 1 2 = - idd"
    using f by (simp_all add: diodo_def Let_def s0_def zera_def fonte_apply condutancia_def
        transcondutancia_apply gg_def idd_def E_def)
  have big: "\<not> \<bar>Yn (monta_estampas s0) 1 1\<bar> < 1 / 10 ^ 12"
  proof -
    have "(1::real) / 10 ^ 12 \<le> 151 / 10 ^ 14" by simp
    with g0 have "1 / 10 ^ 12 \<le> gg" by linarith
    then show ?thesis unfolding m y using gpos by simp
  qed
  from solve1 [of "Yn (monta_estampas s0)" "var_t estado_D0"] big obtain Y' where
    Y': "resolversistema 1 (var_t estado_D0) (Yn (monta_estampas s0)) = Inr Y'"
      "Y' 1 2 = - idd / gg"
    unfolding m y by auto
  from iteracao_retorna [of estado_D0 Y'] Y'(1) f obtain s' where
    it: "iteracao estado_D0 = Inr s'"
    by (auto simp: s0_def)
  have ys: "Yn s' = Y'"
    using iteracao_efeito(5) [OF it] Y'(1) f by (simp add: s0_def)
  have er: "erro_max s' = \<bar>1 + idd / gg\<bar>"
    using erro_iteracao_um [OF f(1) it] f ys Y'(2) by simp
  have "- (9 / 10) * gg \<le> idd"
  proof -
    have "0 \<le> IS * (E - 1)" using E1 by (simp add: IS_def)
    then show ?thesis by (simp add: idd_def)
  qed
  then have "- (9 / 10) \<le> idd / gg" using gpos by (simp add: pos_le_divide_eq)
  then have "1 / 10 \<le> erro_max s'" unfolding er by linarith
  then have big_erro: "erro_max s' > TOLE"
  proof -
    have "TOLE < 1 / 10" by (simp add: TOLE_def)
    with \<open>1 / 10 \<le> erro_max s'\<close> show ?thesis by linarith
  qed
  have re: "20 < iteracoes estado_D0 + 1 \<and> reinicios estado_D0 \<le> 10" using f by simp
  note r = iteracao_efeito(1) [OF it re] iteracao_efeito(4) [OF it]
  note fr = apaga_iter_campos [OF apaga_iter_iteracao [OF it]]
  have n: "var_n s' = 0" "nao_linear s'" using fr f by simp_all
  have "en s' 1 = - 5" using r(1) f by simp
  then show ?thesis using it n r f big_erro by (simp add: continua_def)
qed

theorem diodo_stamp_counterexample:
  "observa (tensao_diodo 1 0) (iteracao estado_D0) = Inr (6 / 10)
   \<and> observa (tensao_cortada 1 0) (iteracao estado_D0) = Inr (- 5)
   \<and> observa reinicios (iteracao estado_D0) = Inr 1
   \<and> observa var_n (iteracao estado_D0) = Inr 0
   \<and> observa continua (iteracao estado_D0) = Inr True"
proof -
  from iteracao_D0 obtain s' where it: "iteracao estado_D0 = Inr s'"
    and r: "var_n s' = 0" "iteracoes s' = 0" "reinicios s' = 1" "en s' 1 = - 5" "en s' 0 = 0"
      "continua s'"
    by blast
  show ?thesis
    unfolding it observa_def
    using r by (simp add: tensao_diodo_def tensao_cortada_def diodo_def Let_def)
qed

text \<open>
  A diode from node 1 to node 2, in the second iteration of step 0, with 2 V across it;
  and the diode of the example above.
\<close>

definition elemento_D :: elemento where
  "elemento_D = elemento_zero\<lparr>nome := ''D1'', el_a := 1, el_b := 2\<rparr>"

definition estado_D :: estado where
  "estado_D = (carrega (\<lambda>i. elemento_D) 1 2 1 1 1 (\<lambda>k. 0) 1)
                \<lparr>iteracoes := 1, en := (\<lambda>i. if i = 1 then 2 else 0)\<rparr>"

theorem diodo_stamp_witness:
  "var_v (diodo 1 2 estado_D) = 9 / 10
   \<and> Yn (diodo 1 2 estado_D) 1 2 = - ((37751345 / 10 ^ 21 / (25 / 1000)) * exp (9 / 10 / (25 / 1000)))
   \<and> Yn (diodo 1 2 estado_D) 2 3 =
        (37751345 / 10 ^ 21) * (exp (9 / 10 / (25 / 1000)) - 1)
        - (37751345 / 10 ^ 21 / (25 / 1000)) * exp (9 / 10 / (25 / 1000)) * (9 / 10)
   \<and> estampa 1 estado_D = diodo 1 2 estado_D
   \<and> var_v (diodo 1 2 (estado_D\<lparr>iteracoes := 0, reinicios := 0, primeira := True\<rparr>)) = 6 / 10
   \<and> observa (tensao_diodo 1 0) (iteracao estado_D0) = Inr (6 / 10)
   \<and> observa iteracoes (iteracao estado_D0) = Inr 0"
proof -
  have f: "var_n estado_D = 0" "iteracoes estado_D = Suc 0" "en estado_D (Suc 0) = 2"
    "en estado_D 2 = 0" "nv estado_D = 2" "Yn estado_D = (\<lambda>r c. 0)"
    "netlist estado_D (Suc 0) = elemento_D"
    by (simp_all add: estado_D_def carrega_def)
  have e: "tipo_de elemento_D = CHR ''D''" "el_a elemento_D = Suc 0" "el_b elemento_D = 2"
    by (simp_all add: elemento_D_def tipo_de_def elemento_zero_def)
  from iteracao_D0 obtain s' where it: "iteracao estado_D0 = Inr s'" by blast
  have g: "var_n estado_D0 = 0" "iteracoes estado_D0 = 20" "reinicios estado_D0 = 0"
    by (simp_all add: estado_D0_def prepara_def carrega_def Let_def)
  note t = diodo_stamp [of estado_D 1 2 1 estado_D0 s', unfolded Let_def]
  have a: "var_v (diodo 1 2 estado_D) = 9 / 10
   \<and> Yn (diodo 1 2 estado_D) 1 2 = - ((37751345 / 10 ^ 21 / (25 / 1000)) * exp (9 / 10 / (25 / 1000)))
   \<and> Yn (diodo 1 2 estado_D) 2 3 =
        (37751345 / 10 ^ 21) * (exp (9 / 10 / (25 / 1000)) - 1)
        - (37751345 / 10 ^ 21 / (25 / 1000)) * exp (9 / 10 / (25 / 1000)) * (9 / 10)
   \<and> estampa 1 estado_D = diodo 1 2 estado_D
   \<and> var_v (diodo 1 2 (estado_D\<lparr>iteracoes := 0, reinicios := 0, primeira := True\<rparr>)) = 6 / 10"
    using t by (simp add: f e fonte_apply condutancia_def transcondutancia_apply)
  note t0 = diodo_stamp [of estado_D 1 0 1 estado_D0 s', unfolded Let_def]
  have b: "var_v (diodo 1 0 s') = 6 / 10" "iteracoes s' = 0"
    using t0 it g by simp_all
  show ?thesis
    unfolding it observa_def using a b by (simp add: tensao_diodo_def)
qed

subsection \<open>The voltage source of a capacitor under the trapezoidal rule\<close>

text \<open>
  C1 (amended). Under the trapezoidal rule (\<open>metodo = 3\<close>) the stamp of a capacitor \<open>i\<close>
  with capacitance \<open>C\<close> between \<open>a\<close> and \<open>b\<close> works with \<open>g = 2 C / dt\<close>, where \<open>dt\<close> is the
  size of the step being computed. On the first iteration of a step (\<open>primeira\<close>) it
  stores in \<open>p3\<close> the declared initial voltage \<open>p2\<close> when \<open>n = 0\<close>, and otherwise
  \<open>v_prev + i_prev / g\<close>, which is \<open>v_prev + i_prev dt / (2 C)\<close>, with
  \<open>i_prev = 2 C / dta (v_prev - p3)\<close>, \<open>v_prev = et a - et b\<close> the voltage of the last accepted
  solution and \<open>dta\<close> the size of the previous step. On the other iterations the netlist is
  left as it is. In both cases the stamp adds \<open>g\<close> between \<open>a\<close> and \<open>b\<close> and the source
  \<open>g p3\<close> from \<open>b\<close> to \<open>a\<close>. A time step raises \<open>primeira\<close> for its first iteration, and an
  iteration that returns has cleared it: the netlist that the step leaves is the one
  that its first iteration left, so the \<open>p3\<close> of the capacitor is, after the step and in
  every iteration of it, the value above computed once from the state at the head of the
  step. A time step that returns has moved \<open>dt\<close> to \<open>dta\<close> and \<open>dt1\<close> to \<open>dt\<close>; so after two
  steps or more \<open>dta = dt\<close>, and after exactly one step \<open>dta = dt / 1000\<close>. The quotients
  are those of the real numbers: \<open>dt\<close> is not zero and, past \<open>n = 0\<close>, neither are \<open>C\<close> and
  \<open>dta\<close>.
\<close>

theorem capacitor_trapezios:
  "(metodo s = 3 \<and> tipo_de (netlist s i) = CHR ''C'' \<and> dt s \<noteq> 0
      \<and> (var_n s \<noteq> 0 \<longrightarrow> p1 (netlist s i) \<noteq> 0 \<and> dta s \<noteq> 0) \<longrightarrow>
      (let e = netlist s i; cap = p1 e; vprev = et s (el_a e) - et s (el_b e);
           iprev = 2 * cap / dta s * (vprev - p3 e); g = 2 * cap / dt s;
           v = p3 (netlist (estampa i s) i)
       in (primeira s \<and> var_n s = 0 \<longrightarrow> v = p2 e)
        \<and> (primeira s \<and> var_n s \<noteq> 0 \<longrightarrow>
              v = vprev + iprev / g \<and> v = vprev + iprev * dt s / (2 * cap))
        \<and> (\<not> primeira s \<longrightarrow> netlist (estampa i s) = netlist s)
        \<and> Yn (estampa i s)
            = fonte (nv s) (el_b e) (el_a e) (g * v)
                (condutancia (el_a e) (el_b e) g (Yn s))))
   \<and> (passo_tempo sb = Inr s2 \<longrightarrow>
        (\<exists>s1. iteracao (sb\<lparr>iteracoes := 0, reinicios := 0, primeira := True\<rparr>) = Inr s1
           \<and> netlist s2 = netlist s1)
        \<and> dta s2 = dt sb \<and> dt s2 = dt1 sb)
   \<and> (iteracao sa = Inr s1 \<longrightarrow>
        \<not> primeira s1 \<and> (\<not> primeira sa \<longrightarrow> netlist s1 = netlist sa))
   \<and> (metodo sb = 3 \<and> 1 \<le> j \<and> j \<le> ne sb \<and> tipo_de (netlist sb j) = CHR ''C'' \<and> dt sb \<noteq> 0
        \<and> (var_n sb \<noteq> 0 \<longrightarrow> p1 (netlist sb j) \<noteq> 0 \<and> dta sb \<noteq> 0)
        \<and> passo_tempo sb = Inr s2 \<longrightarrow>
        (let e = netlist sb j; cap = p1 e; vprev = et sb (el_a e) - et sb (el_b e);
             iprev = 2 * cap / dta sb * (vprev - p3 e)
         in p3 (netlist s2 j)
              = (if var_n sb = 0 then p2 e else vprev + iprev * dt sb / (2 * cap))))
   \<and> (laco k (prepara s0) = Inr s3 \<and> 2 \<le> k \<and> em_long (npassos s0 * npontos s0) \<noteq> 0 \<longrightarrow>
        dta s3 = dt s3)
   \<and> (laco 1 (prepara s0) = Inr s4 \<and> em_long (npassos s0 * npontos s0) \<noteq> 0 \<longrightarrow>
        dta s4 = dt s4 * (1 / 1000))"
proof -
  have a: "metodo s = 3 \<and> tipo_de (netlist s i) = CHR ''C'' \<and> dt s \<noteq> 0
      \<and> (var_n s \<noteq> 0 \<longrightarrow> p1 (netlist s i) \<noteq> 0 \<and> dta s \<noteq> 0) \<longrightarrow>
      (let e = netlist s i; cap = p1 e; vprev = et s (el_a e) - et s (el_b e);
           iprev = 2 * cap / dta s * (vprev - p3 e); g = 2 * cap / dt s;
           v = p3 (netlist (estampa i s) i)
       in (primeira s \<and> var_n s = 0 \<longrightarrow> v = p2 e)
        \<and> (primeira s \<and> var_n s \<noteq> 0 \<longrightarrow>
              v = vprev + iprev / g \<and> v = vprev + iprev * dt s / (2 * cap))
        \<and> (\<not> primeira s \<longrightarrow> netlist (estampa i s) = netlist s)
        \<and> Yn (estampa i s)
            = fonte (nv s) (el_b e) (el_a e) (g * v)
                (condutancia (el_a e) (el_b e) g (Yn s)))"
    by (simp add: estampa_def estampa_C_def Let_def)
  have b: "passo_tempo sb = Inr s2 \<longrightarrow>
        (\<exists>s1. iteracao (sb\<lparr>iteracoes := 0, reinicios := 0, primeira := True\<rparr>) = Inr s1
           \<and> netlist s2 = netlist s1)
        \<and> dta s2 = dt sb \<and> dt s2 = dt1 sb"
    using rede_passo [of sb s2] passo_tempo_campos(2,3) [of sb s2] by blast
  have c: "iteracao sa = Inr s1 \<longrightarrow>
        \<not> primeira s1 \<and> (\<not> primeira sa \<longrightarrow> netlist s1 = netlist sa)"
    using iteracao_efeito(3) [of sa s1] rede_iteracao_depois [of sa s1] by blast
  have d: "metodo sb = 3 \<and> 1 \<le> j \<and> j \<le> ne sb \<and> tipo_de (netlist sb j) = CHR ''C'' \<and> dt sb \<noteq> 0
        \<and> (var_n sb \<noteq> 0 \<longrightarrow> p1 (netlist sb j) \<noteq> 0 \<and> dta sb \<noteq> 0)
        \<and> passo_tempo sb = Inr s2 \<longrightarrow>
        (let e = netlist sb j; cap = p1 e; vprev = et sb (el_a e) - et sb (el_b e);
             iprev = 2 * cap / dta sb * (vprev - p3 e)
         in p3 (netlist s2 j)
              = (if var_n sb = 0 then p2 e else vprev + iprev * dt sb / (2 * cap)))"
  proof
    assume h: "metodo sb = 3 \<and> 1 \<le> j \<and> j \<le> ne sb \<and> tipo_de (netlist sb j) = CHR ''C''
        \<and> dt sb \<noteq> 0
        \<and> (var_n sb \<noteq> 0 \<longrightarrow> p1 (netlist sb j) \<noteq> 0 \<and> dta sb \<noteq> 0)
        \<and> passo_tempo sb = Inr s2"
    then have "p3 (netlist s2 j) = veq_novo sb (netlist sb j)"
      by (intro veq_passo) simp_all
    then show "let e = netlist sb j; cap = p1 e; vprev = et sb (el_a e) - et sb (el_b e);
             iprev = 2 * cap / dta sb * (vprev - p3 e)
         in p3 (netlist s2 j)
              = (if var_n sb = 0 then p2 e else vprev + iprev * dt sb / (2 * cap))"
      using h by (simp add: veq_novo_def Let_def)
  qed
  have pc: "passo_certo (tempo s0 / real_of_int (em_long (npassos s0 * npontos s0))) u"
    if "laco k (prepara s0) = Inr u" for k u
    using passo_certo_laco [OF passo_certo_prepara that] .
  have e: "laco k (prepara s0) = Inr s3 \<and> 2 \<le> k \<and> em_long (npassos s0 * npontos s0) \<noteq> 0 \<longrightarrow>
        dta s3 = dt s3"
  proof
    assume h: "laco k (prepara s0) = Inr s3 \<and> 2 \<le> k
        \<and> em_long (npassos s0 * npontos s0) \<noteq> 0"
    then have "var_n s3 = k" using laco_var_n [of k "prepara s0" s3]
      by (simp add: prepara_def Let_def)
    then show "dta s3 = dt s3" using h pc [of k s3] by (simp add: passo_certo_def)
  qed
  have f: "laco 1 (prepara s0) = Inr s4 \<and> em_long (npassos s0 * npontos s0) \<noteq> 0 \<longrightarrow>
        dta s4 = dt s4 * (1 / 1000)"
  proof
    assume h: "laco 1 (prepara s0) = Inr s4 \<and> em_long (npassos s0 * npontos s0) \<noteq> 0"
    then have "var_n s4 = 1" using laco_var_n [of 1 "prepara s0" s4]
      by (simp add: prepara_def Let_def)
    then show "dta s4 = dt s4 * (1 / 1000)"
      using h pc [of 1 s4] by (simp add: passo_certo_def inicial_def)
  qed
  from a b c d e f show ?thesis by blast
qed

text \<open>
  On the example circuit the voltage stamped in step 1 is 1001/2000, where
  \<open>v_prev + i_prev dt_prev / (2 C)\<close>, computed on the state that step 0 leaves, is 1/1000.
\<close>

theorem capacitor_trapezios_counterexample:
  "observa (veq 2) (laco 2 inicio_IC) = Inr (1001 / 2000)
   \<and> observa (veq_passo_anterior 2) (laco 1 inicio_IC) = Inr (1 / 1000)"
proof -
  from passo1_IC obtain s1 s2 where
    p: "passo_tempo inicio_IC = Inr s1" "passo_tempo s1 = Inr s2"
    and r: "dta s1 = 1 / 1000" "et s1 1 = 1 / 2000" "et s1 0 = 0"
      "p3 (netlist s1 2) = 0" "p1 (netlist s1 2) = 1" "p3 (netlist s2 2) = 1001 / 2000"
    by blast
  from passo0_IC p(1) have "circ s1" by auto
  then have ab: "el_a (netlist s1 2) = 1" "el_b (netlist s1 2) = 0" by (simp_all add: circ_def)
  have l: "laco 1 inicio_IC = Inr s1" "laco 2 inicio_IC = Inr s2"
    using p by (simp_all add: numeral_2_eq_2)
  have r1: "et s1 (Suc 0) = 1 / 2000" using r(2) by simp
  show ?thesis
    unfolding l observa_def veq_def veq_passo_anterior_def Let_def
    by (simp add: ab r r1)
qed

text \<open>
  The two steps of the example circuit: the step from the state that step 0 leaves
  stores 1001/2000 in the capacitor, which is the element of line 2.
\<close>

theorem capacitor_trapezios_witness:
  "observa (veq 2) (passo_tempo inicio_IC) = Inr 0
   \<and> observa (veq 2) (laco 2 inicio_IC) = Inr (1001 / 2000)
   \<and> observa dta (laco 1 inicio_IC) = Inr (1 / 1000)
   \<and> observa dt (laco 1 inicio_IC) = Inr 1
   \<and> observa dta (laco 2 inicio_IC) = Inr 1
   \<and> observa primeira (passo_tempo inicio_IC) = Inr False"
proof -
  from passo0_IC obtain s1 where p1: "passo_tempo inicio_IC = Inr s1" and c1: "circ s1"
    and r: "var_n s1 = 1" "dt s1 = 1" "dta s1 = 1 / 1000" "p3 (netlist s1 2) = 0"
      "et s1 1 = 1 / 2000" "et s1 0 = 0" "dt1 s1 = 1"
    by blast
  from passo1_IC p1 obtain s2 where p2: "passo_tempo s1 = Inr s2" by auto
  have l: "laco 1 inicio_IC = Inr s1" "laco 2 inicio_IC = Inr s2"
    using p1 p2 by (simp_all add: numeral_2_eq_2)
  note c = inicio_IC_campos
  define s0 where "s0 = carrega circuito_IC 2 1 1 1 1 (\<lambda>k. 0) 1"
  have i0: "prepara s0 = inicio_IC" by (simp add: inicio_IC_def s0_def)
  have nt: "em_long (npassos s0 * npontos s0) \<noteq> 0"
    by (simp add: s0_def carrega_def em_long_def LONG_BITS_def)
  define si where "si = inicio_IC\<lparr>iteracoes := 0, reinicios := 0, primeira := True\<rparr>"
  have ci: "metodo inicio_IC = 3" "ne inicio_IC = 2" "tipo_de (netlist inicio_IC 2) = CHR ''C''"
    "p2 (netlist inicio_IC 2) = 0"
    using c(1) by (simp_all add: circ_def)
  have c1f: "metodo s1 = 3" "ne s1 = 2" "tipo_de (netlist s1 2) = CHR ''C''"
    "p1 (netlist s1 2) = 1" "el_a (netlist s1 2) = 1" "el_b (netlist s1 2) = 0"
    using c1 by (simp_all add: circ_def)
  note t0 = capacitor_trapezios [where sb = inicio_IC and ?s2.0 = s1 and j = 2
      and ?s0.0 = s0 and k = 2 and ?s3.0 = s2 and ?s4.0 = s1, unfolded Let_def i0]
  note t1 = capacitor_trapezios [where sb = s1 and ?s2.0 = s2 and j = 2
      and ?s0.0 = s0 and k = 2 and ?s3.0 = s2 and ?s4.0 = s1, unfolded Let_def i0]
  obtain sx where ix: "iteracao si = Inr sx" "netlist s1 = netlist sx"
    using t0 p1 unfolding si_def by blast
  note t2 = capacitor_trapezios [where sa = si and ?s1.0 = sx]
  have a: "p3 (netlist s1 2) = 0" "dta s1 = 1 / 1000" "dt s1 = 1"
    using t0 p1 ci c(2,3,4) by simp_all
  have b: "p3 (netlist s2 2) = 1001 / 2000" "dta s2 = 1"
    using t1 p2 c1f r l nt by simp_all
  have "\<not> primeira sx" using t2 ix(1) by blast
  moreover have "primeira s1 = primeira sx"
  proof -
    obtain sn where sn: "newton si = Inr sn" and s1: "s1 = (aceita sn)\<lparr>var_n := var_n sn + 1\<rparr>"
      using p1 by (cases "newton si") (auto simp: passo_tempo_def si_def)
    have "\<not> nao_linear si" using c(1) by (simp add: circ_def si_def)
    from newton_linear [OF this] sn ix(1) have "sn = sx" by simp
    then show ?thesis by (simp add: s1 aceita_contadores)
  qed
  ultimately have pr: "\<not> primeira s1" by simp
  show ?thesis
    unfolding l p1 observa_def veq_def
    using a b pr by simp
qed

subsection \<open>The current-controlled voltage source\<close>










subsection \<open>Ground\<close>

text \<open>
  C9. As long as every column index stays below \<open>MAX_NOS\<close>, that is with at most 48
  unknowns: the stamps index the array with the node numbers as they are, so what
  targets node 0 lands in row or column 0, and away from that row and column the stamps
  \<open>transcondutancia\<close> and \<open>fonte\<close> are the stamps that skip every row or column equal to
  0. The solver leaves row 0 and column 0 as they are, and what it returns (the error,
  or the rows and columns from 1 on) does not depend on them. The entry 0 of the
  solution, \<open>en[0]\<close>, and of the accepted solution, \<open>et[0]\<close>, is left as it is by an
  iteration, by the Newton loop and by a time step, and in a run it is 0 after any number
  of steps. With 49 unknowns, which the reader admits, the right-hand side of a row is
  the ground column of the next: a conductance of 1 from node 49 to ground leaves -1 in
  the right-hand side of row 48, where the system of the circuit has 0.
\<close>

theorem terra_fora_do_sistema:
  "(c < MAX_NOS \<and> c' < MAX_NOS \<longrightarrow> (celula r c = celula r' c' \<longleftrightarrow> r = r' \<and> c = c'))
   \<and> (noc < MAX_NOS \<and> nod < MAX_NOS \<and> c < MAX_NOS \<longrightarrow>
        le_Yn (transcondutancia_mem noa nob noc nod val m) r c
          = transcondutancia noa nob noc nod val (le_Yn m) r c)
   \<and> (nvv + 1 < MAX_NOS \<and> c < MAX_NOS \<longrightarrow>
        le_Yn (fonte_mem nvv noa nob ii m) r c = fonte nvv noa nob ii (le_Yn m) r c)
   \<and> (noc < MAX_NOS \<and> nod < MAX_NOS \<and> c < MAX_NOS \<and> 1 \<le> r \<and> 1 \<le> c \<longrightarrow>
        le_Yn (transcondutancia_mem noa nob noc nod val m) r c
          = g_sem_terra noa nob noc nod val (le_Yn m) r c)
   \<and> (nvv + 1 < MAX_NOS \<and> c < MAX_NOS \<and> 1 \<le> r \<and> 1 \<le> c \<longrightarrow>
        le_Yn (fonte_mem nvv noa nob ii m) r c = fonte_sem_terra nvv noa nob ii (le_Yn m) r c)
   \<and> (resolversistema n t W = Inr W' \<and> n + 1 < MAX_NOS \<longrightarrow>
        (\<forall>j. W' 0 j = W 0 j) \<and> (\<forall>i. W' i 0 = W i 0))
   \<and> (igual_sem_terra W Z \<and> n + 1 < MAX_NOS \<longrightarrow>
        mesmo_resultado (resolversistema n t W) (resolversistema n t Z))
   \<and> (iteracao s = Inr s1 \<and> nv s + 1 < MAX_NOS \<longrightarrow> en s1 0 = en s 0 \<and> et s1 0 = et s 0)
   \<and> (newton s = Inr s2 \<and> nv s + 1 < MAX_NOS \<longrightarrow> en s2 0 = en s 0 \<and> et s2 0 = et s 0)
   \<and> (passo_tempo s = Inr s3 \<and> nv s + 1 < MAX_NOS \<longrightarrow> en s3 0 = en s 0 \<and> et s3 0 = et s 0)
   \<and> (laco k (prepara (carrega nl nel nv0 T P S rnd rmax)) = Inr s5 \<and> nv0 + 1 < MAX_NOS \<longrightarrow>
        en s5 0 = 0 \<and> et s5 0 = 0)
   \<and> (principal nl nel nv0 T P S rnd rmax = Inr s6 \<and> nv0 + 1 < MAX_NOS \<longrightarrow>
        en s6 0 = 0 \<and> et s6 0 = 0)
   \<and> celula r (49 + 1) = celula (Suc r) 0
   \<and> le_Yn (fonte_mem 49 noa nob ii m) (Suc noa) 0 = fonte 49 noa nob ii (le_Yn m) noa (49 + 1)
   \<and> le_Yn (transcondutancia_mem 49 0 49 0 1 (\<lambda>a. 0)) 48 (49 + 1) = - 1
   \<and> transcondutancia 49 0 49 0 1 (\<lambda>r c. 0) 48 (49 + 1) = 0"
proof -
  have m1: "c < MAX_NOS \<and> c' < MAX_NOS \<longrightarrow> (celula r c = celula r' c' \<longleftrightarrow> r = r' \<and> c = c')"
    using celula_inj by blast
  have m2: "noc < MAX_NOS \<and> nod < MAX_NOS \<and> c < MAX_NOS \<longrightarrow>
        le_Yn (transcondutancia_mem noa nob noc nod val m) r c
          = transcondutancia noa nob noc nod val (le_Yn m) r c"
    using transcondutancia_mem_le by blast
  have m3: "nvv + 1 < MAX_NOS \<and> c < MAX_NOS \<longrightarrow>
        le_Yn (fonte_mem nvv noa nob ii m) r c = fonte nvv noa nob ii (le_Yn m) r c"
    using fonte_mem_le by blast
  have m4: "noc < MAX_NOS \<and> nod < MAX_NOS \<and> c < MAX_NOS \<and> 1 \<le> r \<and> 1 \<le> c \<longrightarrow>
        le_Yn (transcondutancia_mem noa nob noc nod val m) r c
          = g_sem_terra noa nob noc nod val (le_Yn m) r c"
    using transcondutancia_mem_le [of noc nod c noa nob val m r]
      transcondutancia_sem_terra [of noa nob noc nod val "le_Yn m"]
    by (simp add: igual_sem_terra_def)
  have m5: "nvv + 1 < MAX_NOS \<and> c < MAX_NOS \<and> 1 \<le> r \<and> 1 \<le> c \<longrightarrow>
        le_Yn (fonte_mem nvv noa nob ii m) r c = fonte_sem_terra nvv noa nob ii (le_Yn m) r c"
    using fonte_mem_le [of nvv c noa nob ii m r]
      fonte_sem_terra [of nvv noa nob ii "le_Yn m"]
    by (simp add: igual_sem_terra_def)
  have c: "resolversistema n t W = Inr W' \<and> n + 1 < MAX_NOS \<longrightarrow>
        (\<forall>j. W' 0 j = W 0 j) \<and> (\<forall>i. W' i 0 = W i 0)"
    using resolversistema_terra by blast
  have d: "igual_sem_terra W Z \<and> n + 1 < MAX_NOS \<longrightarrow>
        mesmo_resultado (resolversistema n t W) (resolversistema n t Z)"
    using resolversistema_sem_terra by blast
  have e: "iteracao s = Inr s1 \<and> nv s + 1 < MAX_NOS \<longrightarrow> en s1 0 = en s 0 \<and> et s1 0 = et s 0"
    using iteracao_efeito(4) apaga_iter_campos(5) [OF apaga_iter_iteracao] by metis
  have f: "newton s = Inr s2 \<and> nv s + 1 < MAX_NOS \<longrightarrow> en s2 0 = en s 0 \<and> et s2 0 = et s 0"
    using newton_en0 apaga_iter_campos(5) [OF apaga_iter_newton] by metis
  have g: "passo_tempo s = Inr s3 \<and> nv s + 1 < MAX_NOS \<longrightarrow>
        en s3 0 = en s 0 \<and> et s3 0 = et s 0"
    using passo_tempo_campos(14,15) by blast
  have p: "en (prepara s) 0 = 0" "et (prepara s) 0 = et s 0" for s
    by (simp_all add: prepara_def Let_def)
  have h: "laco k (prepara s) = Inr s4 \<longrightarrow> en s4 0 = 0 \<and> et s4 0 = et s 0" for k s s4
    using terra_laco [of k "prepara s" s4] p [of s] by simp
  have i: "laco k (prepara (carrega nl nel nv0 T P S rnd rmax)) = Inr s5 \<longrightarrow>
        en s5 0 = 0 \<and> et s5 0 = 0" for k s5
    using h [of k "carrega nl nel nv0 T P S rnd rmax" s5] by (simp add: carrega_def)
  have j: "principal nl nel nv0 T P S rnd rmax = Inr s6 \<longrightarrow> en s6 0 = 0 \<and> et s6 0 = 0"
    using i unfolding principal_def simula_def Let_def
    by (simp split: if_splits)
  have q1: "celula r (49 + 1) = celula (Suc r) 0" by (rule celula_49)
  have q2: "le_Yn (fonte_mem 49 noa nob ii m) (Suc noa) 0
      = fonte 49 noa nob ii (le_Yn m) noa (49 + 1)"
    by (simp add: le_Yn_def fonte_mem_def fonte_def Let_def soma_mem_def soma_apply
        celula_def MAX_NOS_def)
  have q3: "le_Yn (transcondutancia_mem 49 0 49 0 1 (\<lambda>a. 0)) 48 (49 + 1) = - 1"
    by (simp add: le_Yn_def transcondutancia_mem_def Let_def soma_mem_def celula_def MAX_NOS_def)
  have q4: "transcondutancia 49 0 49 0 1 (\<lambda>r c. 0) 48 (49 + 1) = 0"
    by (simp add: transcondutancia_apply)
  have i2: "laco k (prepara (carrega nl nel nv0 T P S rnd rmax)) = Inr s5
        \<and> nv0 + 1 < MAX_NOS \<longrightarrow> en s5 0 = 0 \<and> et s5 0 = 0"
    using i by blast
  have j2: "principal nl nel nv0 T P S rnd rmax = Inr s6 \<and> nv0 + 1 < MAX_NOS \<longrightarrow>
        en s6 0 = 0 \<and> et s6 0 = 0"
    using j by blast
  show ?thesis
    apply (intro conjI)
    apply (fact m1)
    apply (fact m2)
    apply (fact m3)
    apply (fact m4)
    apply (fact m5)
    apply (fact c)
    apply (fact d)
    apply (fact e)
    apply (fact f)
    apply (fact g)
    apply (fact i2)
    apply (fact j2)
    apply (fact q1)
    apply (fact q2)
    apply (fact q3)
    apply (fact q4)
    done
qed

text \<open>
  A conductance of 2 from node 1 to ground and a source of 1 A from ground into node 1,
  stamped as the program does, in memory and in the model, and with ground skipped.
\<close>

definition Y_terra :: sistema where
  "Y_terra = fonte 1 0 1 1 (condutancia 1 0 2 (\<lambda>r c. 0))"

definition M_terra :: "nat \<Rightarrow> real" where
  "M_terra = fonte_mem 1 0 1 1 (transcondutancia_mem 1 0 1 0 2 (\<lambda>a. 0))"

definition Z_terra :: sistema where
  "Z_terra = fonte_sem_terra 1 0 1 1 (g_sem_terra 1 0 1 0 2 (\<lambda>r c. 0))"

definition terra_de :: "estado \<Rightarrow> real \<times> real" where
  "terra_de s = (en s 0, et s 0)"

theorem terra_fora_do_sistema_witness:
  "Y_terra 0 0 = 2 \<and> Y_terra 0 1 = - 2 \<and> Y_terra 0 2 = - 1 \<and> Y_terra 1 0 = - 2
   \<and> le_Yn M_terra 1 2 = Y_terra 1 2 \<and> le_Yn M_terra 1 1 = 2 \<and> le_Yn M_terra 1 2 = 1
   \<and> Z_terra 0 0 = 0 \<and> Z_terra 0 1 = 0 \<and> Z_terra 0 2 = 0 \<and> Z_terra 1 0 = 0
   \<and> igual_sem_terra Y_terra Z_terra
   \<and> (\<exists>Y'. resolversistema 1 0 Y_terra = Inr Y' \<and> Y' 1 2 = 1 / 2
          \<and> Y' 0 0 = 2 \<and> Y' 0 1 = - 2 \<and> Y' 0 2 = - 1 \<and> Y' 1 0 = - 2)
   \<and> (\<exists>Z'. resolversistema 1 0 Z_terra = Inr Z' \<and> Z' 1 2 = 1 / 2
          \<and> Z' 0 0 = 0 \<and> Z' 0 1 = 0 \<and> Z' 0 2 = 0 \<and> Z' 1 0 = 0)
   \<and> observa terra_de (iteracao inicio_IC) = Inr (0, 0)
   \<and> observa terra_de (passo_tempo inicio_IC) = Inr (0, 0)
   \<and> observa terra_de (principal circuito_IC 2 1 1 1 1 (\<lambda>k. 0) 1) = Inr (0, 0)"
proof -
  have y: "Y_terra 0 0 = 2" "Y_terra 0 1 = - 2" "Y_terra 0 2 = - 1" "Y_terra 1 0 = - 2"
    "Y_terra 1 1 = 2" "Y_terra 1 2 = 1"
    by (simp_all add: Y_terra_def fonte_apply condutancia_def transcondutancia_apply)
  have z: "Z_terra 0 0 = 0" "Z_terra 0 1 = 0" "Z_terra 0 2 = 0" "Z_terra 1 0 = 0"
    by (simp_all add: Z_terra_def fonte_sem_terra_def g_sem_terra_def soma_sem_terra_apply)
  note c = inicio_IC_campos
  have e0: "en inicio_IC 0 = 0" "et inicio_IC 0 = 0" using c(5,6) by simp_all
  have nvi: "nv inicio_IC = 1" using c(1) by (simp add: circ_def)
  from solve1 [of Y_terra 0] y obtain Y' where
    Y': "resolversistema 1 0 Y_terra = Inr Y'" "Y' 1 2 = 1 / 2" by auto
  from iteracao_IC [OF c(1)] c(2) c(1) obtain s1 where it: "iteracao inicio_IC = Inr s1"
    by (auto simp: circ_def inicio_IC_def prepara_def carrega_def Let_def)
  from passo0_IC obtain s3 where p: "passo_tempo inicio_IC = Inr s3" by blast
  from principal_IC obtain s6 where
    pr: "principal circuito_IC 2 1 1 1 1 (\<lambda>k. 0) 1 = Inr s6" by blast
  have eq: "igual_sem_terra Y_terra Z_terra"
    unfolding igual_sem_terra_def Y_terra_def Z_terra_def
    by (auto simp: fonte_apply condutancia_def transcondutancia_apply fonte_sem_terra_def
        g_sem_terra_def soma_sem_terra_apply)
  have b: "(1::nat) + 1 < MAX_NOS" "(2::nat) < MAX_NOS" "(1::nat) < MAX_NOS" "(0::nat) < MAX_NOS"
    by (simp_all add: MAX_NOS_def)
  note t = terra_fora_do_sistema [where nvv = 1 and noa = 0 and nob = 1 and ii = 1
      and m = "transcondutancia_mem 1 0 1 0 2 (\<lambda>a. 0)" and r = 1 and c = 2
      and noc = 1 and nod = 0 and n = 1 and t = 0 and W = Y_terra and W' = Y'
      and Z = Z_terra and s = inicio_IC and ?s1.0 = s1 and ?s2.0 = s1 and ?s3.0 = s3
      and k = 0 and ?s5.0 = s1 and nl = circuito_IC
      and nel = 2 and ?nv0.0 = 1 and T = 1 and P = 1 and S = 1 and rnd = "\<lambda>k. 0" and rmax = 1
      and ?s6.0 = s6]
  have mt: "le_Yn M_terra 1 2 = fonte 1 0 1 1 (le_Yn (transcondutancia_mem 1 0 1 0 2 (\<lambda>a. 0))) 1 2"
    using t b unfolding M_terra_def by simp
  note t' = terra_fora_do_sistema [where noa = 1 and nob = 0 and noc = 1 and nod = 0
      and val = 2 and m = "\<lambda>a. 0" and c = 2 and r = 1]
  note t'' = terra_fora_do_sistema [where noa = 1 and nob = 0 and noc = 1 and nod = 0
      and val = 2 and m = "\<lambda>a. 0" and c = 1 and r = 1]
  have mt2: "le_Yn (transcondutancia_mem 1 0 1 0 2 (\<lambda>a. 0)) 1 2
      = transcondutancia 1 0 1 0 2 (le_Yn (\<lambda>a. 0)) 1 2"
    using t' b by simp
  have z0: "le_Yn (\<lambda>a. 0) = (\<lambda>r c. 0)" by (simp add: le_Yn_def)
  have mm: "le_Yn M_terra 1 2 = 1"
    using mt mt2 by (simp add: fonte_apply z0 transcondutancia_apply)
  have mm1: "le_Yn M_terra 1 1 = 2"
    by (simp add: M_terra_def le_Yn_def fonte_mem_def transcondutancia_mem_def Let_def
        soma_mem_def celula_def MAX_NOS_def)
  have r: "Y' 0 0 = 2" "Y' 0 1 = - 2" "Y' 0 2 = - 1" "Y' 1 0 = - 2"
    using t Y'(1) y b by simp_all
  have m: "mesmo_resultado (resolversistema 1 0 Y_terra) (resolversistema 1 0 Z_terra)"
    using t eq b by blast
  then obtain Z' where Z': "resolversistema 1 0 Z_terra = Inr Z'" "igual_sem_terra Y' Z'"
    unfolding Y'(1) mesmo_resultado_def
    by (cases "resolversistema 1 0 Z_terra") simp_all
  note tz = terra_fora_do_sistema [where n = 1 and t = 0 and W = Z_terra and W' = Z',
      THEN conjunct2, THEN conjunct2, THEN conjunct2, THEN conjunct2, THEN conjunct2,
      THEN conjunct1]
  have zt: "(\<forall>j. Z' 0 j = Z_terra 0 j) \<and> (\<forall>i. Z' i 0 = Z_terra i 0)"
    using tz Z'(1) b by simp
  have rz: "Z' 1 2 = 1 / 2" "Z' 0 0 = 0" "Z' 0 1 = 0" "Z' 0 2 = 0" "Z' 1 0 = 0"
    using Z'(2) Y'(2) zt z by (simp_all add: igual_sem_terra_def)
  have g: "en s1 0 = 0 \<and> et s1 0 = 0" "en s3 0 = 0 \<and> et s3 0 = 0"
    "en s6 0 = 0 \<and> et s6 0 = 0"
    using t it p pr e0 nvi b by simp_all
  show ?thesis
    unfolding it p pr observa_def terra_de_def
    using y z eq Y' Z'(1) r rz g mm mm1 by simp
qed

end
